theory Spec2Isabelle
  imports Complex_Main
begin

section \<open>Data model\<close>

text \<open>
  JavaScript numbers are modelled as mathematical reals: rounding of IEEE doubles is not
  part of the model. A numeric property that may be \<^verbatim>\<open>null\<close> or
  \<^verbatim>\<open>undefined\<close> is a \<open>real option\<close>, \<open>None\<close> standing for the absent
  value. Counters that the code only ever increments from 0 are naturals.
\<close>

record geopoint =
  lat :: real
  lng :: real

text \<open>
  The plain marker objects handed to \<^verbatim>\<open>SpatialUtils\<close> (built in
  \<^verbatim>\<open>calculateCircleStatsWithRadius\<close> and before \<^verbatim>\<open>findHotspots\<close>), and the
  \<^verbatim>\<open>marker.data\<close> payload of a map marker. The property \<^verbatim>\<open>zip\<close> is written
  \<open>zip_code\<close>.
\<close>

record marker = geopoint +
  hasEducation :: bool
  hasIncome :: bool
  totalHigherEd :: "real option"
  totalHighIncomeHouseholds :: "real option"
  medianIncome :: "real option"
  zip_code :: string

text \<open>A Leaflet marker of \<^verbatim>\<open>this.markers\<close>: its position and its optional payload.\<close>

record map_marker =
  getLatLng :: geopoint
  data :: "marker option"

text \<open>
  The statistics object of \<^verbatim>\<open>calculateDonutStats\<close>; \<^verbatim>\<open>calculateCircleStats\<close>
  returns the same properties and some more. The property \<^verbatim>\<open>medianIncome\<close> of the
  result is written \<open>statMedianIncome\<close> (the marker's property has the name already); it
  is \<open>None\<close> when the code never assigns it.
\<close>

record region_stats =
  totalMarkers :: nat
  educationOnly :: nat
  incomeOnly :: nat
  bothCriteria :: nat
  totalEducation :: real
  totalHighIncome :: real
  medianIncomes :: "real list"
  statMedianIncome :: "real option"

record circle_stats = region_stats +
  educationValues :: "real list"
  incomeValues :: "real list"
  markers :: "marker list"
  meanEducation :: real
  meanHighIncome :: real
  areaSqKm :: real
  radiusKm :: real

section \<open>Geo math\<close>

text \<open>\<^verbatim>\<open>Math.atan2(y, x)\<close> on reals.\<close>

definition atan2 :: "real \<Rightarrow> real \<Rightarrow> real" where
  "atan2 y x =
     (if 0 < x then arctan (y / x)
      else if x < 0 then (if 0 \<le> y then arctan (y / x) + pi else arctan (y / x) - pi)
      else if 0 < y then pi / 2
      else if y < 0 then - (pi / 2)
      else 0)"

definition haversineDistance :: "geopoint \<Rightarrow> geopoint \<Rightarrow> real" where
  "haversineDistance p1 p2 =
     (let R = 6371000;
          phi1 = lat p1 * pi / 180;
          phi2 = lat p2 * pi / 180;
          dphi = (lat p2 - lat p1) * pi / 180;
          dlambda = (lng p2 - lng p1) * pi / 180;
          a = sin (dphi / 2) * sin (dphi / 2) +
              cos phi1 * cos phi2 * sin (dlambda / 2) * sin (dlambda / 2);
          c = 2 * atan2 (sqrt a) (sqrt (1 - a))
      in R * c)"

section \<open>Statistical aggregator\<close>

text \<open>Truthiness of a numeric property: absent values and 0 are falsy.\<close>

fun truthy :: "real option \<Rightarrow> bool" where
  "truthy None = False"
| "truthy (Some x) = (x \<noteq> 0)"

text \<open>\<^verbatim>\<open>v || 0\<close> on a numeric property.\<close>

fun or_zero :: "real option \<Rightarrow> real" where
  "or_zero None = 0"
| "or_zero (Some x) = x"

text \<open>
  The median step shared, word for word, by \<^verbatim>\<open>calculateCircleStats\<close> and
  \<^verbatim>\<open>calculateDonutStats\<close>: the list has been sorted in place with the comparator
  \<^verbatim>\<open>(a, b) => a - b\<close> and is not empty.
\<close>

definition medianOfSorted :: "real list \<Rightarrow> real" where
  "medianOfSorted s =
     (let mid = length s div 2
      in if length s mod 2 = 0 then (s ! (mid - 1) + s ! mid) / 2 else s ! mid)"

definition classify :: "marker \<Rightarrow> 'a region_stats_scheme \<Rightarrow> 'a region_stats_scheme" where
  "classify m r =
     (if hasEducation m \<and> hasIncome m then r\<lparr>bothCriteria := bothCriteria r + 1\<rparr>
      else if hasEducation m then r\<lparr>educationOnly := educationOnly r + 1\<rparr>
      else if hasIncome m then r\<lparr>incomeOnly := incomeOnly r + 1\<rparr>
      else r)"

subsection \<open>calculateCircleStats (js/spatialUtils.js)\<close>

definition circleInit :: circle_stats where
  "circleInit =
     \<lparr>totalMarkers = 0, educationOnly = 0, incomeOnly = 0, bothCriteria = 0,
      totalEducation = 0, totalHighIncome = 0, medianIncomes = [],
      statMedianIncome = None,
      educationValues = [], incomeValues = [], markers = [],
      meanEducation = 0, meanHighIncome = 0, areaSqKm = 0, radiusKm = 0\<rparr>"

text \<open>The body of the \<^verbatim>\<open>forEach\<close> callback.\<close>

definition circleVisit :: "geopoint \<Rightarrow> real \<Rightarrow> circle_stats \<Rightarrow> marker \<Rightarrow> circle_stats" where
  "circleVisit center radiusMeters result m =
     (let markerLatLng = \<lparr>lat = lat m, lng = lng m\<rparr>;
          distance = haversineDistance center markerLatLng
      in if distance \<le> radiusMeters then
           (let r1 = result\<lparr>totalMarkers := totalMarkers result + 1,
                             markers := markers result @ [m]\<rparr>;
                r2 = classify m r1;
                r3 = (if truthy (totalHigherEd m)
                      then r2\<lparr>totalEducation := totalEducation r2 + or_zero (totalHigherEd m),
                              educationValues := educationValues r2 @ [or_zero (totalHigherEd m)]\<rparr>
                      else r2);
                r4 = (if truthy (totalHighIncomeHouseholds m)
                      then r3\<lparr>totalHighIncome :=
                                totalHighIncome r3 + or_zero (totalHighIncomeHouseholds m),
                              incomeValues :=
                                incomeValues r3 @ [or_zero (totalHighIncomeHouseholds m)]\<rparr>
                      else r3)
            in if truthy (medianIncome m)
               then r4\<lparr>medianIncomes := medianIncomes r4 @ [or_zero (medianIncome m)]\<rparr>
               else r4)
         else result)"

definition circleFinish :: "real \<Rightarrow> circle_stats \<Rightarrow> circle_stats" where
  "circleFinish radiusMeters result =
     (let r1 = (if length (medianIncomes result) > 0
                then result\<lparr>medianIncomes := sort (medianIncomes result),
                            statMedianIncome :=
                              Some (medianOfSorted (sort (medianIncomes result)))\<rparr>
                else result);
          r2 = r1\<lparr>meanEducation :=
                     (if length (educationValues r1) > 0
                      then totalEducation r1 / real (length (educationValues r1)) else 0)\<rparr>;
          r3 = r2\<lparr>meanHighIncome :=
                     (if length (incomeValues r2) > 0
                      then totalHighIncome r2 / real (length (incomeValues r2)) else 0)\<rparr>
      in r3\<lparr>areaSqKm := pi * (radiusMeters / 1000)\<^sup>2, radiusKm := radiusMeters / 1000\<rparr>)"

definition calculateCircleStats :: "marker list \<Rightarrow> geopoint \<Rightarrow> real \<Rightarrow> circle_stats" where
  "calculateCircleStats ms center radiusMeters =
     circleFinish radiusMeters (foldl (circleVisit center radiusMeters) circleInit ms)"

subsection \<open>calculateDonutStats (ring visualizer)\<close>

definition donutInit :: region_stats where
  "donutInit =
     \<lparr>totalMarkers = 0, educationOnly = 0, incomeOnly = 0, bothCriteria = 0,
      totalEducation = 0, totalHighIncome = 0, medianIncomes = [],
      statMedianIncome = None\<rparr>"

definition donutVisit :: "geopoint \<Rightarrow> real \<Rightarrow> real \<Rightarrow> region_stats \<Rightarrow> map_marker \<Rightarrow> region_stats" where
  "donutVisit center minMeters maxMeters stats mk =
     (case data mk of
        None \<Rightarrow> stats
      | Some d \<Rightarrow>
          (let distance =
                 haversineDistance \<lparr>lat = lat center, lng = lng center\<rparr>
                   \<lparr>lat = lat (getLatLng mk), lng = lng (getLatLng mk)\<rparr>
           in if distance > minMeters \<and> distance \<le> maxMeters then
                (let s1 = stats\<lparr>totalMarkers := totalMarkers stats + 1\<rparr>;
                     s2 = classify d s1;
                     s3 = s2\<lparr>totalEducation := totalEducation s2 + or_zero (totalHigherEd d)\<rparr>;
                     s4 = s3\<lparr>totalHighIncome :=
                               totalHighIncome s3 + or_zero (totalHighIncomeHouseholds d)\<rparr>
                 in if truthy (medianIncome d)
                    then s4\<lparr>medianIncomes := medianIncomes s4 @ [or_zero (medianIncome d)]\<rparr>
                    else s4)
              else stats))"

definition donutFinish :: "region_stats \<Rightarrow> region_stats" where
  "donutFinish stats =
     (if length (medianIncomes stats) > 0
      then stats\<lparr>medianIncomes := sort (medianIncomes stats),
                 statMedianIncome := Some (medianOfSorted (sort (medianIncomes stats)))\<rparr>
      else stats)"

text \<open>\<open>ms\<close> is \<^verbatim>\<open>this.markers\<close> in iteration order.\<close>

definition calculateDonutStats :: "map_marker list \<Rightarrow> geopoint \<Rightarrow> real \<Rightarrow> real \<Rightarrow> region_stats" where
  "calculateDonutStats ms center minMeters maxMeters =
     donutFinish (foldl (donutVisit center minMeters maxMeters) donutInit ms)"

section \<open>Hotspot clusterer (js/spatialUtils.js)\<close>

text \<open>
  A grid cell. The properties \<^verbatim>\<open>markers\<close>, \<^verbatim>\<open>totalValue\<close>, \<^verbatim>\<open>avgLat\<close>,
  \<^verbatim>\<open>avgLng\<close> and \<^verbatim>\<open>count\<close> carry the prefix \<open>cell\<close> here, since the hotspot objects
  have properties of the same names.
\<close>

record cell =
  cellMarkers :: "marker list"
  cellTotalValue :: real
  cellAvgLat :: real
  cellAvgLng :: real
  cellCount :: nat
  cellX :: int
  cellY :: int

text \<open>
  The grid is a JavaScript \<^verbatim>\<open>Map\<close>: an association list in insertion order. The key
  \<^verbatim>\<open>`${cellX},${cellY}`\<close> is modelled by the pair of the two integers it prints.
\<close>

type_synonym grid = "((int \<times> int) \<times> cell) list"

record bbox =
  minLat :: real
  maxLat :: real
  minLng :: real
  maxLng :: real

text \<open>
  The objects that \<^verbatim>\<open>findHotspots\<close> pushes (step 2) and the cluster objects that
  \<^verbatim>\<open>mergeAdjacentCells\<close> builds have different properties: the former carry
  \<^verbatim>\<open>id\<close>, \<^verbatim>\<open>lat\<close>, \<^verbatim>\<open>lng\<close> and \<^verbatim>\<open>bbox\<close> and no \<^verbatim>\<open>avgLat\<close>,
  \<^verbatim>\<open>avgLng\<close>; the latter carry \<^verbatim>\<open>avgLat\<close>, \<^verbatim>\<open>avgLng\<close> and none of the
  four. A property an object does not have is \<open>None\<close>; reading it gives
  \<^verbatim>\<open>undefined\<close>, arithmetic on it gives \<^verbatim>\<open>NaN\<close> (also \<open>None\<close>), and a comparison
  with \<^verbatim>\<open>NaN\<close> is false.
\<close>

record hotspot =
  hotspotId :: "(int \<times> int) option"
  hotspotLat :: "real option"
  hotspotLng :: "real option"
  hcount :: nat
  totalValue :: real
  intensity :: real
  hotspotMarkers :: "marker list"
  hotspotBbox :: "bbox option"
  avgLat :: "real option"
  avgLng :: "real option"

text \<open>
  The objects of the returned list: the hotspot's properties, \<^verbatim>\<open>rank\<close> and
  \<^verbatim>\<open>radius\<close>. The display strings \<^verbatim>\<open>name\<close> and \<^verbatim>\<open>description\<close>, printed
  from the rank, the count and the intensity, are left out.
\<close>

record top_hotspot = hotspot +
  rank :: nat
  radius :: real

record spatial_utils =
  hotspotCache :: "top_hotspot list option"
  lastHotspotCalculation :: int

definition cacheDurationHotspots :: int where
  "cacheDurationHotspots = 5 * 60 * 1000"

definition newSpatialUtils :: spatial_utils where
  "newSpatialUtils = \<lparr>hotspotCache = None, lastHotspotCalculation = 0\<rparr>"

definition markerValue :: "marker \<Rightarrow> real" where
  "markerValue m =
     (if hasEducation m \<and> hasIncome m then 3
      else if hasEducation m \<or> hasIncome m then 1
      else 0)"

text \<open>Step 1: the callback of \<^verbatim>\<open>markers.forEach\<close>.\<close>

definition gridVisit :: "real \<Rightarrow> grid \<Rightarrow> marker \<Rightarrow> grid" where
  "gridVisit gridSize grid m =
     (let cx = \<lfloor>lat m / gridSize\<rfloor>;
          cy = \<lfloor>lng m / gridSize\<rfloor>;
          cellKey = (cx, cy);
          grid1 = (if map_of grid cellKey = None
                   then grid @ [(cellKey,
                          \<lparr>cellMarkers = [], cellTotalValue = 0, cellAvgLat = 0, cellAvgLng = 0,
                           cellCount = 0, cellX = cx, cellY = cy\<rparr>)]
                   else grid)
      in map (\<lambda>(k, c).
               if k = cellKey
               then (k, c\<lparr>cellMarkers := cellMarkers c @ [m],
                          cellTotalValue := cellTotalValue c + markerValue m,
                          cellAvgLat := cellAvgLat c + lat m,
                          cellAvgLng := cellAvgLng c + lng m,
                          cellCount := cellCount c + 1\<rparr>)
               else (k, c)) grid1)"

text \<open>Step 2: the callback of \<^verbatim>\<open>grid.forEach\<close>.\<close>

definition cellHotspot :: "real \<Rightarrow> hotspot list \<Rightarrow> (int \<times> int) \<times> cell \<Rightarrow> hotspot list" where
  "cellHotspot gridSize hotspots kc =
     (let cellKey = fst kc; c = snd kc
      in if cellCount c = 0 then hotspots
         else
           (let aLat = cellAvgLat c / real (cellCount c);
                aLng = cellAvgLng c / real (cellCount c);
                density = real (cellCount c);
                avgValue = cellTotalValue c / real (cellCount c);
                inten = density * avgValue
            in hotspots @
               [\<lparr>hotspotId = Some cellKey, hotspotLat = Some aLat, hotspotLng = Some aLng,
                 hcount = cellCount c, totalValue = cellTotalValue c, intensity = inten,
                 hotspotMarkers = cellMarkers c,
                 hotspotBbox = Some \<lparr>minLat = real_of_int (cellX c) * gridSize,
                                      maxLat = real_of_int (cellX c + 1) * gridSize,
                                      minLng = real_of_int (cellY c) * gridSize,
                                      maxLng = real_of_int (cellY c + 1) * gridSize\<rparr>,
                 avgLat = None, avgLng = None\<rparr>]))"

subsection \<open>mergeAdjacentCells\<close>

text \<open>
  \<^verbatim>\<open>Math.sqrt(dx * dx + dy * dy)\<close> of the two centres as the code reads them, from
  \<^verbatim>\<open>avgLat\<close> and \<^verbatim>\<open>avgLng\<close>; \<open>None\<close> is \<^verbatim>\<open>NaN\<close>.
\<close>

definition centreDistance :: "hotspot \<Rightarrow> hotspot \<Rightarrow> real option" where
  "centreDistance a b =
     (case (avgLat a, avgLat b, avgLng a, avgLng b) of
        (Some la, Some lb, Some ga, Some gb) \<Rightarrow>
          (let dx = \<bar>la - lb\<bar>; dy = \<bar>ga - gb\<bar> in Some (sqrt (dx * dx + dy * dy)))
      | _ \<Rightarrow> None)"

text \<open>\<^verbatim>\<open>distance < mergeDistance\<close>: false when the distance is \<^verbatim>\<open>NaN\<close>.\<close>

fun numLess :: "real option \<Rightarrow> real \<Rightarrow> bool" where
  "numLess None y = False"
| "numLess (Some x) y = (x < y)"

text \<open>\<^verbatim>\<open>(a + b) / 2\<close> on values that may be \<^verbatim>\<open>undefined\<close> or \<^verbatim>\<open>NaN\<close>.\<close>

fun numMean :: "real option \<Rightarrow> real option \<Rightarrow> real option" where
  "numMean (Some a) (Some b) = Some ((a + b) / 2)"
| "numMean _ _ = None"

text \<open>The body of the inner loop, for the index \<open>j\<close>; the state is the cluster and \<open>used\<close>.\<close>

definition mergeInner ::
  "hotspot list \<Rightarrow> real \<Rightarrow> nat \<Rightarrow> hotspot \<times> nat set \<Rightarrow> nat \<Rightarrow> hotspot \<times> nat set" where
  "mergeInner hotspots mergeDistance i st j =
     (let cluster = fst st; used = snd st
      in if j \<in> used then st
         else if numLess (centreDistance (hotspots ! i) (hotspots ! j)) mergeDistance
         then (cluster\<lparr>hotspotMarkers := hotspotMarkers cluster @ hotspotMarkers (hotspots ! j),
                        hcount := hcount cluster + hcount (hotspots ! j),
                        totalValue := totalValue cluster + totalValue (hotspots ! j),
                        intensity := intensity cluster + intensity (hotspots ! j),
                        avgLat := numMean (avgLat cluster) (avgLat (hotspots ! j)),
                        avgLng := numMean (avgLng cluster) (avgLng (hotspots ! j))\<rparr>,
               insert j used)
         else st)"

text \<open>The body of the outer loop, for the index \<open>i\<close>; the state is \<open>merged\<close> and \<open>used\<close>.\<close>

definition mergeOuter ::
  "hotspot list \<Rightarrow> real \<Rightarrow> hotspot list \<times> nat set \<Rightarrow> nat \<Rightarrow> hotspot list \<times> nat set" where
  "mergeOuter hotspots mergeDistance st i =
     (let merged = fst st; used = snd st
      in if i \<in> used then st
         else
           (let cluster = \<lparr>hotspotId = None, hotspotLat = None, hotspotLng = None,
                           hcount = hcount (hotspots ! i),
                           totalValue = totalValue (hotspots ! i),
                           intensity = intensity (hotspots ! i),
                           hotspotMarkers = hotspotMarkers (hotspots ! i),
                           hotspotBbox = None,
                           avgLat = avgLat (hotspots ! i),
                           avgLng = avgLng (hotspots ! i)\<rparr>;
                res = foldl (mergeInner hotspots mergeDistance i) (cluster, insert i used)
                        [i + 1 ..< length hotspots]
            in (merged @ [fst res], snd res)))"

definition mergeAdjacentCells :: "hotspot list \<Rightarrow> real \<Rightarrow> hotspot list" where
  "mergeAdjacentCells hotspots mergeDistance =
     (if length hotspots \<le> 1 then hotspots
      else fst (foldl (mergeOuter hotspots mergeDistance) ([], {}) [0 ..< length hotspots]))"

subsection \<open>findHotspots\<close>

definition calculateGeographicCenter :: "marker list \<Rightarrow> geopoint" where
  "calculateGeographicCenter ms =
     (if length ms = 0 then \<lparr>lat = 0, lng = 0\<rparr>
      else \<lparr>lat = foldl (\<lambda>acc m. acc + lat m) 0 ms / real (length ms),
            lng = foldl (\<lambda>acc m. acc + lng m) 0 ms / real (length ms)\<rparr>)"

text \<open>The callback of the final \<^verbatim>\<open>map\<close>, for the element at \<open>index\<close>.\<close>

definition rankHotspot :: "hotspot \<times> nat \<Rightarrow> top_hotspot" where
  "rankHotspot hi =
     (let h = fst hi; index = snd hi;
          center = calculateGeographicCenter (hotspotMarkers h)
      in hotspot.extend (h\<lparr>hotspotLat := Some (lat center), hotspotLng := Some (lng center)\<rparr>)
           \<lparr>rank = index + 1, radius = sqrt (real (hcount h)) * 5000\<rparr>)"

text \<open>
  Steps 1 to 4 on a non-empty input. \<^verbatim>\<open>sort((a, b) => b.intensity - a.intensity)\<close> is
  a stable sort by descending intensity.
\<close>

definition computeHotspots :: "marker list \<Rightarrow> top_hotspot list" where
  "computeHotspots ms =
     (let gridSize = 0.1;
          grid = foldl (gridVisit gridSize) [] ms;
          hotspots = foldl (cellHotspot gridSize) [] grid;
          mergedHotspots = mergeAdjacentCells hotspots (gridSize * 1.5);
          sortedHotspots = sort_key (\<lambda>h. - intensity h) mergedHotspots;
          sliced = take 50 sortedHotspots
      in map rankHotspot (zip sliced [0 ..< length sliced]))"

text \<open>\<open>now\<close> is the value of \<^verbatim>\<open>Date.now()\<close> at the call.\<close>

definition findHotspots :: "spatial_utils \<Rightarrow> int \<Rightarrow> marker list \<Rightarrow> top_hotspot list \<times> spatial_utils" where
  "findHotspots su now ms =
     (case hotspotCache su of
        Some cached \<Rightarrow>
          if now - lastHotspotCalculation su < cacheDurationHotspots then (cached, su)
          else if length ms = 0 then ([], su)
          else (let topHotspots = computeHotspots ms
                in (topHotspots, su\<lparr>hotspotCache := Some topHotspots, lastHotspotCalculation := now\<rparr>))
      | None \<Rightarrow>
          if length ms = 0 then ([], su)
          else (let topHotspots = computeHotspots ms
                in (topHotspots, su\<lparr>hotspotCache := Some topHotspots, lastHotspotCalculation := now\<rparr>)))"

section \<open>Ring manager (ring visualizer)\<close>

record ring_bands =
  inner :: region_stats
  middle :: region_stats
  outer :: region_stats

text \<open>
  The properties \<^verbatim>\<open>inner\<close>, \<^verbatim>\<open>middle\<close> and \<^verbatim>\<open>outer\<close> of \<^verbatim>\<open>radii\<close>, in miles,
  are written with the suffix \<open>Miles\<close>.
\<close>

record ring_radii =
  innerMiles :: real
  middleMiles :: real
  outerMiles :: real
  innerMeters :: real
  middleMeters :: real
  outerMeters :: real

text \<open>
  The ring object stored in \<^verbatim>\<open>this.rings\<close>: the map layers, the place names of
  \<^verbatim>\<open>locations\<close> and the ISO time stamp are left out; the id is its counter.
\<close>

record ring_data =
  ringId :: nat
  center :: geopoint
  radii :: ring_radii
  donutStats :: ring_bands
  weightedStats :: ring_bands
  created :: int

text \<open>The drawing state and the rings of the visualizer; \<open>tempCircle\<close> holds the radius.\<close>

record visualizer =
  visMarkers :: "map_marker list"
  isDrawing :: bool
  drawingLock :: bool
  tempCircle :: "real option"
  startPoint :: "geopoint option"
  ringCounter :: nat
  rings :: "ring_data list"

definition cancelDrawing :: "visualizer \<Rightarrow> visualizer" where
  "cancelDrawing v = v\<lparr>tempCircle := None, isDrawing := False, drawingLock := False, startPoint := None\<rparr>"

text \<open>The object \<^verbatim>\<open>ringData\<close> that \<^verbatim>\<open>finishDrawing\<close> builds around \<open>c\<close>.\<close>

definition ringDataAt :: "visualizer \<Rightarrow> int \<Rightarrow> geopoint \<Rightarrow> ring_data" where
  "ringDataAt v now c =
     (let innerRadiusMiles = 5;
          middleRadiusMiles = 10;
          outerRadiusMiles = 25;
          milesToMeters = 1609.34;
          innerRadiusMeters = innerRadiusMiles * milesToMeters;
          middleRadiusMeters = middleRadiusMiles * milesToMeters;
          outerRadiusMeters = outerRadiusMiles * milesToMeters;
          innerDonutStats = calculateDonutStats (visMarkers v) c 0 innerRadiusMeters;
          middleDonutStats = calculateDonutStats (visMarkers v) c innerRadiusMeters middleRadiusMeters;
          outerDonutStats = calculateDonutStats (visMarkers v) c middleRadiusMeters outerRadiusMeters;
          weightedInnerDonutStats =
            calculateDonutStats (visMarkers v) c 0 (innerRadiusMiles * 3 * milesToMeters);
          weightedMiddleDonutStats =
            calculateDonutStats (visMarkers v) c (innerRadiusMiles * 3 * milesToMeters)
              (middleRadiusMiles * 2 * milesToMeters);
          weightedOuterDonutStats =
            calculateDonutStats (visMarkers v) c (middleRadiusMiles * milesToMeters)
              (outerRadiusMiles * milesToMeters)
      in \<lparr>ringId = ringCounter v,
          center = c,
          radii = \<lparr>innerMiles = innerRadiusMiles, middleMiles = middleRadiusMiles,
                    outerMiles = outerRadiusMiles, innerMeters = innerRadiusMeters,
                    middleMeters = middleRadiusMeters, outerMeters = outerRadiusMeters\<rparr>,
          donutStats = \<lparr>inner = innerDonutStats, middle = middleDonutStats,
                         outer = outerDonutStats\<rparr>,
          weightedStats = \<lparr>inner = weightedInnerDonutStats, middle = weightedMiddleDonutStats,
                            outer = weightedOuterDonutStats\<rparr>,
          created = now\<rparr>)"

definition finishDrawing :: "visualizer \<Rightarrow> int \<Rightarrow> real \<Rightarrow> visualizer" where
  "finishDrawing v now baseRadiusMeters =
     (case startPoint v of
        None \<Rightarrow> cancelDrawing v
      | Some c \<Rightarrow>
          if \<not> isDrawing v \<or> tempCircle v = None then cancelDrawing v
          else cancelDrawing
                 (v\<lparr>ringCounter := ringCounter v + 1,
                    rings := rings v @ [ringDataAt v now c]\<rparr>))"

section \<open>Directional marker navigator\<close>

datatype nav_key = KeyW | KeyA | KeyS | KeyD

subsection \<open>The ring and hotspot visualizers: nearest marker in the direction\<close>

text \<open>\<open>bestDistance\<close> starts at \<^verbatim>\<open>Infinity\<close>, written \<open>None\<close>.\<close>

record nav_best =
  bestMarker :: "map_marker option"
  bestDistance :: "real option"
  bestIndex :: int

fun belowBest :: "real \<Rightarrow> real option \<Rightarrow> bool" where
  "belowBest d None = True"
| "belowBest d (Some b) = (d < b)"

definition isInDirection :: "nav_key \<Rightarrow> geopoint \<Rightarrow> map_marker \<Rightarrow> bool" where
  "isInDirection key current mk =
     (let la = lat (getLatLng mk); lo = lng (getLatLng mk)
      in if key = KeyW \<and> la > lat current then True
         else if key = KeyS \<and> la < lat current then True
         else if key = KeyA \<and> lo < lng current then True
         else if key = KeyD \<and> lo > lng current then True
         else False)"

definition planarDistance :: "geopoint \<Rightarrow> map_marker \<Rightarrow> real" where
  "planarDistance current mk =
     (let latDiff = lat (getLatLng mk) - lat current;
          lngDiff = lng (getLatLng mk) - lng current
      in sqrt (latDiff * latDiff + lngDiff * lngDiff))"

text \<open>The callback of \<^verbatim>\<open>markerList.forEach\<close>, for a marker and its index.\<close>

definition navVisit :: "nav_key \<Rightarrow> geopoint \<Rightarrow> nav_best \<Rightarrow> map_marker \<times> nat \<Rightarrow> nav_best" where
  "navVisit key current best mi =
     (let mk = fst mi; index = snd mi;
          distance = planarDistance current mk
      in if isInDirection key current mk \<and> belowBest distance (bestDistance best)
         then \<lparr>bestMarker = Some mk, bestDistance = Some distance, bestIndex = int index\<rparr>
         else best)"

definition navSearch :: "nav_key \<Rightarrow> geopoint \<Rightarrow> map_marker list \<Rightarrow> nav_best" where
  "navSearch key current markerList =
     foldl (navVisit key current)
       \<lparr>bestMarker = None, bestDistance = None, bestIndex = - 1\<rparr>
       (zip markerList [0 ..< length markerList])"

text \<open>
  The marker the handler flies to, if any, once the cooldown has let the key through and
  the marker list has been built.
\<close>

definition navigateNearest :: "nav_key \<Rightarrow> geopoint \<Rightarrow> map_marker list \<Rightarrow> map_marker option" where
  "navigateNearest key current markerList =
     (if length markerList = 0 then None
      else bestMarker (navSearch key current markerList))"

subsection \<open>js/mapVisualizer.js: best score\<close>

text \<open>\<open>bestScore\<close> starts at \<^verbatim>\<open>-Infinity\<close>, written \<open>None\<close>.\<close>

record score_best =
  scoreMarker :: "map_marker option"
  bestScore :: "real option"
  scoreIndex :: int

fun aboveBest :: "real \<Rightarrow> real option \<Rightarrow> bool" where
  "aboveBest s None = True"
| "aboveBest s (Some b) = (s > b)"

definition markerScore :: "nav_key \<Rightarrow> geopoint \<Rightarrow> map_marker \<Rightarrow> real" where
  "markerScore key current mk =
     (let latDiff = lat (getLatLng mk) - lat current;
          lngDiff = lng (getLatLng mk) - lng current;
          distance = sqrt (latDiff * latDiff + lngDiff * lngDiff);
          normLat = latDiff / distance;
          normLng = lngDiff / distance;
          targetLat = (if key = KeyW then 1 else if key = KeyS then - 1 else 0);
          targetLng = (if key = KeyA then - 1 else if key = KeyD then 1 else 0);
          dotProduct = normLat * targetLat + normLng * targetLng;
          directionScore = max 0 dotProduct;
          distanceScore = 1 / (distance + 0.1)
      in directionScore * 2 + distanceScore * 0.5)"

definition scoreVisit :: "nav_key \<Rightarrow> geopoint \<Rightarrow> score_best \<Rightarrow> map_marker \<times> nat \<Rightarrow> score_best" where
  "scoreVisit key current best mi =
     (let mk = fst mi; index = snd mi
      in if planarDistance current mk = 0 then best
         else if aboveBest (markerScore key current mk) (bestScore best)
         then \<lparr>scoreMarker = Some mk, bestScore = Some (markerScore key current mk),
               scoreIndex = int index\<rparr>
         else best)"

definition navigateByScore :: "nav_key \<Rightarrow> geopoint \<Rightarrow> map_marker list \<Rightarrow> map_marker option" where
  "navigateByScore key current markerList =
     (if length markerList = 0 then None
      else
        (let best = foldl (scoreVisit key current)
                      \<lparr>scoreMarker = None, bestScore = None, scoreIndex = - 1\<rparr>
                      (zip markerList [0 ..< length markerList])
         in case bestScore best of
              None \<Rightarrow> None
            | Some s \<Rightarrow> if scoreMarker best \<noteq> None \<and> s > 0.5 then scoreMarker best else None))"

section \<open>Cache layer and statistics fetch client (ACSAPIService)\<close>

text \<open>
  A JavaScript object or \<^verbatim>\<open>Map\<close> with string keys: its entries in insertion order.
  (The order in which a plain object enumerates keys that print an integer is not
  modelled.)
\<close>

type_synonym 'v js_object = "(string \<times> 'v) list"

text \<open>\<^verbatim>\<open>obj[k] = v\<close> and \<^verbatim>\<open>map.set(k, v)\<close>.\<close>

fun objSet :: "string \<Rightarrow> 'v \<Rightarrow> 'v js_object \<Rightarrow> 'v js_object" where
  "objSet k v [] = [(k, v)]"
| "objSet k v ((k', v') # rest) =
     (if k' = k then (k, v) # rest else (k', v') # objSet k v rest)"

definition objectAssign :: "'v js_object \<Rightarrow> 'v js_object \<Rightarrow> 'v js_object" where
  "objectAssign target source = foldl (\<lambda>obj kv. objSet (fst kv) (snd kv) obj) target source"


text \<open>
  \<^verbatim>\<open>chunkArray\<close>. The loop \<^verbatim>\<open>for (i = 0; i < array.length; i += size)\<close> does not
  end when the chunk size is 0 and the array is not empty: the result is then \<open>None\<close>.
\<close>

function chunkFrom :: "nat \<Rightarrow> 'a list \<Rightarrow> nat \<Rightarrow> 'a list list option" where
  "chunkFrom i array chunkSize =
     (if i < length array then
        (if chunkSize = 0 then None
         else map_option (\<lambda>chunks. take chunkSize (drop i array) # chunks)
                (chunkFrom (i + chunkSize) array chunkSize))
      else Some [])"
  by pat_completeness auto
termination
  by (relation "measure (\<lambda>(i, array, chunkSize). length array - i)") auto

definition chunkArray :: "'a list \<Rightarrow> nat \<Rightarrow> 'a list list option" where
  "chunkArray array chunkSize = chunkFrom 0 array chunkSize"

subsection \<open>Service state and environment\<close>

text \<open>
  The payload that \<^verbatim>\<open>parseResponse\<close> builds for a ZIP code, flattened: the three
  properties of \<^verbatim>\<open>data\<close> and the properties of \<^verbatim>\<open>metadata\<close> (\<^verbatim>\<open>name\<close>,
  \<^verbatim>\<open>hasEducation\<close>, \<^verbatim>\<open>hasIncome\<close> and \<^verbatim>\<open>zip\<close> with the prefix \<open>meta\<close>).
\<close>

record payload =
  Higher_Education :: real
  High_Income_Households :: real
  Median_Income :: "real option"
  metaName :: "string option"
  fetchedAt :: int
  metaHasEducation :: bool
  metaHasIncome :: bool
  educationValue :: real
  incomeValue :: real
  combinedValue :: real
  metaZip :: string

record cache_entry =
  entryKey :: string
  entryData :: payload
  expiry :: int
  cachedAt :: int
  entryZip :: string

text \<open>The object store \<^verbatim>\<open>census_data\<close>, keyed by the key path \<^verbatim>\<open>key\<close>.\<close>

type_synonym object_store = "string \<rightharpoonup> cache_entry"

record mem_entry =
  memData :: payload
  timestamp :: int


text \<open>
  The service. \<open>db\<close> is \<open>None\<close> while \<^verbatim>\<open>this.db\<close> is \<^verbatim>\<open>null\<close> and holds the
  content of the object store otherwise; \<open>initialized\<close> says that
  \<^verbatim>\<open>cachePromise\<close> is set; \<open>batchLog\<close> collects the sizes that
  \<^verbatim>\<open>fetchBatchFromAPI\<close> prints (\<^verbatim>\<open>Fetching batch of N ZIP codes...\<close>).
\<close>

record service =
  db :: "object_store option"
  initialized :: bool
  memoryCache :: "mem_entry js_object"
  currentProxyIndex :: nat
  cacheHits :: nat
  cacheMisses :: nat
  apiCalls :: nat
  batchLog :: "nat list"

text \<open>
  A parsed body: a value that is not an array, or an array of rows. The rows are arrays
  of strings, which is what the Census API delivers; a body of another shape (a row that
  is \<^verbatim>\<open>null\<close>, say) would make \<^verbatim>\<open>parseResponse\<close> throw inside the \<^verbatim>\<open>try\<close> of
  \<^verbatim>\<open>fetchBatchFromAPI\<close> and is not modelled.
\<close>

datatype response = NotAnArray | Table "string list list"

text \<open>
  What the browser gives: \<open>fetchJson n p zs\<close> is the parsed body that the \<open>n\<close>-th
  request of the service, through the proxy \<open>p\<close>, for the ZIP codes \<open>zs\<close> ends with,
  \<open>None\<close> when the request fails (network error, abort after 30 s, a status that is not
  ok, a body that is not JSON); \<open>parseFloat\<close> is the built-in, \<open>None\<close> for
  \<^verbatim>\<open>NaN\<close>; \<open>indexedDB\<close> is the stored object store that \<^verbatim>\<open>indexedDB.open\<close>
  delivers, \<open>None\<close> when opening fails.
\<close>

record environment =
  fetchJson :: "nat \<Rightarrow> nat \<Rightarrow> string list \<Rightarrow> response option"
  parseFloat :: "string \<Rightarrow> real option"
  indexedDB :: "object_store option"

datatype js_error = FetchFailed

definition cacheDuration :: int where
  "cacheDuration = 90 * 24 * 60 * 60 * 1000"

definition batchSize :: nat where
  "batchSize = 30"

definition cachePrefix :: string where
  "cachePrefix = ''acs_2022_''"

definition memoryCacheSize :: nat where
  "memoryCacheSize = 500"

definition newService :: service where
  "newService =
     \<lparr>db = None, initialized = False, memoryCache = [], currentProxyIndex = 0,
      cacheHits = 0, cacheMisses = 0, apiCalls = 0, batchLog = []\<rparr>"

subsection \<open>The durable store\<close>

text \<open>
  IndexedDB: a request that writes (\<^verbatim>\<open>put\<close>, \<^verbatim>\<open>delete\<close>) in a transaction opened
  \<^verbatim>\<open>'readonly'\<close> throws a \<^verbatim>\<open>ReadOnlyError\<close> and changes nothing.
\<close>

datatype txn_mode = Readonly | Readwrite

datatype dom_exception = ReadOnlyError

definition storeDelete :: "txn_mode \<Rightarrow> string \<Rightarrow> object_store \<Rightarrow> dom_exception + object_store" where
  "storeDelete mode k store =
     (case mode of Readonly \<Rightarrow> Inl ReadOnlyError | Readwrite \<Rightarrow> Inr (store(k := None)))"

definition storePut :: "txn_mode \<Rightarrow> cache_entry \<Rightarrow> object_store \<Rightarrow> dom_exception + object_store" where
  "storePut mode e store =
     (case mode of Readonly \<Rightarrow> Inl ReadOnlyError | Readwrite \<Rightarrow> Inr (store(entryKey e \<mapsto> e)))"



text \<open>
  \<^verbatim>\<open>getFromCache\<close>. The result is \<open>None\<close> when the returned promise never settles:
  the success handler runs in the \<^verbatim>\<open>'readonly'\<close> transaction of the \<^verbatim>\<open>get\<close>, so
  an exception of \<^verbatim>\<open>store.delete\<close> leaves the handler before \<^verbatim>\<open>resolve(null)\<close>.
  Otherwise it is the resolved value (\<open>None\<close> for \<^verbatim>\<open>null\<close>) and the service.
\<close>

definition getFromCache :: "service \<Rightarrow> int \<Rightarrow> string \<Rightarrow> (payload option \<times> service) option" where
  "getFromCache svc now z =
     (case db svc of
        None \<Rightarrow> Some (None, svc)
      | Some store \<Rightarrow>
          (let cacheKey = cachePrefix @ z
           in case store cacheKey of
                None \<Rightarrow> Some (None, svc)
              | Some cached \<Rightarrow>
                  if now > expiry cached then
                    (case storeDelete Readonly cacheKey store of
                       Inl e \<Rightarrow> None
                     | Inr store' \<Rightarrow> Some (None, svc\<lparr>db := Some store'\<rparr>))
                  else Some (Some (entryData cached), svc)))"

definition addToMemoryCache :: "service \<Rightarrow> int \<Rightarrow> string \<Rightarrow> payload \<Rightarrow> service" where
  "addToMemoryCache svc now z d =
     (let mc = (if length (memoryCache svc) \<ge> memoryCacheSize
                then tl (memoryCache svc) else memoryCache svc)
      in svc\<lparr>memoryCache := objSet z \<lparr>memData = d, timestamp = now\<rparr> mc\<rparr>)"

definition cacheData :: "service \<Rightarrow> int \<Rightarrow> string \<Rightarrow> payload \<Rightarrow> service" where
  "cacheData svc now z d =
     (case db svc of
        None \<Rightarrow> svc
      | Some store \<Rightarrow>
          (let cacheKey = cachePrefix @ z;
               cacheEntry = \<lparr>entryKey = cacheKey, entryData = d, expiry = now + cacheDuration,
                              cachedAt = now, entryZip = z\<rparr>
           in case storePut Readwrite cacheEntry store of
                Inl e \<Rightarrow> svc
              | Inr store' \<Rightarrow> svc\<lparr>db := Some store'\<rparr>))"

subsection \<open>Chunks are no longer than the chunk size\<close>

declare chunkFrom.simps [simp del]

lemma chunkFrom_length_le:
  "chunkFrom i array n = Some chunks \<Longrightarrow> c \<in> set chunks \<Longrightarrow> length c \<le> n"
proof (induction i array n arbitrary: chunks rule: chunkFrom.induct)
  case (1 i array n)
  show ?case
  proof (cases "i < length array \<and> n \<noteq> 0")
    case True
    then obtain rest where rest: "chunkFrom (i + n) array n = Some rest"
      and chunks: "chunks = take n (drop i array) # rest"
      using "1.prems"(1) by (subst (asm) chunkFrom.simps) auto
    show ?thesis
      using "1.IH" [OF _ _ rest] True "1.prems"(2) chunks by auto
  next
    case False
    then show ?thesis
      using "1.prems" by (subst (asm) chunkFrom.simps) (auto split: if_splits)
  qed
qed

lemma chunkArray_length_le:
  "chunkArray array n = Some chunks \<Longrightarrow> c \<in> set chunks \<Longrightarrow> length c \<le> n"
  unfolding chunkArray_def by (rule chunkFrom_length_le)

subsection \<open>parseResponse\<close>

text \<open>\<^verbatim>\<open>headers.indexOf(v)\<close>: the first index, or -1.\<close>

fun indexFrom :: "nat \<Rightarrow> 'a list \<Rightarrow> 'a \<Rightarrow> int" where
  "indexFrom i [] x = - 1"
| "indexFrom i (y # ys) x = (if y = x then int i else indexFrom (Suc i) ys x)"

definition indexOf :: "'a list \<Rightarrow> 'a \<Rightarrow> int" where
  "indexOf xs x = indexFrom 0 xs x"

text \<open>\<^verbatim>\<open>row[idx]\<close>: \<^verbatim>\<open>undefined\<close> outside the row.\<close>

definition cellAt :: "string list \<Rightarrow> int \<Rightarrow> string option" where
  "cellAt row idx = (if 0 \<le> idx \<and> nat idx < length row then Some (row ! nat idx) else None)"

text \<open>\<^verbatim>\<open>parseFloat(row[idx])\<close>, \<open>None\<close> for \<^verbatim>\<open>NaN\<close>.\<close>

definition parseCell :: "environment \<Rightarrow> string list \<Rightarrow> int \<Rightarrow> real option" where
  "parseCell env row idx = (case cellAt row idx of None \<Rightarrow> None | Some c \<Rightarrow> parseFloat env c)"

definition sumColumns :: "environment \<Rightarrow> string list \<Rightarrow> int list \<Rightarrow> real" where
  "sumColumns env row idxs =
     foldl (\<lambda>total idx. if idx \<noteq> - 1 then total + or_zero (parseCell env row idx) else total) 0 idxs"

text \<open>The body of the loop over the data rows; the state is \<open>results\<close> and \<open>requestedSet\<close>.\<close>

definition parseRow ::
  "environment \<Rightarrow> int \<Rightarrow> string list \<Rightarrow> payload js_object \<times> string set \<Rightarrow> string list
     \<Rightarrow> payload js_object \<times> string set" where
  "parseRow env now headers st row =
     (let results = fst st; requestedSet = snd st;
          iName = indexOf headers ''NAME'';
          iZip = indexOf headers ''zip code tabulation area'';
          iEducation = map (indexOf headers) [''B15003_022E'', ''B15003_023E'', ''B15003_024E'', ''B15003_025E''];
          iIncome = map (indexOf headers) [''B19001_014E'', ''B19001_015E'', ''B19001_016E'', ''B19001_017E''];
          iMedianIncome = indexOf headers ''B19013_001E''
      in case cellAt row iZip of
           None \<Rightarrow> st
         | Some z \<Rightarrow>
             if z \<in> requestedSet then
               (let totalHigherEd = sumColumns env row iEducation;
                    totalHighIncome = sumColumns env row iIncome;
                    medianIncome =
                      (if iMedianIncome \<noteq> - 1
                       then (if truthy (parseCell env row iMedianIncome)
                             then parseCell env row iMedianIncome else None)
                       else None);
                    hasEducation = (totalHigherEd \<ge> 1000);
                    hasIncome = (totalHighIncome \<ge> 1000);
                    educationValue = max totalHigherEd 1000;
                    incomeValue = max totalHighIncome 1000
                in (objSet z
                      \<lparr>Higher_Education = totalHigherEd,
                       High_Income_Households = totalHighIncome,
                       Median_Income = medianIncome,
                       metaName = (if iName \<noteq> - 1 then cellAt row iName else Some ''Unknown''),
                       fetchedAt = now,
                       metaHasEducation = hasEducation,
                       metaHasIncome = hasIncome,
                       educationValue = educationValue,
                       incomeValue = incomeValue,
                       combinedValue = sqrt educationValue * 0.5 + sqrt incomeValue * 0.5,
                       metaZip = z\<rparr> results,
                    requestedSet - {z}))
             else st)"

definition parseResponse :: "environment \<Rightarrow> int \<Rightarrow> response \<Rightarrow> string list \<Rightarrow> payload js_object" where
  "parseResponse env now body requestedZips =
     (case body of
        NotAnArray \<Rightarrow> []
      | Table rows \<Rightarrow>
          (case rows of
             [] \<Rightarrow> []
           | headers # dataRows \<Rightarrow>
               fst (foldl (parseRow env now headers) ([], set requestedZips) dataRows)))"

subsection \<open>Fetching\<close>

function fetchWithCorsFallback ::
  "environment \<Rightarrow> string list \<Rightarrow> nat \<Rightarrow> service \<Rightarrow> (js_error + response) \<times> service" where
  "fetchWithCorsFallback env zs retryCount svc =
     (let svc1 = svc\<lparr>apiCalls := apiCalls svc + 1\<rparr>
      in case fetchJson env (apiCalls svc) (currentProxyIndex svc) zs of
           Some r \<Rightarrow> (Inr r, svc1)
         | None \<Rightarrow>
             if retryCount < 3 - 1 then
               fetchWithCorsFallback env zs (retryCount + 1)
                 (svc1\<lparr>currentProxyIndex := (currentProxyIndex svc1 + 1) mod 3\<rparr>)
             else (Inl FetchFailed, svc1))"
  by pat_completeness auto
termination
  by (relation "measure (\<lambda>(env, zs, retryCount, svc). 3 - retryCount)") auto

function fetchBatchFromAPI ::
  "environment \<Rightarrow> int \<Rightarrow> string list \<Rightarrow> service \<Rightarrow> ((js_error + payload js_object) \<times> service) option" where
  "fetchBatchFromAPI env now zipCodes svc =
     (if length zipCodes = 0 then Some (Inr [], svc)
      else
        (let svc0 = svc\<lparr>batchLog := batchLog svc @ [length zipCodes]\<rparr>
         in case fetchWithCorsFallback env zipCodes 0 svc0 of
              (Inr body, svc1) \<Rightarrow> Some (Inr (parseResponse env now body zipCodes), svc1)
            | (Inl err, svc1) \<Rightarrow>
                if length zipCodes > 5 then
                  (case chunkArray zipCodes 5 of
                     None \<Rightarrow> None
                   | Some smallerBatches \<Rightarrow>
                       map_option (\<lambda>rs. (Inr (fst rs), snd rs))
                         (foldl
                            (\<lambda>acc smallBatch.
                               case acc of
                                 None \<Rightarrow> None
                               | Some rs \<Rightarrow>
                                   (case fetchBatchFromAPI env now smallBatch (snd rs) of
                                      None \<Rightarrow> None
                                    | Some (Inr smallResult, s) \<Rightarrow>
                                        Some (objectAssign (fst rs) smallResult, s)
                                    | Some (Inl smallError, s) \<Rightarrow> Some (fst rs, s)))
                            (Some ([], svc1)) smallerBatches))
                else Some (Inl err, svc1)))"
  by pat_completeness auto
termination
  apply (relation "measure (\<lambda>(env, now, zipCodes, svc). length zipCodes)")
   apply simp
  apply (auto dest: chunkArray_length_le)
  done

declare fetchWithCorsFallback.simps [simp del]
declare fetchBatchFromAPI.simps [simp del]

text \<open>
  The body of the loop \<^verbatim>\<open>for (const smallBatch of smallerBatches)\<close> in the
  \<^verbatim>\<open>catch\<close> block of \<^verbatim>\<open>fetchBatchFromAPI\<close>, for one small batch: the function above
  has it in line.
\<close>

definition retrySmallBatch ::
  "environment \<Rightarrow> int \<Rightarrow> (payload js_object \<times> service) option \<Rightarrow> string list
     \<Rightarrow> (payload js_object \<times> service) option" where
  "retrySmallBatch env now acc smallBatch =
     (case acc of
        None \<Rightarrow> None
      | Some rs \<Rightarrow>
          (case fetchBatchFromAPI env now smallBatch (snd rs) of
             None \<Rightarrow> None
           | Some (Inr smallResult, s) \<Rightarrow> Some (objectAssign (fst rs) smallResult, s)
           | Some (Inl smallError, s) \<Rightarrow> Some (fst rs, s)))"

text \<open>The body of the loop of \<^verbatim>\<open>fetchMissingData\<close>, for one batch.\<close>

definition fetchMissingBatch ::
  "environment \<Rightarrow> int \<Rightarrow> (payload js_object \<times> service) option \<Rightarrow> string list
     \<Rightarrow> (payload js_object \<times> service) option" where
  "fetchMissingBatch env now acc batch =
     (case acc of
        None \<Rightarrow> None
      | Some rs \<Rightarrow>
          (case fetchBatchFromAPI env now batch (snd rs) of
             None \<Rightarrow> None
           | Some (Inr batchData, s) \<Rightarrow>
               Some (objectAssign (fst rs) batchData,
                     foldl (\<lambda>s' kv. cacheData s' now (fst kv) (snd kv)) s batchData)
           | Some (Inl err, s) \<Rightarrow> Some (fst rs, s)))"

definition fetchMissingData ::
  "environment \<Rightarrow> int \<Rightarrow> string list \<Rightarrow> service \<Rightarrow> (payload js_object \<times> service) option" where
  "fetchMissingData env now zipCodes svc =
     (if length zipCodes = 0 then Some ([], svc)
      else case chunkArray zipCodes batchSize of
             None \<Rightarrow> None
           | Some batches \<Rightarrow> foldl (fetchMissingBatch env now) (Some ([], svc)) batches)"

subsection \<open>fetchCombinedData\<close>






section \<open>Notions of the specification\<close>

subsection \<open>Regions and their counts\<close>

text \<open>Membership of a marker in a circle and in a band (isWithinRadius, isWithinBand).\<close>

definition inCircle :: "geopoint \<Rightarrow> real \<Rightarrow> marker \<Rightarrow> bool" where
  "inCircle c rad m = (haversineDistance c \<lparr>lat = lat m, lng = lng m\<rparr> \<le> rad)"

definition inBand :: "geopoint \<Rightarrow> real \<Rightarrow> real \<Rightarrow> map_marker \<Rightarrow> bool" where
  "inBand c lo hi mk =
     (let d = haversineDistance \<lparr>lat = lat c, lng = lng c\<rparr>
                \<lparr>lat = lat (getLatLng mk), lng = lng (getLatLng mk)\<rparr>
      in lo < d \<and> d \<le> hi)"

text \<open>The markers of a region: those inside, with their payload.\<close>

definition circleMembers :: "marker list \<Rightarrow> geopoint \<Rightarrow> real \<Rightarrow> marker list" where
  "circleMembers ms c rad = filter (inCircle c rad) ms"

definition donutMembers :: "map_marker list \<Rightarrow> geopoint \<Rightarrow> real \<Rightarrow> real \<Rightarrow> marker list" where
  "donutMembers mks c lo hi =
     concat (map (\<lambda>mk. case data mk of None \<Rightarrow> [] | Some d \<Rightarrow> [d]) (filter (inBand c lo hi) mks))"

text \<open>The median incomes that are present: a number other than 0.\<close>

definition presentIncomes :: "marker list \<Rightarrow> real list" where
  "presentIncomes ms =
     concat (map (\<lambda>m. case medianIncome m of
                         None \<Rightarrow> []
                       | Some x \<Rightarrow> if x = 0 then [] else [x]) ms)"

text \<open>
  The statistical median as the specification words it: sort ascending, take the middle
  element, or the average of the two middle elements for an even count; nothing for no
  values.
\<close>

definition statisticalMedian :: "real list \<Rightarrow> real option" where
  "statisticalMedian vs =
     (if vs = [] then None
      else let s = sort vs; n = length s
           in if odd n then Some (s ! (n div 2))
              else Some ((s ! (n div 2 - 1) + s ! (n div 2)) / 2))"

text \<open>The three category counts add up to the total.\<close>

definition balanced :: "'a region_stats_scheme \<Rightarrow> bool" where
  "balanced r = (educationOnly r + incomeOnly r + bothCriteria r = totalMarkers r)"

subsection \<open>Ranked hotspot lists\<close>

text \<open>The properties of a ranked list: dense ranks, at most 50, intensities in order.\<close>

definition denseRanks :: "top_hotspot list \<Rightarrow> bool" where
  "denseRanks hs = (map rank hs = [1 ..< Suc (length hs)])"

definition descending :: "top_hotspot list \<Rightarrow> bool" where
  "descending hs = (\<forall>k. Suc k < length hs \<longrightarrow> intensity (hs ! Suc k) \<le> intensity (hs ! k))"

definition strictlyDescending :: "top_hotspot list \<Rightarrow> bool" where
  "strictlyDescending hs = (\<forall>k. Suc k < length hs \<longrightarrow> intensity (hs ! Suc k) < intensity (hs ! k))"

definition wellRanked :: "top_hotspot list \<Rightarrow> bool" where
  "wellRanked hs = (length hs \<le> 50 \<and> denseRanks hs \<and> descending hs)"

text \<open>The cached list, when there is one, is a ranked list.\<close>

definition cacheRanked :: "spatial_utils \<Rightarrow> bool" where
  "cacheRanked su = (case hotspotCache su of None \<Rightarrow> True | Some hs \<Rightarrow> wellRanked hs)"

text \<open>The cluster object that \<open>mergeAdjacentCells\<close> starts from a hotspot.\<close>

definition asCluster :: "hotspot \<Rightarrow> hotspot" where
  "asCluster h =
     \<lparr>hotspotId = None, hotspotLat = None, hotspotLng = None, hcount = hcount h,
      totalValue = totalValue h, intensity = intensity h, hotspotMarkers = hotspotMarkers h,
      hotspotBbox = None, avgLat = avgLat h, avgLng = avgLng h\<rparr>"

text \<open>The hotspot object that step 2 pushes for a cell holding the one marker \<open>m\<close>.\<close>

definition singleCellHotspot :: "int \<Rightarrow> int \<Rightarrow> marker \<Rightarrow> hotspot" where
  "singleCellHotspot cx cy m =
     \<lparr>hotspotId = Some (cx, cy), hotspotLat = Some (lat m), hotspotLng = Some (lng m),
      hcount = 1, totalValue = markerValue m, intensity = markerValue m,
      hotspotMarkers = [m],
      hotspotBbox = Some \<lparr>minLat = real_of_int cx * 0.1, maxLat = real_of_int (cx + 1) * 0.1,
                           minLng = real_of_int cy * 0.1, maxLng = real_of_int (cy + 1) * 0.1\<rparr>,
      avgLat = None, avgLng = None\<rparr>"

subsection \<open>The nearest qualifying marker\<close>

text \<open>
  The navigator as the specification words it: a marker qualifies by strict inequality,
  and the chosen marker is a qualifying one at the smallest planar distance.
\<close>

definition qualifies :: "nav_key \<Rightarrow> geopoint \<Rightarrow> map_marker \<Rightarrow> bool" where
  "qualifies key current mk =
     (case key of
        KeyW \<Rightarrow> lat (getLatLng mk) > lat current
      | KeyS \<Rightarrow> lat (getLatLng mk) < lat current
      | KeyD \<Rightarrow> lng (getLatLng mk) > lng current
      | KeyA \<Rightarrow> lng (getLatLng mk) < lng current)"

definition nearestQualifying :: "nav_key \<Rightarrow> geopoint \<Rightarrow> map_marker list \<Rightarrow> map_marker option \<Rightarrow> bool" where
  "nearestQualifying key current markerList chosen =
     (case chosen of
        None \<Rightarrow> \<not> (\<exists>mk \<in> set markerList. qualifies key current mk)
      | Some best \<Rightarrow>
          best \<in> set markerList \<and> qualifies key current best \<and>
          (\<forall>mk \<in> set markerList. qualifies key current mk \<longrightarrow>
             planarDistance current best \<le> planarDistance current mk))"

text \<open>The invariant of the loop, after the markers \<open>seen\<close>.\<close>

definition navInvariant :: "nav_key \<Rightarrow> geopoint \<Rightarrow> map_marker list \<Rightarrow> nav_best \<Rightarrow> bool" where
  "navInvariant key current seen best =
     (nearestQualifying key current seen (bestMarker best) \<and>
      bestDistance best = map_option (planarDistance current) (bestMarker best))"

subsection \<open>What a fetch leaves alone, and what it looks up\<close>

text \<open>
  What a fetch leaves alone: the two cache tiers and the counters of cache look-ups.
\<close>

definition sameCaches :: "service \<Rightarrow> service \<Rightarrow> bool" where
  "sameCaches s s' =
     (db s' = db s \<and> memoryCache s' = memoryCache s \<and> cacheHits s' = cacheHits s
      \<and> cacheMisses s' = cacheMisses s \<and> initialized s' = initialized s)"

text \<open>
  The outcome of \<open>fetchBatchFromAPI\<close> for the batch \<open>zs\<close>, started in \<open>svc\<close>: the
  caches are untouched; a returned object holds requested ZIP codes only; an error is
  thrown for batches of at most 5 only; a batch of 1 to 5 is logged once; and when no
  request is answered nothing is returned.
\<close>

definition batchOutcome ::
  "environment \<Rightarrow> string list \<Rightarrow> service \<Rightarrow> (js_error + payload js_object) \<times> service \<Rightarrow> bool" where
  "batchOutcome env zs svc out =
     (sameCaches svc (snd out)
      \<and> (case fst out of
           Inr obj \<Rightarrow> fst ` set obj \<subseteq> set zs
         | Inl err \<Rightarrow> length zs \<le> 5)
      \<and> (zs \<noteq> [] \<and> length zs \<le> 5 \<longrightarrow> batchLog (snd out) = batchLog svc @ [length zs])
      \<and> ((\<forall>n p b. fetchJson env n p b = None) \<longrightarrow> fst out = Inr [] \<or> fst out = Inl FetchFailed))"

text \<open>The entries of an object whose keys are among the ZIP codes \<open>zs\<close>.\<close>

definition entriesFor :: "'v js_object \<Rightarrow> string list \<Rightarrow> (string \<times> 'v) set" where
  "entriesFor obj zs = {kv \<in> set obj. fst kv \<in> set zs}"

text \<open>What a batch yields: its entries when it returns, nothing when it throws.\<close>

definition batchEntries :: "js_error + payload js_object \<Rightarrow> (string \<times> payload) set" where
  "batchEntries out = (case out of Inr batchData \<Rightarrow> set batchData | Inl err \<Rightarrow> {})"

text \<open>
  What the loops over batches make of the accumulated object and the outcome of a batch:
  \<^verbatim>\<open>Object.assign\<close> in the \<^verbatim>\<open>try\<close> block, nothing in the \<^verbatim>\<open>catch\<close> block.
\<close>

definition mergeBatch :: "payload js_object \<Rightarrow> js_error + payload js_object \<Rightarrow> payload js_object" where
  "mergeBatch acc out = (case out of Inr batchData \<Rightarrow> objectAssign acc batchData | Inl err \<Rightarrow> acc)"



section \<open>Concrete inputs\<close>

subsection \<open>Markers and a drawing in progress\<close>

definition sampleMarker :: "real \<Rightarrow> real \<Rightarrow> bool \<Rightarrow> bool \<Rightarrow> real option \<Rightarrow> marker" where
  "sampleMarker la lo e i inc =
     \<lparr>lat = la, lng = lo, hasEducation = e, hasIncome = i, totalHigherEd = Some 1500,
      totalHighIncomeHouseholds = Some 1200, medianIncome = inc, zip_code = ''67601''\<rparr>"

definition sampleMapMarker :: "real \<Rightarrow> real \<Rightarrow> bool \<Rightarrow> bool \<Rightarrow> real option \<Rightarrow> map_marker" where
  "sampleMapMarker la lo e i inc =
     \<lparr>getLatLng = \<lparr>lat = la, lng = lo\<rparr>, data = Some (sampleMarker la lo e i inc)\<rparr>"

definition bareMapMarker :: "real \<Rightarrow> real \<Rightarrow> map_marker" where
  "bareMapMarker la lo = \<lparr>getLatLng = \<lparr>lat = la, lng = lo\<rparr>, data = None\<rparr>"

definition sampleVisualizer :: visualizer where
  "sampleVisualizer =
     \<lparr>visMarkers = [sampleMapMarker 0 0 True False (Some 52000),
                    sampleMapMarker 0 180 False True (Some 61000), bareMapMarker 0 180],
      isDrawing = True, drawingLock = True, tempCircle = Some 250,
      startPoint = Some \<lparr>lat = 0, lng = 0\<rparr>, ringCounter = 0, rings = []\<rparr>"

definition flagMarker :: "real \<Rightarrow> real \<Rightarrow> bool \<Rightarrow> bool \<Rightarrow> marker" where
  "flagMarker la lo e i =
     \<lparr>lat = la, lng = lo, hasEducation = e, hasIncome = i, totalHigherEd = None,
      totalHighIncomeHouseholds = None, medianIncome = None, zip_code = ''67601''\<rparr>"

text \<open>The three markers of the specification's scenario.\<close>

definition specScenario :: "marker list" where
  "specScenario =
     [flagMarker 40.0 (- 100.0) True False, flagMarker 40.05 (- 100.05) True True,
      flagMarker 45.0 (- 90.0) False True]"

text \<open>Two markers far apart, one criterion each.\<close>

definition twoFarMarkers :: "marker list" where
  "twoFarMarkers = [flagMarker 40.0 (- 100.0) True False, flagMarker 45.0 (- 90.0) False True]"

definition markerAt :: "real \<Rightarrow> real \<Rightarrow> map_marker" where
  "markerAt la lo = sampleMapMarker la lo True False (Some 52000)"

subsection \<open>Cache entries and services\<close>

definition samplePayload :: payload where
  "samplePayload =
     \<lparr>Higher_Education = 1500, High_Income_Households = 1200, Median_Income = Some 52000,
      metaName = Some ''ZCTA5 67601'', fetchedAt = 1700000000000, metaHasEducation = True,
      metaHasIncome = True, educationValue = 1500, incomeValue = 1200,
      combinedValue = sqrt 1500 * 0.5 + sqrt 1200 * 0.5, metaZip = ''67601''\<rparr>"

text \<open>A service whose store is open and empty, and one whose store holds an old entry.\<close>

definition openService :: service where
  "openService = newService\<lparr>initialized := True, db := Some Map.empty\<rparr>"

definition staleEntry :: cache_entry where
  "staleEntry =
     \<lparr>entryKey = ''acs_2022_67601'', entryData = samplePayload, expiry = 1600000000000,
      cachedAt = 1592224000000, entryZip = ''67601''\<rparr>"

definition staleService :: service where
  "staleService = newService\<lparr>initialized := True, db := Some [''acs_2022_67601'' \<mapsto> staleEntry]\<rparr>"

subsection \<open>Browsers and ZIP code lists\<close>

text \<open>A browser whose every request fails, with no stored cache.\<close>

definition deadNetwork :: environment where
  "deadNetwork = \<lparr>fetchJson = (\<lambda>n p zs. None), parseFloat = (\<lambda>s. None), indexedDB = None\<rparr>"

definition sevenZips :: "string list" where
  "sevenZips = [''67601'', ''67602'', ''67603'', ''67604'', ''67605'', ''67606'', ''67607'']"

text \<open>
  A browser that answers every request with the header row and one row for each
  requested ZIP code, with no stored cache.
\<close>

definition censusHeaders :: "string list" where
  "censusHeaders =
     [''NAME'', ''B15003_022E'', ''B15003_023E'', ''B15003_024E'', ''B15003_025E'',
      ''B19001_014E'', ''B19001_015E'', ''B19001_016E'', ''B19001_017E'', ''B19013_001E'',
      ''zip code tabulation area'']"

definition censusRow :: "string \<Rightarrow> string list" where
  "censusRow z =
     [''ZCTA5 '' @ z, ''900'', ''400'', ''100'', ''50'', ''300'', ''200'', ''150'', ''100'',
      ''52000'', z]"

definition answeringNetwork :: environment where
  "answeringNetwork =
     \<lparr>fetchJson = (\<lambda>n p zs. Some (Table (censusHeaders # map censusRow zs))),
      parseFloat = (\<lambda>s. if s = ''900'' then Some 900 else if s = ''400'' then Some 400
                         else if s = ''300'' then Some 300 else if s = ''200'' then Some 200
                         else if s = ''150'' then Some 150 else if s = ''100'' then Some 100
                         else if s = ''50'' then Some 50 else if s = ''52000'' then Some 52000
                         else None),
      indexedDB = None\<rparr>"

text \<open>
  A browser that fails every request that asks for the ZIP code 67601 and answers every
  other request as \<open>answeringNetwork\<close> does.
\<close>

definition flakyNetwork :: environment where
  "flakyNetwork =
     \<lparr>fetchJson = (\<lambda>n p zs. if ''67601'' \<in> set zs then None
                               else Some (Table (censusHeaders # map censusRow zs))),
      parseFloat = parseFloat answeringNetwork,
      indexedDB = None\<rparr>"

definition zips65 :: "string list" where
  "zips65 =
     [''67601'', ''67602'', ''67603'', ''67604'', ''67605'', ''67606'', ''67607'',
      ''67608'', ''67609'', ''67610'', ''67611'', ''67612'', ''67613'', ''67614'',
      ''67615'', ''67616'', ''67617'', ''67618'', ''67619'', ''67620'', ''67621'',
      ''67622'', ''67623'', ''67624'', ''67625'', ''67626'', ''67627'', ''67628'',
      ''67629'', ''67630'', ''67631'', ''67632'', ''67633'', ''67634'', ''67635'',
      ''67636'', ''67637'', ''67638'', ''67639'', ''67640'', ''67641'', ''67642'',
      ''67643'', ''67644'', ''67645'', ''67646'', ''67647'', ''67648'', ''67649'',
      ''67650'', ''67651'', ''67652'', ''67653'', ''67654'', ''67655'', ''67656'',
      ''67657'', ''67658'', ''67659'', ''67660'', ''67661'', ''67662'', ''67663'',
      ''67664'', ''67665'']"

section \<open>Geo math: two distances\<close>

lemma haversine_same_point: "haversineDistance \<lparr>lat = a, lng = b\<rparr> \<lparr>lat = a, lng = b\<rparr> = 0"
  by (simp add: haversineDistance_def atan2_def)

lemma haversine_half_equator:
  "haversineDistance \<lparr>lat = 0, lng = 0\<rparr> \<lparr>lat = 0, lng = 180\<rparr> = 6371000 * pi"
  by (simp add: haversineDistance_def atan2_def)

lemma half_equator_bounds: "12742000 \<le> 6371000 * pi" "6371000 * pi < 25484000"
  using pi_ge_two pi_less_4 by simp_all

section \<open>Statistical aggregator\<close>

lemma classify_keeps [simp]:
  "totalMarkers (classify m r) = totalMarkers r"
  "medianIncomes (classify m r) = medianIncomes r"
  "totalEducation (classify m r) = totalEducation r"
  "totalHighIncome (classify m r) = totalHighIncome r"
  "statMedianIncome (classify m r) = statMedianIncome r"
  by (simp_all add: classify_def)

lemma classify_counts:
  "hasEducation m \<or> hasIncome m \<Longrightarrow>
   educationOnly (classify m r) + incomeOnly (classify m r) + bothCriteria (classify m r)
     = Suc (educationOnly r + incomeOnly r + bothCriteria r)"
  by (auto simp: classify_def)

subsection \<open>Counts\<close>

lemma circleVisit_balanced:
  "hasEducation m \<or> hasIncome m \<Longrightarrow> balanced r \<Longrightarrow> balanced (circleVisit c rad r m)"
  unfolding balanced_def circleVisit_def Let_def
  by (simp add: classify_counts)

lemma circle_fold_balanced:
  "\<forall>m \<in> set ms. hasEducation m \<or> hasIncome m \<Longrightarrow> balanced r \<Longrightarrow>
   balanced (foldl (circleVisit c rad) r ms)"
  by (induction ms arbitrary: r) (simp_all add: circleVisit_balanced)

lemma circleFinish_counts [simp]:
  "totalMarkers (circleFinish rad r) = totalMarkers r"
  "educationOnly (circleFinish rad r) = educationOnly r"
  "incomeOnly (circleFinish rad r) = incomeOnly r"
  "bothCriteria (circleFinish rad r) = bothCriteria r"
  by (simp_all add: circleFinish_def Let_def)

lemma circle_balanced:
  "\<forall>m \<in> set ms. hasEducation m \<or> hasIncome m \<Longrightarrow> balanced (calculateCircleStats ms c rad)"
  using circle_fold_balanced [of ms circleInit c rad]
  by (simp add: calculateCircleStats_def balanced_def circleInit_def)

lemma circleVisit_total:
  "totalMarkers (circleVisit c rad r m) = totalMarkers r + (if inCircle c rad m then 1 else 0)"
  by (simp add: circleVisit_def Let_def inCircle_def)

lemma circle_fold_total:
  "totalMarkers (foldl (circleVisit c rad) r ms) = totalMarkers r + length (circleMembers ms c rad)"
  by (induction ms arbitrary: r) (simp_all add: circleVisit_total circleMembers_def)

lemma circle_total:
  "totalMarkers (calculateCircleStats ms c rad) = length (circleMembers ms c rad)"
  by (simp add: calculateCircleStats_def circle_fold_total circleInit_def)

lemma donutVisit_balanced:
  "(\<And>d. data mk = Some d \<Longrightarrow> hasEducation d \<or> hasIncome d) \<Longrightarrow> balanced r \<Longrightarrow>
   balanced (donutVisit c lo hi r mk)"
  unfolding balanced_def donutVisit_def Let_def
  by (simp add: classify_counts split: option.splits)

lemma donut_fold_balanced:
  "\<forall>mk \<in> set mks. \<forall>d. data mk = Some d \<longrightarrow> hasEducation d \<or> hasIncome d \<Longrightarrow> balanced r \<Longrightarrow>
   balanced (foldl (donutVisit c lo hi) r mks)"
  by (induction mks arbitrary: r) (simp_all add: donutVisit_balanced)

lemma donutFinish_counts [simp]:
  "totalMarkers (donutFinish r) = totalMarkers r"
  "educationOnly (donutFinish r) = educationOnly r"
  "incomeOnly (donutFinish r) = incomeOnly r"
  "bothCriteria (donutFinish r) = bothCriteria r"
  by (simp_all add: donutFinish_def)

lemma donut_balanced:
  "\<forall>mk \<in> set mks. \<forall>d. data mk = Some d \<longrightarrow> hasEducation d \<or> hasIncome d \<Longrightarrow>
   balanced (calculateDonutStats mks c lo hi)"
  using donut_fold_balanced [of mks donutInit c lo hi]
  by (simp add: calculateDonutStats_def balanced_def donutInit_def)

lemma donutMembers_Cons:
  "donutMembers (mk # mks) c lo hi = donutMembers [mk] c lo hi @ donutMembers mks c lo hi"
  by (simp add: donutMembers_def)

lemma donutVisit_total:
  "totalMarkers (donutVisit c lo hi r mk) = totalMarkers r + length (donutMembers [mk] c lo hi)"
  by (simp add: donutVisit_def Let_def inBand_def donutMembers_def split: option.splits)

lemma donut_fold_total:
  "totalMarkers (foldl (donutVisit c lo hi) r mks) = totalMarkers r + length (donutMembers mks c lo hi)"
proof (induction mks arbitrary: r)
  case Nil
  show ?case by (simp add: donutMembers_def)
next
  case (Cons mk mks)
  show ?case
    using donutMembers_Cons [of mk mks c lo hi]
    by (simp add: Cons.IH donutVisit_total)
qed

lemma donut_total:
  "totalMarkers (calculateDonutStats mks c lo hi) = length (donutMembers mks c lo hi)"
  by (simp add: calculateDonutStats_def donut_fold_total donutInit_def)

text \<open>
  C1. When every marker carries the education flag or the income flag (the markers with
  neither are dropped before a marker is built), the three category counts of the
  statistics of a circle and of a band add up to \<open>totalMarkers\<close>, which is the number
  of markers inside the region.
\<close>

theorem C1_category_counts_add_up:
  assumes "\<forall>m \<in> set ms. hasEducation m \<or> hasIncome m"
    and "\<forall>mk \<in> set mks. \<forall>d. data mk = Some d \<longrightarrow> hasEducation d \<or> hasIncome d"
  shows "educationOnly (calculateCircleStats ms c rad) + incomeOnly (calculateCircleStats ms c rad)
           + bothCriteria (calculateCircleStats ms c rad)
         = totalMarkers (calculateCircleStats ms c rad)
       \<and> totalMarkers (calculateCircleStats ms c rad) = length (circleMembers ms c rad)
       \<and> educationOnly (calculateDonutStats mks c lo hi) + incomeOnly (calculateDonutStats mks c lo hi)
           + bothCriteria (calculateDonutStats mks c lo hi)
         = totalMarkers (calculateDonutStats mks c lo hi)
       \<and> totalMarkers (calculateDonutStats mks c lo hi) = length (donutMembers mks c lo hi)"
proof -
  have "balanced (calculateCircleStats ms c rad)"
    using assms(1) by (rule circle_balanced)
  moreover have "balanced (calculateDonutStats mks c lo hi)"
    using assms(2) by (rule donut_balanced)
  ultimately show ?thesis
    by (simp add: balanced_def circle_total donut_total)
qed

theorem C1_category_counts_add_up_witness:
  "totalMarkers (calculateCircleStats
      [sampleMarker 0 0 True False (Some 52000), sampleMarker 0 180 False True (Some 61000),
       sampleMarker 0 0 True True None] \<lparr>lat = 0, lng = 0\<rparr> 8046.7) = 2
   \<and> educationOnly (calculateCircleStats
      [sampleMarker 0 0 True False (Some 52000), sampleMarker 0 180 False True (Some 61000),
       sampleMarker 0 0 True True None] \<lparr>lat = 0, lng = 0\<rparr> 8046.7) = 1
   \<and> incomeOnly (calculateCircleStats
      [sampleMarker 0 0 True False (Some 52000), sampleMarker 0 180 False True (Some 61000),
       sampleMarker 0 0 True True None] \<lparr>lat = 0, lng = 0\<rparr> 8046.7) = 0
   \<and> bothCriteria (calculateCircleStats
      [sampleMarker 0 0 True False (Some 52000), sampleMarker 0 180 False True (Some 61000),
       sampleMarker 0 0 True True None] \<lparr>lat = 0, lng = 0\<rparr> 8046.7) = 1
   \<and> totalMarkers (calculateDonutStats
      [sampleMapMarker 0 0 True False (Some 52000), sampleMapMarker 0 180 False True (Some 61000),
       bareMapMarker 0 180] \<lparr>lat = 0, lng = 0\<rparr> 16093.4 25484000) = 1
   \<and> incomeOnly (calculateDonutStats
      [sampleMapMarker 0 0 True False (Some 52000), sampleMapMarker 0 180 False True (Some 61000),
       bareMapMarker 0 180] \<lparr>lat = 0, lng = 0\<rparr> 16093.4 25484000) = 1"
proof -
  let ?ms = "[sampleMarker 0 0 True False (Some 52000), sampleMarker 0 180 False True (Some 61000),
       sampleMarker 0 0 True True None]"
  let ?mks = "[sampleMapMarker 0 0 True False (Some 52000), sampleMapMarker 0 180 False True (Some 61000),
       bareMapMarker 0 180]"
  have h1: "\<forall>m \<in> set ?ms. hasEducation m \<or> hasIncome m"
    by (simp add: sampleMarker_def)
  have h2: "\<forall>mk \<in> set ?mks. \<forall>d. data mk = Some d \<longrightarrow> hasEducation d \<or> hasIncome d"
    by (auto simp: sampleMapMarker_def sampleMarker_def bareMapMarker_def)
  have members: "circleMembers ?ms \<lparr>lat = 0, lng = 0\<rparr> 8046.7 =
      [sampleMarker 0 0 True False (Some 52000), sampleMarker 0 0 True True None]"
    using half_equator_bounds
    by (simp add: circleMembers_def inCircle_def sampleMarker_def haversine_same_point
          haversine_half_equator)
  have dmembers: "donutMembers ?mks \<lparr>lat = 0, lng = 0\<rparr> 16093.4 25484000 =
      [sampleMarker 0 180 False True (Some 61000)]"
    using half_equator_bounds
    by (simp add: donutMembers_def inBand_def sampleMapMarker_def bareMapMarker_def
          haversine_same_point haversine_half_equator)
  have e: "educationOnly (calculateCircleStats ?ms \<lparr>lat = 0, lng = 0\<rparr> 8046.7) = 1"
    using half_equator_bounds
    by (simp add: calculateCircleStats_def circleVisit_def circleInit_def classify_def Let_def
          sampleMarker_def haversine_same_point haversine_half_equator)
  have i: "incomeOnly (calculateCircleStats ?ms \<lparr>lat = 0, lng = 0\<rparr> 8046.7) = 0"
    using half_equator_bounds
    by (simp add: calculateCircleStats_def circleVisit_def circleInit_def classify_def Let_def
          sampleMarker_def haversine_same_point haversine_half_equator)
  have di: "incomeOnly (calculateDonutStats ?mks \<lparr>lat = 0, lng = 0\<rparr> 16093.4 25484000) = 1"
    using half_equator_bounds
    by (simp add: calculateDonutStats_def donutVisit_def donutInit_def classify_def Let_def
          sampleMapMarker_def sampleMarker_def bareMapMarker_def haversine_same_point haversine_half_equator)
  show ?thesis
    using C1_category_counts_add_up [OF h1 h2, of "\<lparr>lat = 0, lng = 0\<rparr>" "8046.7"
        "16093.4" "25484000"] members dmembers e i di
    by simp
qed

subsection \<open>Median income\<close>

lemma presentIncomes_append: "presentIncomes (xs @ ys) = presentIncomes xs @ presentIncomes ys"
  by (simp add: presentIncomes_def)

lemma presentIncomes_Cons: "presentIncomes (x # xs) = presentIncomes [x] @ presentIncomes xs"
  by (simp add: presentIncomes_def)

lemma presentIncomes_nonzero: "0 \<notin> set (presentIncomes ms)"
  by (auto simp: presentIncomes_def split: option.splits if_splits)

lemma presentIncomes_none:
  "\<forall>m \<in> set ms. medianIncome m = Some 0 \<or> medianIncome m = None \<Longrightarrow> presentIncomes ms = []"
  by (induction ms) (auto simp: presentIncomes_def)

lemma circleVisit_incomes:
  "medianIncomes (circleVisit c rad r m) =
   medianIncomes r @ (if inCircle c rad m then presentIncomes [m] else [])"
  by (cases "medianIncome m") (simp_all add: circleVisit_def Let_def inCircle_def presentIncomes_def)

lemma circle_fold_incomes:
  "medianIncomes (foldl (circleVisit c rad) r ms) =
   medianIncomes r @ presentIncomes (circleMembers ms c rad)"
proof (induction ms arbitrary: r)
  case Nil
  show ?case by (simp add: circleMembers_def presentIncomes_def)
next
  case (Cons m ms)
  have "presentIncomes (circleMembers (m # ms) c rad) =
        (if inCircle c rad m then presentIncomes [m] else []) @ presentIncomes (circleMembers ms c rad)"
    using presentIncomes_Cons [of m "filter (inCircle c rad) ms"]
    by (simp add: circleMembers_def)
  then show ?case
    by (simp add: Cons.IH circleVisit_incomes)
qed

lemma circle_fold_unset:
  "statMedianIncome (foldl (circleVisit c rad) r ms) = statMedianIncome r"
  by (induction ms arbitrary: r) (simp_all add: circleVisit_def Let_def)

lemma circleFinish_median:
  "statMedianIncome r = None \<Longrightarrow>
   statMedianIncome (circleFinish rad r) = statisticalMedian (medianIncomes r)"
  by (auto simp: circleFinish_def Let_def statisticalMedian_def medianOfSorted_def
        even_iff_mod_2_eq_zero)

lemma circleFinish_incomes: "medianIncomes (circleFinish rad r) = sort (medianIncomes r)"
  by (auto simp: circleFinish_def Let_def)

lemma circle_median:
  "statMedianIncome (calculateCircleStats ms c rad) =
   statisticalMedian (presentIncomes (circleMembers ms c rad))"
  by (simp add: calculateCircleStats_def circleFinish_median circle_fold_unset
        circle_fold_incomes circleInit_def)

lemma circle_incomes:
  "medianIncomes (calculateCircleStats ms c rad) = sort (presentIncomes (circleMembers ms c rad))"
  by (simp add: calculateCircleStats_def circleFinish_incomes circle_fold_incomes circleInit_def)

lemma donutVisit_incomes:
  "medianIncomes (donutVisit c lo hi r mk) =
   medianIncomes r @ presentIncomes (donutMembers [mk] c lo hi)"
  by (cases "data mk"; cases "medianIncome (the (data mk))")
     (simp_all add: donutVisit_def Let_def inBand_def presentIncomes_def donutMembers_def)

lemma donut_fold_incomes:
  "medianIncomes (foldl (donutVisit c lo hi) r mks) =
   medianIncomes r @ presentIncomes (donutMembers mks c lo hi)"
proof (induction mks arbitrary: r)
  case Nil
  show ?case by (simp add: donutMembers_def presentIncomes_def)
next
  case (Cons mk mks)
  show ?case
    using donutMembers_Cons [of mk mks c lo hi]
    by (simp add: Cons.IH donutVisit_incomes presentIncomes_append)
qed

lemma donut_fold_unset:
  "statMedianIncome (foldl (donutVisit c lo hi) r mks) = statMedianIncome r"
  by (induction mks arbitrary: r) (simp_all add: donutVisit_def Let_def split: option.splits)

lemma donutFinish_median:
  "statMedianIncome r = None \<Longrightarrow>
   statMedianIncome (donutFinish r) = statisticalMedian (medianIncomes r)"
  by (auto simp: donutFinish_def Let_def statisticalMedian_def medianOfSorted_def
        even_iff_mod_2_eq_zero)

lemma donutFinish_incomes: "medianIncomes (donutFinish r) = sort (medianIncomes r)"
  by (auto simp: donutFinish_def)

lemma donut_median:
  "statMedianIncome (calculateDonutStats mks c lo hi) =
   statisticalMedian (presentIncomes (donutMembers mks c lo hi))"
  by (simp add: calculateDonutStats_def donutFinish_median donut_fold_unset
        donut_fold_incomes donutInit_def)

lemma donut_incomes:
  "medianIncomes (calculateDonutStats mks c lo hi) = sort (presentIncomes (donutMembers mks c lo hi))"
  by (simp add: calculateDonutStats_def donutFinish_incomes donut_fold_incomes donutInit_def)

text \<open>
  C3. The median income that a region's statistics report is the statistical median of the
  median incomes collected from the markers of the region: the values sorted ascending,
  the middle one for an odd count, the average of the two middle ones for an even count
  (70000 for 50000, 70000, 90000 and for 50000, 90000), and no value when none was
  collected. This holds for \<open>calculateCircleStats\<close> and for \<open>calculateDonutStats\<close>.
\<close>

theorem C3_median_of_collected_incomes:
  "statMedianIncome (calculateCircleStats ms c rad) =
     statisticalMedian (presentIncomes (circleMembers ms c rad))
   \<and> statMedianIncome (calculateDonutStats mks c lo hi) =
     statisticalMedian (presentIncomes (donutMembers mks c lo hi))
   \<and> statisticalMedian [50000, 70000, 90000] = Some 70000
   \<and> statisticalMedian [50000, 90000] = Some 70000
   \<and> statisticalMedian [] = None"
proof -
  have "statisticalMedian [50000, 70000, 90000] = Some 70000"
    by (simp add: statisticalMedian_def)
  moreover have "statisticalMedian [50000, 90000] = Some 70000"
    by (simp add: statisticalMedian_def)
  moreover have "statisticalMedian [] = None"
    by (simp add: statisticalMedian_def)
  ultimately show ?thesis
    using circle_median [of ms c rad] donut_median [of mks c lo hi] by simp
qed

theorem C3_median_of_collected_incomes_witness:
  "statMedianIncome (calculateCircleStats
      [sampleMarker 0 0 True False (Some 90000), sampleMarker 0 0 False True (Some 50000),
       sampleMarker 0 180 True True (Some 10000), sampleMarker 0 0 True True (Some 70000)]
      \<lparr>lat = 0, lng = 0\<rparr> 8046.7) = Some 70000
   \<and> statMedianIncome (calculateDonutStats
      [sampleMapMarker 0 180 True False (Some 90000), sampleMapMarker 0 0 True True (Some 10000),
       sampleMapMarker 0 180 False True (Some 50000)]
      \<lparr>lat = 0, lng = 0\<rparr> 16093.4 25484000) = Some 70000
   \<and> statMedianIncome (calculateCircleStats
      [sampleMarker 0 180 True True (Some 10000)] \<lparr>lat = 0, lng = 0\<rparr> 8046.7) = None"
proof -
  let ?ms = "[sampleMarker 0 0 True False (Some 90000), sampleMarker 0 0 False True (Some 50000),
       sampleMarker 0 180 True True (Some 10000), sampleMarker 0 0 True True (Some 70000)]"
  let ?mks = "[sampleMapMarker 0 180 True False (Some 90000), sampleMapMarker 0 0 True True (Some 10000),
       sampleMapMarker 0 180 False True (Some 50000)]"
  have a: "presentIncomes (circleMembers ?ms \<lparr>lat = 0, lng = 0\<rparr> 8046.7) = [90000, 50000, 70000]"
    using half_equator_bounds
    by (simp add: circleMembers_def inCircle_def presentIncomes_def sampleMarker_def
          haversine_same_point haversine_half_equator)
  have b: "presentIncomes (donutMembers ?mks \<lparr>lat = 0, lng = 0\<rparr> 16093.4 25484000) = [90000, 50000]"
    using half_equator_bounds
    by (simp add: donutMembers_def inBand_def presentIncomes_def sampleMapMarker_def sampleMarker_def
          haversine_same_point haversine_half_equator)
  have c: "presentIncomes (circleMembers [sampleMarker 0 180 True True (Some 10000)]
             \<lparr>lat = 0, lng = 0\<rparr> 8046.7) = []"
    using half_equator_bounds
    by (simp add: circleMembers_def inCircle_def presentIncomes_def sampleMarker_def
          haversine_half_equator)
  have s3: "statisticalMedian [90000, 50000, 70000] = Some 70000"
    by (simp add: statisticalMedian_def)
  have s2: "statisticalMedian [90000, 50000] = Some 70000"
    by (simp add: statisticalMedian_def)
  have s0: "statisticalMedian [] = None"
    by (simp add: statisticalMedian_def)
  show ?thesis
    using C3_median_of_collected_incomes [of ?ms "\<lparr>lat = 0, lng = 0\<rparr>" "8046.7" ?mks "16093.4" "25484000"]
      C3_median_of_collected_incomes [of "[sampleMarker 0 180 True True (Some 10000)]"
        "\<lparr>lat = 0, lng = 0\<rparr>" "8046.7" "[]" 0 0]
    by (simp only: a b c s3 s2 s0 simp_thms)
qed

text \<open>
  C10. Only truthy median incomes are collected into the list that is sorted: a marker of
  the region whose \<open>medianIncome\<close> is 0 or absent contributes nothing, the sorted list
  never holds a 0, and a region all of whose markers report 0 (or nothing) gets no
  \<open>medianIncome\<close> at all, in \<open>calculateCircleStats\<close> and in \<open>calculateDonutStats\<close>.
\<close>

theorem C10_falsy_incomes_left_out:
  "medianIncomes (calculateCircleStats ms c rad) = sort (presentIncomes (circleMembers ms c rad))
   \<and> 0 \<notin> set (medianIncomes (calculateCircleStats ms c rad))
   \<and> ((\<forall>m \<in> set (circleMembers ms c rad). medianIncome m = Some 0 \<or> medianIncome m = None)
        \<longrightarrow> statMedianIncome (calculateCircleStats ms c rad) = None
            \<and> medianIncomes (calculateCircleStats ms c rad) = [])
   \<and> medianIncomes (calculateDonutStats mks c lo hi) = sort (presentIncomes (donutMembers mks c lo hi))
   \<and> 0 \<notin> set (medianIncomes (calculateDonutStats mks c lo hi))
   \<and> ((\<forall>m \<in> set (donutMembers mks c lo hi). medianIncome m = Some 0 \<or> medianIncome m = None)
        \<longrightarrow> statMedianIncome (calculateDonutStats mks c lo hi) = None
            \<and> medianIncomes (calculateDonutStats mks c lo hi) = [])"
proof -
  have none: "statisticalMedian [] = None"
    by (simp add: statisticalMedian_def)
  have "0 \<notin> set (sort (presentIncomes (circleMembers ms c rad)))"
    using presentIncomes_nonzero [of "circleMembers ms c rad"] by simp
  moreover have "0 \<notin> set (sort (presentIncomes (donutMembers mks c lo hi)))"
    using presentIncomes_nonzero [of "donutMembers mks c lo hi"] by simp
  ultimately show ?thesis
    by (auto simp: circle_incomes donut_incomes circle_median donut_median none
          dest!: presentIncomes_none)
qed

theorem C10_falsy_incomes_left_out_witness:
  "totalMarkers (calculateCircleStats
      [sampleMarker 0 0 True False (Some 0), sampleMarker 0 0 False True (Some 0),
       sampleMarker 0 0 True True None] \<lparr>lat = 0, lng = 0\<rparr> 8046.7) = 3
   \<and> statMedianIncome (calculateCircleStats
      [sampleMarker 0 0 True False (Some 0), sampleMarker 0 0 False True (Some 0),
       sampleMarker 0 0 True True None] \<lparr>lat = 0, lng = 0\<rparr> 8046.7) = None
   \<and> statMedianIncome (calculateDonutStats
      [sampleMapMarker 0 180 True False (Some 0), sampleMapMarker 0 180 True True (Some 0)]
      \<lparr>lat = 0, lng = 0\<rparr> 16093.4 25484000) = None
   \<and> totalMarkers (calculateDonutStats
      [sampleMapMarker 0 180 True False (Some 0), sampleMapMarker 0 180 True True (Some 0)]
      \<lparr>lat = 0, lng = 0\<rparr> 16093.4 25484000) = 2"
proof -
  let ?ms = "[sampleMarker 0 0 True False (Some 0), sampleMarker 0 0 False True (Some 0),
       sampleMarker 0 0 True True None]"
  let ?mks = "[sampleMapMarker 0 180 True False (Some 0), sampleMapMarker 0 180 True True (Some 0)]"
  have a: "circleMembers ?ms \<lparr>lat = 0, lng = 0\<rparr> 8046.7 = ?ms"
    by (simp add: circleMembers_def inCircle_def sampleMarker_def haversine_same_point)
  have b: "donutMembers ?mks \<lparr>lat = 0, lng = 0\<rparr> 16093.4 25484000 =
           [sampleMarker 0 180 True False (Some 0), sampleMarker 0 180 True True (Some 0)]"
    using half_equator_bounds
    by (simp add: donutMembers_def inBand_def sampleMapMarker_def haversine_half_equator)
  have h1: "\<forall>m \<in> set (circleMembers ?ms \<lparr>lat = 0, lng = 0\<rparr> 8046.7).
              medianIncome m = Some 0 \<or> medianIncome m = None"
    unfolding a by (simp add: sampleMarker_def)
  have h2: "\<forall>m \<in> set (donutMembers ?mks \<lparr>lat = 0, lng = 0\<rparr> 16093.4 25484000).
              medianIncome m = Some 0 \<or> medianIncome m = None"
    unfolding b by (simp add: sampleMarker_def)
  have t1: "totalMarkers (calculateCircleStats ?ms \<lparr>lat = 0, lng = 0\<rparr> 8046.7) = 3"
    unfolding circle_total a by simp
  have t2: "totalMarkers (calculateDonutStats ?mks \<lparr>lat = 0, lng = 0\<rparr> 16093.4 25484000) = 2"
    unfolding donut_total b by simp
  show ?thesis
    using C10_falsy_incomes_left_out [of ?ms "\<lparr>lat = 0, lng = 0\<rparr>" "8046.7" ?mks "16093.4" "25484000"]
      h1 h2 t1 t2
    by blast
qed

section \<open>Ring manager\<close>

text \<open>
  C8. \<open>finishDrawing\<close> computes the outer band of the weighted statistics over the same
  band as the outer donut statistics, from the middle radius to the outer radius, 10 to
  25 miles: the two records of a ring it creates are equal.
\<close>

theorem C8_weighted_outer_is_donut_outer:
  "outer (weightedStats (ringDataAt v now c)) = outer (donutStats (ringDataAt v now c))
   \<and> outer (weightedStats (ringDataAt v now c)) =
       calculateDonutStats (visMarkers v) c (10 * 1609.34) (25 * 1609.34)
   \<and> (isDrawing v \<and> tempCircle v \<noteq> None \<and> startPoint v = Some c \<longrightarrow>
        rings (finishDrawing v now r) = rings v @ [ringDataAt v now c])
   \<and> ((\<forall>ring \<in> set (rings v). outer (weightedStats ring) = outer (donutStats ring)) \<longrightarrow>
        (\<forall>ring \<in> set (rings (finishDrawing v now r)).
           outer (weightedStats ring) = outer (donutStats ring)))"
proof -
  have eq: "outer (weightedStats (ringDataAt v now c)) = outer (donutStats (ringDataAt v now c))" for c
    by (simp add: ringDataAt_def Let_def)
  have band: "outer (weightedStats (ringDataAt v now c)) =
       calculateDonutStats (visMarkers v) c (10 * 1609.34) (25 * 1609.34)"
    by (simp add: ringDataAt_def Let_def)
  have new: "isDrawing v \<and> tempCircle v \<noteq> None \<and> startPoint v = Some c \<longrightarrow>
        rings (finishDrawing v now r) = rings v @ [ringDataAt v now c]"
    by (auto simp: finishDrawing_def cancelDrawing_def)
  have inv: "(\<forall>ring \<in> set (rings v). outer (weightedStats ring) = outer (donutStats ring)) \<longrightarrow>
        (\<forall>ring \<in> set (rings (finishDrawing v now r)).
           outer (weightedStats ring) = outer (donutStats ring))"
    by (auto simp: finishDrawing_def cancelDrawing_def eq split: option.splits)
  show ?thesis
    using eq [of c] band new inv by blast
qed

theorem C8_weighted_outer_is_donut_outer_witness:
  "map (\<lambda>ring. outer (weightedStats ring)) (rings (finishDrawing sampleVisualizer 1700000000000 250)) =
   [calculateDonutStats (visMarkers sampleVisualizer) \<lparr>lat = 0, lng = 0\<rparr> 16093.4 40233.5]
   \<and> map (\<lambda>ring. outer (donutStats ring)) (rings (finishDrawing sampleVisualizer 1700000000000 250)) =
   [calculateDonutStats (visMarkers sampleVisualizer) \<lparr>lat = 0, lng = 0\<rparr> 16093.4 40233.5]
   \<and> totalMarkers (calculateDonutStats (visMarkers sampleVisualizer) \<lparr>lat = 0, lng = 0\<rparr> 16093.4 40233.5) = 0"
proof -
  have h: "isDrawing sampleVisualizer \<and> tempCircle sampleVisualizer \<noteq> None
           \<and> startPoint sampleVisualizer = Some \<lparr>lat = 0, lng = 0\<rparr>"
    by (simp add: sampleVisualizer_def)
  have inv: "\<forall>ring \<in> set (rings sampleVisualizer). outer (weightedStats ring) = outer (donutStats ring)"
    by (simp add: sampleVisualizer_def)
  have t: "totalMarkers (calculateDonutStats (visMarkers sampleVisualizer) \<lparr>lat = 0, lng = 0\<rparr> 16093.4 40233.5) = 0"
    unfolding donut_total using half_equator_bounds
    by (simp add: sampleVisualizer_def donutMembers_def inBand_def sampleMapMarker_def bareMapMarker_def
          haversine_same_point haversine_half_equator)
  have r: "rings sampleVisualizer = []"
    by (simp add: sampleVisualizer_def)
  show ?thesis
    using C8_weighted_outer_is_donut_outer [of sampleVisualizer 1700000000000 "\<lparr>lat = 0, lng = 0\<rparr>" 250]
      h inv t r
    by auto
qed

section \<open>Hotspot clusterer\<close>

subsection \<open>The hotspots of step 2 have no centre that the merge step can read\<close>

lemma cellHotspot_no_centre:
  "\<forall>h \<in> set hs. avgLat h = None \<Longrightarrow> \<forall>h \<in> set (cellHotspot g hs kc). avgLat h = None"
  by (simp add: cellHotspot_def Let_def)

lemma cellHotspots_no_centre:
  "\<forall>h \<in> set hs. avgLat h = None \<Longrightarrow> \<forall>h \<in> set (foldl (cellHotspot g) hs grid). avgLat h = None"
proof (induction grid arbitrary: hs)
  case Nil
  then show ?case by simp
next
  case (Cons kc grid)
  show ?case
    using Cons.IH [OF cellHotspot_no_centre [OF Cons.prems]] by simp
qed

lemma mergeInner_no_centre:
  "avgLat (hs ! i) = None \<Longrightarrow> mergeInner hs d i st j = st"
  by (simp add: mergeInner_def centreDistance_def Let_def)

lemma mergeInner_fold_no_centre:
  "avgLat (hs ! i) = None \<Longrightarrow> foldl (mergeInner hs d i) st js = st"
  by (induction js) (simp_all add: mergeInner_no_centre)

lemma mergeOuter_no_centre:
  "avgLat (hs ! i) = None \<Longrightarrow> i \<notin> used \<Longrightarrow>
   mergeOuter hs d (merged, used) i = (merged @ [asCluster (hs ! i)], insert i used)"
  by (simp add: mergeOuter_def Let_def mergeInner_fold_no_centre asCluster_def)

lemma mergeOuter_fold_no_centre:
  "n \<le> length hs \<Longrightarrow> \<forall>h \<in> set hs. avgLat h = None \<Longrightarrow>
   foldl (mergeOuter hs d) ([], {}) [0 ..< n] = (map asCluster (take n hs), {0 ..< n})"
proof (induction n)
  case 0
  show ?case by simp
next
  case (Suc n)
  have n: "n < length hs" using Suc.prems by simp
  have "foldl (mergeOuter hs d) ([], {}) [0 ..< Suc n] =
        mergeOuter hs d (map asCluster (take n hs), {0 ..< n}) n"
    using Suc by simp
  also have "\<dots> = (map asCluster (take n hs) @ [asCluster (hs ! n)], insert n {0 ..< n})"
    using Suc.prems n by (intro mergeOuter_no_centre) auto
  also have "\<dots> = (map asCluster (take (Suc n) hs), {0 ..< Suc n})"
    using n by (auto simp: take_Suc_conv_app_nth)
  finally show ?case .
qed

lemma mergeAdjacentCells_no_centre:
  "\<forall>h \<in> set hs. avgLat h = None \<Longrightarrow>
   mergeAdjacentCells hs d = (if length hs \<le> 1 then hs else map asCluster hs)"
  using mergeOuter_fold_no_centre [of "length hs" hs d]
  by (simp add: mergeAdjacentCells_def)

text \<open>Given centres, the merge step does merge: the sums and the concatenation.\<close>

lemma mergeAdjacentCells_with_centres:
  "map (\<lambda>h. (hcount h, totalValue h, intensity h, hotspotMarkers h))
     (mergeAdjacentCells
        [(singleCellHotspot 400 (- 1000) (specScenario ! 0))\<lparr>avgLat := Some 40, avgLng := Some (- 100)\<rparr>,
         (singleCellHotspot 400 (- 1001) (specScenario ! 1))\<lparr>avgLat := Some 40.05, avgLng := Some (- 100.05)\<rparr>]
        0.15)
   = [(2, 4, 4, [specScenario ! 0, specScenario ! 1])]"
proof -
  have "sqrt (1 / 200) < 3 / 20"
    by (rule real_less_lsqrt) (simp_all add: power2_eq_square)
  then show ?thesis
    by (simp add: mergeAdjacentCells_def mergeOuter_def mergeInner_def centreDistance_def Let_def
          singleCellHotspot_def specScenario_def flagMarker_def markerValue_def)
qed

subsection \<open>The scenario of the specification\<close>

lemma scenario_cells:
  "foldl (cellHotspot 0.1) [] (foldl (gridVisit 0.1) [] specScenario) =
   [singleCellHotspot 400 (- 1000) (specScenario ! 0),
    singleCellHotspot 400 (- 1001) (specScenario ! 1),
    singleCellHotspot 450 (- 900) (specScenario ! 2)]"
  by (simp add: specScenario_def flagMarker_def gridVisit_def Let_def markerValue_def
        cellHotspot_def singleCellHotspot_def)

lemma scenario_merged:
  "mergeAdjacentCells (foldl (cellHotspot 0.1) [] (foldl (gridVisit 0.1) [] specScenario)) d =
   map asCluster
     [singleCellHotspot 400 (- 1000) (specScenario ! 0),
      singleCellHotspot 400 (- 1001) (specScenario ! 1),
      singleCellHotspot 450 (- 900) (specScenario ! 2)]"
  by (simp add: scenario_cells mergeAdjacentCells_no_centre singleCellHotspot_def)

lemma scenario_hotspots:
  "map (\<lambda>h. (rank h, intensity h, hcount h, map lat (hotspotMarkers h)))
     (computeHotspots specScenario) =
   [(1, 3, 1, [40.05]), (2, 1, 1, [40.0]), (3, 1, 1, [45.0])]"
  apply (simp only: computeHotspots_def Let_def scenario_merged)
  apply (simp add: Let_def asCluster_def singleCellHotspot_def rankHotspot_def markerValue_def
      specScenario_def flagMarker_def hotspot.defs)
  done

text \<open>
  C4, at the three markers of the specification's scenario (grid size 0.1): the two
  nearby markers, in the cells (400, -1000) and (400, -1001), are not merged. The list
  returned has three hotspots of one marker each, of intensities 3, 1 and 1, and none of
  intensity 4.
\<close>

theorem C4_scenario_is_not_merged:
  "map (\<lambda>h. (rank h, intensity h, hcount h, map lat (hotspotMarkers h)))
     (fst (findHotspots newSpatialUtils now specScenario)) =
   [(1, 3, 1, [40.05]), (2, 1, 1, [40.0]), (3, 1, 1, [45.0])]"
proof -
  have "fst (findHotspots newSpatialUtils now specScenario) = computeHotspots specScenario"
    by (simp add: findHotspots_def newSpatialUtils_def specScenario_def Let_def)
  then show ?thesis
    by (simp only: scenario_hotspots)
qed

subsection \<open>Ranks\<close>

lemma rankHotspot_fields [simp]:
  "rank (rankHotspot hi) = Suc (snd hi)"
  "intensity (rankHotspot hi) = intensity (fst hi)"
  by (simp_all add: rankHotspot_def Let_def hotspot.defs)

lemma ranked_length: "length (map rankHotspot (zip xs [0 ..< length xs])) = length xs"
  by simp

lemma ranked_ranks:
  "map rank (map rankHotspot (zip xs [0 ..< length xs])) = [1 ..< Suc (length xs)]"
  by (rule nth_equalityI) (simp_all del: upt_Suc)

lemma ranked_intensity:
  "k < length xs \<Longrightarrow>
   intensity (map rankHotspot (zip xs [0 ..< length xs]) ! k) = intensity (xs ! k)"
  by simp

lemma sliced_descending:
  assumes "Suc k < length (take 50 (sort_key (\<lambda>h. - intensity h) hs))"
  shows "intensity (take 50 (sort_key (\<lambda>h. - intensity h) hs) ! Suc k)
         \<le> intensity (take 50 (sort_key (\<lambda>h. - intensity h) hs) ! k)"
proof -
  let ?s = "sort_key (\<lambda>h. - intensity h) hs"
  have sorted: "sorted (map (\<lambda>h. - intensity h) ?s)"
    by (rule sorted_sort_key)
  have len: "Suc k < length ?s" "Suc k < 50"
    using assms by simp_all
  have "map (\<lambda>h. - intensity h) ?s ! k \<le> map (\<lambda>h. - intensity h) ?s ! Suc k"
    using sorted len by (intro sorted_nth_mono) simp_all
  then show ?thesis
    using len by simp
qed

lemma computeHotspots_wellRanked: "wellRanked (computeHotspots ms)"
proof -
  define sliced where
    "sliced = take 50 (sort_key (\<lambda>h. - intensity h)
       (mergeAdjacentCells (foldl (cellHotspot 0.1) [] (foldl (gridVisit 0.1) [] ms)) (0.1 * 1.5)))"
  have res: "computeHotspots ms = map rankHotspot (zip sliced [0 ..< length sliced])"
    by (simp add: computeHotspots_def Let_def sliced_def)
  have "length (computeHotspots ms) \<le> 50"
    unfolding res by (simp add: sliced_def)
  moreover have "denseRanks (computeHotspots ms)"
    unfolding res denseRanks_def using ranked_ranks [of sliced] by simp
  moreover have "descending (computeHotspots ms)"
    unfolding res descending_def
  proof (intro allI impI)
    fix k
    assume "Suc k < length (map rankHotspot (zip sliced [0 ..< length sliced]))"
    then have k: "Suc k < length sliced" by simp
    then have "intensity (sliced ! Suc k) \<le> intensity (sliced ! k)"
      unfolding sliced_def by (rule sliced_descending)
    then show "intensity (map rankHotspot (zip sliced [0 ..< length sliced]) ! Suc k)
               \<le> intensity (map rankHotspot (zip sliced [0 ..< length sliced]) ! k)"
      using k by (simp add: ranked_intensity)
  qed
  ultimately show ?thesis
    by (simp add: wellRanked_def)
qed

lemma wellRanked_Nil: "wellRanked []"
  by (simp add: wellRanked_def denseRanks_def descending_def)

text \<open>
  C5, as amended. Every list that \<open>findHotspots\<close> returns, from the first call on, has
  at most 50 hotspots, carries the ranks 1, 2, ..., N in this order, and its intensities
  never increase along the ranks: the hotspot of rank k + 1 is not more intense than the
  hotspot of rank k. (The cached list is returned while it is fresh, so the statement is
  an invariant of the cache.)
\<close>

theorem C5_ranks_dense_and_descending:
  "cacheRanked newSpatialUtils
   \<and> (cacheRanked su \<longrightarrow>
        wellRanked (fst (findHotspots su now ms)) \<and> cacheRanked (snd (findHotspots su now ms)))
   \<and> wellRanked (fst (findHotspots newSpatialUtils now ms))"
proof -
  have init: "cacheRanked newSpatialUtils"
    by (simp add: cacheRanked_def newSpatialUtils_def)
  have step: "wellRanked (fst (findHotspots su now ms)) \<and> cacheRanked (snd (findHotspots su now ms))"
    if "cacheRanked su" for su
    using that computeHotspots_wellRanked [of ms] wellRanked_Nil
    by (auto simp: findHotspots_def cacheRanked_def Let_def split: option.splits)
  show ?thesis
    using init step [of su] step [OF init] by blast
qed

lemma two_far_cells:
  "foldl (cellHotspot 0.1) [] (foldl (gridVisit 0.1) [] twoFarMarkers) =
   [singleCellHotspot 400 (- 1000) (twoFarMarkers ! 0),
    singleCellHotspot 450 (- 900) (twoFarMarkers ! 1)]"
  by (simp add: twoFarMarkers_def flagMarker_def gridVisit_def Let_def markerValue_def
        cellHotspot_def singleCellHotspot_def)

lemma two_far_merged:
  "mergeAdjacentCells (foldl (cellHotspot 0.1) [] (foldl (gridVisit 0.1) [] twoFarMarkers)) d =
   map asCluster
     [singleCellHotspot 400 (- 1000) (twoFarMarkers ! 0),
      singleCellHotspot 450 (- 900) (twoFarMarkers ! 1)]"
  by (simp add: two_far_cells mergeAdjacentCells_no_centre singleCellHotspot_def)

lemma two_far_hotspots:
  "map (\<lambda>h. (rank h, intensity h)) (computeHotspots twoFarMarkers) = [(1, 1), (2, 1)]"
  apply (simp only: computeHotspots_def Let_def two_far_merged)
  apply (simp add: Let_def asCluster_def singleCellHotspot_def rankHotspot_def markerValue_def
      twoFarMarkers_def flagMarker_def hotspot.defs)
  done

theorem C5_ranks_dense_and_descending_witness:
  "map (\<lambda>h. (rank h, intensity h)) (fst (findHotspots newSpatialUtils 1700000000000 twoFarMarkers))
     = [(1, 1), (2, 1)]
   \<and> wellRanked (fst (findHotspots newSpatialUtils 1700000000000 twoFarMarkers))
   \<and> cacheRanked (snd (findHotspots newSpatialUtils 1700000000000 twoFarMarkers))"
proof -
  have "fst (findHotspots newSpatialUtils 1700000000000 twoFarMarkers) = computeHotspots twoFarMarkers"
    by (simp add: findHotspots_def newSpatialUtils_def twoFarMarkers_def Let_def)
  then show ?thesis
    using C5_ranks_dense_and_descending [of newSpatialUtils 1700000000000 twoFarMarkers]
      two_far_hotspots
    by simp
qed

text \<open>
  The claim as stated fails: the two hotspots of \<open>twoFarMarkers\<close> have the ranks 1 and 2
  and the same intensity 1.
\<close>

theorem C5_strictly_descending_counterexample:
  "map rank (fst (findHotspots newSpatialUtils 1700000000000 twoFarMarkers)) = [1, 2]
   \<and> \<not> strictlyDescending (fst (findHotspots newSpatialUtils 1700000000000 twoFarMarkers))"
proof -
  let ?hs = "fst (findHotspots newSpatialUtils 1700000000000 twoFarMarkers)"
  have eq: "?hs = computeHotspots twoFarMarkers"
    by (simp add: findHotspots_def newSpatialUtils_def twoFarMarkers_def Let_def)
  have pairs: "map (\<lambda>h. (rank h, intensity h)) ?hs = [(1, 1), (2, 1)]"
    unfolding eq by (rule two_far_hotspots)
  have ranks: "map rank ?hs = [1, 2]"
    using arg_cong [OF pairs, of "map fst"] by (simp add: comp_def)
  have ints: "map intensity ?hs = [1, 1]"
    using arg_cong [OF pairs, of "map snd"] by (simp add: comp_def)
  have len: "length ?hs = 2"
    using arg_cong [OF ints, of length] by simp
  have "intensity (?hs ! 0) = 1" "intensity (?hs ! 1) = 1"
    using arg_cong [OF ints, of "\<lambda>xs. xs ! 0"] arg_cong [OF ints, of "\<lambda>xs. xs ! 1"] len
    by simp_all
  then have "\<not> strictlyDescending ?hs"
    unfolding strictlyDescending_def using len
    by (intro notI) (drule spec [of _ 0], simp)
  then show ?thesis
    using ranks by simp
qed

section \<open>Directional marker navigator\<close>

lemma isInDirection_qualifies: "isInDirection key current mk = qualifies key current mk"
  by (cases key) (simp_all add: isInDirection_def qualifies_def Let_def)

lemma navVisit_invariant:
  assumes "navInvariant key current seen best"
  shows "navInvariant key current (seen @ [mk]) (navVisit key current best (mk, i))"
proof (cases "bestMarker best")
  case None
  then show ?thesis
    using assms
    by (auto simp: navInvariant_def nearestQualifying_def navVisit_def Let_def
          isInDirection_qualifies)
next
  case (Some b)
  then show ?thesis
    using assms
    by (fastforce simp: navInvariant_def nearestQualifying_def navVisit_def Let_def
          isInDirection_qualifies)
qed

lemma navFold_invariant:
  "navInvariant key current seen best \<Longrightarrow> length js = length ms \<Longrightarrow>
   navInvariant key current (seen @ ms) (foldl (navVisit key current) best (zip ms js))"
proof (induction ms arbitrary: seen best js)
  case Nil
  then show ?case by simp
next
  case (Cons m ms)
  then obtain i js' where js: "js = i # js'" "length js' = length ms"
    by (cases js) auto
  have "navInvariant key current ((seen @ [m]) @ ms)
          (foldl (navVisit key current) (navVisit key current best (m, i)) (zip ms js'))"
    using Cons.IH [OF navVisit_invariant [OF Cons.prems(1)] js(2)] .
  then show ?case
    by (simp add: js)
qed

lemma navSearch_nearest:
  "nearestQualifying key current markerList (bestMarker (navSearch key current markerList))"
proof -
  have "navInvariant key current []
          \<lparr>bestMarker = None, bestDistance = None, bestIndex = - 1\<rparr>"
    by (simp add: navInvariant_def nearestQualifying_def)
  from navFold_invariant [OF this, of "[0 ..< length markerList]" markerList]
  show ?thesis
    by (simp add: navSearch_def navInvariant_def)
qed

text \<open>
  C9, as amended: in the ring and hotspot visualizers the navigator considers only the
  markers that qualify by strict inequality, selects among them one at the smallest
  planar distance from the centre, and selects none when none qualifies.
\<close>

theorem C9_nearest_marker_in_direction:
  "nearestQualifying key current markerList (navigateNearest key current markerList)"
proof (cases "length markerList = 0")
  case True
  then show ?thesis
    by (simp add: navigateNearest_def nearestQualifying_def)
next
  case False
  then show ?thesis
    using navSearch_nearest [of key current markerList]
    by (simp add: navigateNearest_def)
qed

lemma planarDistance_same_lng:
  "planarDistance \<lparr>lat = a, lng = b\<rparr> (markerAt c b) = \<bar>c - a\<bar>"
  by (simp add: planarDistance_def markerAt_def sampleMapMarker_def Let_def)

theorem C9_nearest_marker_in_direction_witness:
  "navigateNearest KeyW \<lparr>lat = 39, lng = - 98\<rparr>
     [markerAt 38.9 (- 98), markerAt 39.5 (- 98), markerAt 39.3 (- 98)] = Some (markerAt 39.3 (- 98))
   \<and> nearestQualifying KeyW \<lparr>lat = 39, lng = - 98\<rparr>
     [markerAt 38.9 (- 98), markerAt 39.5 (- 98), markerAt 39.3 (- 98)] (Some (markerAt 39.3 (- 98)))
   \<and> navigateNearest KeyS \<lparr>lat = 39, lng = - 98\<rparr> [markerAt 39.5 (- 98), markerAt 39.3 (- 98)] = None"
proof -
  let ?c = "\<lparr>lat = 39, lng = - 98\<rparr>"
  let ?ms = "[markerAt 38.9 (- 98), markerAt 39.5 (- 98), markerAt 39.3 (- 98)]"
  have d: "isInDirection KeyW ?c (markerAt la (- 98)) = (la > 39)"
          "isInDirection KeyS ?c (markerAt la (- 98)) = (la < 39)" for la
    by (simp_all add: isInDirection_def markerAt_def sampleMapMarker_def Let_def)
  have a: "navigateNearest KeyW ?c ?ms = Some (markerAt 39.3 (- 98))"
    by (simp add: navigateNearest_def navSearch_def navVisit_def Let_def d
          planarDistance_same_lng upt_conv_Cons)
  have b: "navigateNearest KeyS ?c [markerAt 39.5 (- 98), markerAt 39.3 (- 98)] = None"
    by (simp add: navigateNearest_def navSearch_def navVisit_def Let_def d upt_conv_Cons)
  show ?thesis
    using C9_nearest_marker_in_direction [of KeyW ?c ?ms] a b by simp
qed

text \<open>Three square roots that the scores below need.\<close>

lemma sqrt25: "sqrt 25 = 5"
  using real_sqrt_abs [of 5] by simp

lemma sqrt36: "sqrt 36 = 6"
  using real_sqrt_abs [of 6] by simp

lemma sqrt1681: "sqrt 1681 = 41"
  using real_sqrt_abs [of 41] by simp

text \<open>
  The navigator of \<^verbatim>\<open>js/mapVisualizer.js\<close> ranks every marker by a score in which the
  direction counts for more than the distance
  (\<^verbatim>\<open>Weight: direction is more important than distance\<close>), and keeps the best one
  when its score exceeds 0.5. With the key W and the centre (39, -98): of two markers
  north of the centre it selects the one straight north, at distance 6, and not the one
  at distance 5; and a single marker north of the centre but far to the east scores less
  than 0.5 and is not selected, although it qualifies.
\<close>

theorem C9_direction_outweighs_distance_counterexample:
  "navigateByScore KeyW \<lparr>lat = 39, lng = - 98\<rparr> [markerAt 42 (- 94), markerAt 45 (- 98)]
     = Some (markerAt 45 (- 98))
   \<and> qualifies KeyW \<lparr>lat = 39, lng = - 98\<rparr> (markerAt 42 (- 94))
   \<and> planarDistance \<lparr>lat = 39, lng = - 98\<rparr> (markerAt 42 (- 94)) = 5
   \<and> planarDistance \<lparr>lat = 39, lng = - 98\<rparr> (markerAt 45 (- 98)) = 6
   \<and> \<not> nearestQualifying KeyW \<lparr>lat = 39, lng = - 98\<rparr> [markerAt 42 (- 94), markerAt 45 (- 98)]
         (navigateByScore KeyW \<lparr>lat = 39, lng = - 98\<rparr> [markerAt 42 (- 94), markerAt 45 (- 98)])
   \<and> navigateByScore KeyW \<lparr>lat = 39, lng = - 98\<rparr> [markerAt 48 (- 58)] = None
   \<and> qualifies KeyW \<lparr>lat = 39, lng = - 98\<rparr> (markerAt 48 (- 58))
   \<and> \<not> nearestQualifying KeyW \<lparr>lat = 39, lng = - 98\<rparr> [markerAt 48 (- 58)]
         (navigateByScore KeyW \<lparr>lat = 39, lng = - 98\<rparr> [markerAt 48 (- 58)])"
proof -
  define c where "c = \<lparr>lat = 39, lng = - 98\<rparr>"
  define a where "a = markerAt 42 (- 94)"
  define b where "b = markerAt 45 (- 98)"
  define e where "e = markerAt 48 (- 58)"
  have da: "planarDistance c a = 5"
    by (simp add: c_def a_def planarDistance_def markerAt_def sampleMapMarker_def Let_def sqrt25)
  have db: "planarDistance c b = 6"
    by (simp add: c_def b_def planarDistance_def markerAt_def sampleMapMarker_def Let_def sqrt36)
  have de: "planarDistance c e = 41"
    by (simp add: c_def e_def planarDistance_def markerAt_def sampleMapMarker_def Let_def sqrt1681)
  have sa: "markerScore KeyW c a = 6 / 5 + 5 / 51"
    by (simp add: markerScore_def c_def a_def markerAt_def sampleMapMarker_def Let_def sqrt25)
  have sb: "markerScore KeyW c b = 2 + 5 / 61"
    by (simp add: markerScore_def c_def b_def markerAt_def sampleMapMarker_def Let_def sqrt36)
  have se: "markerScore KeyW c e = 18 / 41 + 5 / 411"
    by (simp add: markerScore_def c_def e_def markerAt_def sampleMapMarker_def Let_def sqrt1681)
  have sel: "navigateByScore KeyW c [a, b] = Some b"
    by (simp add: navigateByScore_def scoreVisit_def Let_def da db sa sb upt_conv_Cons)
  have none: "navigateByScore KeyW c [e] = None"
    by (simp add: navigateByScore_def scoreVisit_def Let_def de se)
  have qa: "qualifies KeyW c a"
    by (simp add: qualifies_def c_def a_def markerAt_def sampleMapMarker_def)
  have qe: "qualifies KeyW c e"
    by (simp add: qualifies_def c_def e_def markerAt_def sampleMapMarker_def)
  have n1: "\<not> nearestQualifying KeyW c [a, b] (navigateByScore KeyW c [a, b])"
    unfolding sel using qa da db by (auto simp: nearestQualifying_def)
  have n2: "\<not> nearestQualifying KeyW c [e] (navigateByScore KeyW c [e])"
    unfolding none using qe by (simp add: nearestQualifying_def)
  have "navigateByScore KeyW c [a, b] = Some b \<and> qualifies KeyW c a
        \<and> planarDistance c a = 5 \<and> planarDistance c b = 6
        \<and> \<not> nearestQualifying KeyW c [a, b] (navigateByScore KeyW c [a, b])
        \<and> navigateByScore KeyW c [e] = None \<and> qualifies KeyW c e
        \<and> \<not> nearestQualifying KeyW c [e] (navigateByScore KeyW c [e])"
    using sel qa da db n1 none qe n2 by (intro conjI)
  then show ?thesis
    unfolding c_def a_def b_def e_def .
qed

text \<open>
  The threshold on the score also lets a near marker in the opposite direction through,
  against the comment \<^verbatim>\<open>If no marker in that direction, don't change\<close>: with the key W
  a single marker half a degree south of the centre is selected.
\<close>

lemma score_navigator_selects_behind:
  "navigateByScore KeyW \<lparr>lat = 39, lng = - 98\<rparr> [markerAt 38.5 (- 98)] = Some (markerAt 38.5 (- 98))
   \<and> \<not> qualifies KeyW \<lparr>lat = 39, lng = - 98\<rparr> (markerAt 38.5 (- 98))
   \<and> \<not> nearestQualifying KeyW \<lparr>lat = 39, lng = - 98\<rparr> [markerAt 38.5 (- 98)]
         (navigateByScore KeyW \<lparr>lat = 39, lng = - 98\<rparr> [markerAt 38.5 (- 98)])"
proof -
  define c where "c = \<lparr>lat = 39, lng = - 98\<rparr>"
  define m where "m = markerAt 38.5 (- 98)"
  have dist: "planarDistance c m = 1 / 2"
    by (simp add: c_def m_def planarDistance_same_lng)
  have score: "markerScore KeyW c m = 5 / 6"
    using dist
    by (simp add: markerScore_def planarDistance_def c_def m_def markerAt_def
          sampleMapMarker_def Let_def)
  have sel: "navigateByScore KeyW c [m] = Some m"
    by (simp add: navigateByScore_def scoreVisit_def Let_def dist score)
  have nq: "\<not> qualifies KeyW c m"
    by (simp add: qualifies_def c_def m_def markerAt_def sampleMapMarker_def)
  have "navigateByScore KeyW c [m] = Some m \<and> \<not> qualifies KeyW c m
        \<and> \<not> nearestQualifying KeyW c [m] (navigateByScore KeyW c [m])"
    using sel nq by (simp add: nearestQualifying_def)
  then show ?thesis
    unfolding c_def m_def .
qed

section \<open>Cache layer\<close>

lemma cacheData_unavailable: "db svc = None \<Longrightarrow> cacheData svc now z d = svc"
  by (simp add: cacheData_def)

lemma getFromCache_unavailable: "db svc = None \<Longrightarrow> getFromCache svc now z = Some (None, svc)"
  by (simp add: getFromCache_def)

lemma cacheData_store:
  "db svc = Some store \<Longrightarrow>
   db (cacheData svc now z d) =
     Some (store(cachePrefix @ z \<mapsto>
       \<lparr>entryKey = cachePrefix @ z, entryData = d, expiry = now + cacheDuration,
        cachedAt = now, entryZip = z\<rparr>))"
  by (simp add: cacheData_def storePut_def Let_def)

lemma round_trip:
  assumes "db svc \<noteq> None" "now' \<le> now + cacheDuration"
  shows "getFromCache (cacheData svc now z d) now' z = Some (Some d, cacheData svc now z d)"
proof -
  obtain store where store: "db svc = Some store"
    using assms(1) by auto
  show ?thesis
    using assms(2) by (simp add: getFromCache_def cacheData_store [OF store] Let_def)
qed

text \<open>
  The expired entry: the success handler calls \<^verbatim>\<open>store.delete\<close> in the read-only
  transaction, so the promise never settles and the entry stays in the store.
\<close>

lemma getFromCache_expired:
  "db svc = Some store \<Longrightarrow> store (cachePrefix @ z) = Some e \<Longrightarrow> expiry e < now \<Longrightarrow>
   getFromCache svc now z = None"
  by (simp add: getFromCache_def storeDelete_def Let_def)

lemma getFromCache_payload_fresh:
  assumes "getFromCache svc now z = Some (Some d, svc')"
  shows "\<exists>store e. db svc = Some store \<and> store (cachePrefix @ z) = Some e \<and> entryData e = d
           \<and> now \<le> expiry e \<and> svc' = svc"
  using assms
  by (auto simp: getFromCache_def storeDelete_def Let_def split: option.splits if_splits)

text \<open>
  C2, as amended. With the durable store open, \<open>cacheData\<close> followed by
  \<open>getFromCache\<close> before the entry expires (at once, in particular) returns the payload
  unchanged; with the store unavailable \<open>cacheData\<close> does nothing and
  \<open>getFromCache\<close> returns null.
\<close>

theorem C2_cache_round_trip:
  "(db svc \<noteq> None \<and> now' \<le> now + cacheDuration \<longrightarrow>
      getFromCache (cacheData svc now z d) now' z = Some (Some d, cacheData svc now z d))
   \<and> (db svc \<noteq> None \<longrightarrow>
        getFromCache (cacheData svc now z d) now z = Some (Some d, cacheData svc now z d))
   \<and> (db svc = None \<longrightarrow>
        cacheData svc now z d = svc \<and> getFromCache svc now z = Some (None, svc))"
proof -
  have at_once: "db svc \<noteq> None \<longrightarrow>
      getFromCache (cacheData svc now z d) now z = Some (Some d, cacheData svc now z d)"
    using round_trip [of svc now now z d] by (simp add: cacheDuration_def)
  show ?thesis
    using at_once round_trip [of svc now' now z d]
    by (simp add: cacheData_unavailable getFromCache_unavailable)
qed

theorem C2_cache_round_trip_witness:
  "getFromCache (cacheData openService 1700000000000 ''67601'' samplePayload) 1700000000000 ''67601''
     = Some (Some samplePayload, cacheData openService 1700000000000 ''67601'' samplePayload)
   \<and> getFromCache (cacheData openService 1700000000000 ''67601'' samplePayload) 1707776000000 ''67601''
     = Some (Some samplePayload, cacheData openService 1700000000000 ''67601'' samplePayload)
   \<and> cacheData newService 1700000000000 ''67601'' samplePayload = newService
   \<and> getFromCache newService 1700000000000 ''67601'' = Some (None, newService)"
proof -
  have h1: "db openService \<noteq> None \<and> (1707776000000::int) \<le> 1700000000000 + cacheDuration"
    by (simp add: openService_def cacheDuration_def)
  have h2: "db newService = None"
    by (simp add: newService_def)
  show ?thesis
    using C2_cache_round_trip [of openService 1707776000000 1700000000000 "''67601''" samplePayload]
      C2_cache_round_trip [of newService 1700000000000 1700000000000 "''67601''" samplePayload]
      h1 h2
    by blast
qed

text \<open>
  The claim as stated fails when the durable store is unavailable: nothing is written,
  and the read that follows returns null, not the payload.
\<close>

theorem C2_store_unavailable_counterexample:
  "db newService = None
   \<and> getFromCache (cacheData newService 1700000000000 ''67601'' samplePayload) 1700000000000 ''67601''
       = Some (None, newService)
   \<and> getFromCache (cacheData newService 1700000000000 ''67601'' samplePayload) 1700000000000 ''67601''
       \<noteq> Some (Some samplePayload, cacheData newService 1700000000000 ''67601'' samplePayload)"
  by (simp add: newService_def cacheData_def getFromCache_def)

text \<open>
  The entry of \<open>staleService\<close> expired long before the read. The success handler means
  to delete it and to resolve with null (\<^verbatim>\<open>store.delete(key); resolve(null)\<close>), but
  the transaction is read-only: the delete request throws, the entry stays in the store
  and the read never settles, neither the first time nor later.
\<close>

lemma stale_read_never_settles:
  "db staleService = Some [''acs_2022_67601'' \<mapsto> staleEntry]
   \<and> expiry staleEntry < 1700000000000
   \<and> storeDelete Readonly ''acs_2022_67601'' [''acs_2022_67601'' \<mapsto> staleEntry] = Inl ReadOnlyError
   \<and> getFromCache staleService 1700000000000 ''67601'' = None
   \<and> getFromCache staleService 1700000000001 ''67601'' = None
   \<and> getFromCache staleService 1700000000000 ''67601'' \<noteq> Some (None, staleService)"
  by (simp add: getFromCache_def staleService_def staleEntry_def cachePrefix_def
        storeDelete_def Let_def)

section \<open>Statistics fetch client\<close>

subsection \<open>Chunks\<close>

lemma chunkFrom_end: "length array \<le> i \<Longrightarrow> chunkFrom i array n = Some []"
  by (subst chunkFrom.simps) simp

lemma chunkFrom_step:
  "i < length array \<Longrightarrow> 0 < n \<Longrightarrow>
   chunkFrom i array n =
     map_option (\<lambda>chunks. take n (drop i array) # chunks) (chunkFrom (i + n) array n)"
  by (subst chunkFrom.simps) simp

lemma chunkFrom_settles: "0 < n \<Longrightarrow> \<exists>chunks. chunkFrom i array n = Some chunks"
proof (induction i array n rule: chunkFrom.induct)
  case (1 i array n)
  show ?case
  proof (cases "i < length array")
    case True
    then obtain rest where "chunkFrom (i + n) array n = Some rest"
      using "1.IH" "1.prems" by auto
    then show ?thesis
      using True "1.prems" by (simp add: chunkFrom_step)
  next
    case False
    then show ?thesis by (simp add: chunkFrom_end)
  qed
qed

lemma chunkFrom_concat: "chunkFrom i array n = Some chunks \<Longrightarrow> concat chunks = drop i array"
proof (induction i array n arbitrary: chunks rule: chunkFrom.induct)
  case (1 i array n)
  show ?case
  proof (cases "i < length array")
    case True
    then have n: "0 < n"
      using "1.prems" by (subst (asm) chunkFrom.simps) (auto split: if_splits)
    then obtain rest where rest: "chunkFrom (i + n) array n = Some rest"
      and chunks: "chunks = take n (drop i array) # rest"
      using "1.prems" True by (auto simp: chunkFrom_step)
    have "concat rest = drop (i + n) array"
      using "1.IH" [OF True _ rest] n by simp
    also have "\<dots> = drop n (drop i array)"
      by (simp add: add.commute)
    finally show ?thesis
      using append_take_drop_id [of n "drop i array"] by (simp add: chunks)
  next
    case False
    then show ?thesis
      using "1.prems" by (simp add: chunkFrom_end)
  qed
qed

lemma chunkFrom_nonempty:
  "chunkFrom i array n = Some chunks \<Longrightarrow> c \<in> set chunks \<Longrightarrow> c \<noteq> []"
proof (induction i array n arbitrary: chunks rule: chunkFrom.induct)
  case (1 i array n)
  show ?case
  proof (cases "i < length array")
    case True
    then have n: "0 < n"
      using "1.prems"(1) by (subst (asm) chunkFrom.simps) (auto split: if_splits)
    then obtain rest where rest: "chunkFrom (i + n) array n = Some rest"
      and chunks: "chunks = take n (drop i array) # rest"
      using "1.prems"(1) True by (auto simp: chunkFrom_step)
    show ?thesis
      using "1.IH" [OF True _ rest] n "1.prems"(2) True by (auto simp: chunks)
  next
    case False
    then show ?thesis
      using "1.prems" by (simp add: chunkFrom_end)
  qed
qed

lemma chunkArray_settles: "0 < n \<Longrightarrow> \<exists>chunks. chunkArray array n = Some chunks"
  unfolding chunkArray_def by (rule chunkFrom_settles)

lemma chunkArray_concat: "chunkArray array n = Some chunks \<Longrightarrow> concat chunks = array"
  unfolding chunkArray_def by (drule chunkFrom_concat) simp

lemma chunkArray_nonempty: "chunkArray array n = Some chunks \<Longrightarrow> c \<in> set chunks \<Longrightarrow> c \<noteq> []"
  unfolding chunkArray_def by (rule chunkFrom_nonempty)

lemma chunkArray_single:
  assumes "array \<noteq> []" "length array \<le> n"
  shows "chunkArray array n = Some [array]"
proof -
  have n: "0 < n" "0 < length array"
    using assms by (cases array; simp)+
  have "chunkFrom (0 + n) array n = Some []"
    using assms(2) by (intro chunkFrom_end) simp
  then have "chunkFrom 0 array n = Some [take n (drop 0 array)]"
    using chunkFrom_step [of 0 array n] n by simp
  then show ?thesis
    using assms(2) by (simp add: chunkArray_def)
qed

lemma chunkArray_65:
  assumes "length array = 65"
  shows "chunkArray array 30 = Some [take 30 array, take 30 (drop 30 array), drop 60 array]"
proof -
  have "chunkFrom 90 array 30 = Some []"
    using assms by (intro chunkFrom_end) simp
  then have "chunkFrom 60 array 30 = Some [take 30 (drop 60 array)]"
    using chunkFrom_step [of 60 array 30] assms by simp
  then have "chunkFrom 30 array 30 = Some [take 30 (drop 30 array), take 30 (drop 60 array)]"
    using chunkFrom_step [of 30 array 30] assms by simp
  then have "chunkFrom 0 array 30 =
             Some [take 30 (drop 0 array), take 30 (drop 30 array), take 30 (drop 60 array)]"
    using chunkFrom_step [of 0 array 30] assms by simp
  then show ?thesis
    using assms by (simp add: chunkArray_def)
qed

subsection \<open>Sets and objects\<close>






lemma objSet_keys: "fst ` set (objSet k v obj) = insert k (fst ` set obj)"
  by (induction k v obj rule: objSet.induct) force+

lemma objectAssign_keys: "fst ` set (objectAssign target source) = fst ` set target \<union> fst ` set source"
  unfolding objectAssign_def
  by (induction source arbitrary: target) (auto simp: objSet_keys)

lemma objectAssign_empty [simp]: "objectAssign target [] = target"
  by (simp add: objectAssign_def)

lemma objSet_other: "fst kv \<noteq> k \<Longrightarrow> kv \<in> set (objSet k v obj) \<longleftrightarrow> kv \<in> set obj"
  by (induction k v obj rule: objSet.induct) auto

lemma objSet_key_list:
  "map fst (objSet k v obj) = (if k \<in> fst ` set obj then map fst obj else map fst obj @ [k])"
  by (induction k v obj rule: objSet.induct) (auto simp: image_iff)

lemma objSet_distinct: "distinct (map fst obj) \<Longrightarrow> distinct (map fst (objSet k v obj))"
  by (simp add: objSet_key_list)

lemma objSet_entries:
  "distinct (map fst obj) \<Longrightarrow> set (objSet k v obj) = {kv \<in> set obj. fst kv \<noteq> k} \<union> {(k, v)}"
  by (induction k v obj rule: objSet.induct) (auto simp: image_iff)

lemma objectAssign_snoc:
  "objectAssign target (source @ [kv]) = objSet (fst kv) (snd kv) (objectAssign target source)"
  by (simp add: objectAssign_def)

lemma objectAssign_distinct:
  "distinct (map fst target) \<Longrightarrow> distinct (map fst (objectAssign target source))"
  by (induction source rule: rev_induct) (simp_all add: objectAssign_snoc objSet_distinct)

lemma objectAssign_other:
  "fst kv \<notin> fst ` set source \<Longrightarrow> kv \<in> set (objectAssign target source) \<longleftrightarrow> kv \<in> set target"
  by (induction source rule: rev_induct) (simp_all add: objectAssign_snoc objSet_other)

lemma objectAssign_entries:
  "distinct (map fst target) \<Longrightarrow> distinct (map fst source) \<Longrightarrow>
   set (objectAssign target source) = {kv \<in> set target. fst kv \<notin> fst ` set source} \<union> set source"
proof (induction source rule: rev_induct)
  case Nil
  show ?case by simp
next
  case (snoc kv source)
  have d: "distinct (map fst (objectAssign target source))"
    using snoc.prems(1) by (rule objectAssign_distinct)
  have ih: "set (objectAssign target source) =
            {kv \<in> set target. fst kv \<notin> fst ` set source} \<union> set source"
    using snoc by simp
  have new: "fst kv \<notin> fst ` set source"
    using snoc.prems(2) by (auto simp: image_iff)
  show ?case
    unfolding objectAssign_snoc objSet_entries [OF d] ih using new
    by (cases kv) (auto simp: image_iff)
qed

subsection \<open>What a fetch changes\<close>

lemma sameCaches_refl [simp]: "sameCaches s s"
  by (simp add: sameCaches_def)

lemma sameCaches_trans: "sameCaches a b \<Longrightarrow> sameCaches b c \<Longrightarrow> sameCaches a c"
  by (simp add: sameCaches_def)

lemma fetchWithCorsFallback_keeps:
  "sameCaches svc (snd (fetchWithCorsFallback env zs k svc))
   \<and> batchLog (snd (fetchWithCorsFallback env zs k svc)) = batchLog svc"
proof (induction env zs k svc rule: fetchWithCorsFallback.induct)
  case (1 env zs retryCount svc)
  show ?case
  proof (cases "fetchJson env (apiCalls svc) (currentProxyIndex svc) zs")
    case (Some r)
    then show ?thesis
      by (subst (1 2) fetchWithCorsFallback.simps) (simp add: sameCaches_def)
  next
    case None
    show ?thesis
    proof (cases "retryCount < 3 - 1")
      case True
      define svc2 where
        "svc2 = svc\<lparr>apiCalls := apiCalls svc + 1, currentProxyIndex := (currentProxyIndex svc + 1) mod 3\<rparr>"
      have ih: "sameCaches svc2 (snd (fetchWithCorsFallback env zs (retryCount + 1) svc2))
                \<and> batchLog (snd (fetchWithCorsFallback env zs (retryCount + 1) svc2)) = batchLog svc2"
        using "1.IH" [OF refl None True] by (simp add: svc2_def)
      have unfold: "fetchWithCorsFallback env zs retryCount svc =
                    fetchWithCorsFallback env zs (retryCount + 1) svc2"
        using None True by (subst fetchWithCorsFallback.simps) (simp add: svc2_def)
      show ?thesis
        using ih unfolding unfold by (simp add: sameCaches_def svc2_def)
    next
      case False
      then show ?thesis
        using None by (subst (1 2) fetchWithCorsFallback.simps) (simp add: sameCaches_def)
    qed
  qed
qed

lemma fetchWithCorsFallback_answered:
  "fetchJson env (apiCalls svc) (currentProxyIndex svc) zs = Some r \<Longrightarrow>
   fetchWithCorsFallback env zs k svc = (Inr r, svc\<lparr>apiCalls := apiCalls svc + 1\<rparr>)"
  by (subst fetchWithCorsFallback.simps) simp

lemma fetchWithCorsFallback_unanswered:
  "\<forall>n p. fetchJson env n p zs = None \<Longrightarrow> fst (fetchWithCorsFallback env zs k svc) = Inl FetchFailed"
proof (induction env zs k svc rule: fetchWithCorsFallback.induct)
  case (1 env zs retryCount svc)
  have None: "fetchJson env (apiCalls svc) (currentProxyIndex svc) zs = None"
    using "1.prems" by simp
  show ?case
  proof (cases "retryCount < 3 - 1")
    case True
    show ?thesis
      using "1.IH" [OF refl None True "1.prems"] None True
      by (subst fetchWithCorsFallback.simps) simp
  next
    case False
    then show ?thesis
      using None by (subst fetchWithCorsFallback.simps) simp
  qed
qed

lemma cacheData_fields [simp]:
  "memoryCache (cacheData s now z d) = memoryCache s"
  "cacheHits (cacheData s now z d) = cacheHits s"
  "cacheMisses (cacheData s now z d) = cacheMisses s"
  "apiCalls (cacheData s now z d) = apiCalls s"
  "batchLog (cacheData s now z d) = batchLog s"
  "initialized (cacheData s now z d) = initialized s"
  by (simp_all add: cacheData_def storePut_def Let_def split: option.splits)

lemma addToMemoryCache_fields [simp]:
  "db (addToMemoryCache s now z d) = db s"
  "cacheHits (addToMemoryCache s now z d) = cacheHits s"
  "cacheMisses (addToMemoryCache s now z d) = cacheMisses s"
  "apiCalls (addToMemoryCache s now z d) = apiCalls s"
  "batchLog (addToMemoryCache s now z d) = batchLog s"
  "initialized (addToMemoryCache s now z d) = initialized s"
  by (simp_all add: addToMemoryCache_def Let_def)

subsection \<open>parseResponse keeps to the requested ZIP codes\<close>

lemma parseRow_keys:
  "fst ` set (fst (parseRow env now headers st row)) \<union> snd (parseRow env now headers st row)
   \<subseteq> fst ` set (fst st) \<union> snd st"
  by (cases st) (auto simp: parseRow_def Let_def objSet_keys split: option.splits)

lemma parseRows_keys:
  "fst ` set (fst (foldl (parseRow env now headers) st rows))
     \<union> snd (foldl (parseRow env now headers) st rows)
   \<subseteq> fst ` set (fst st) \<union> snd st"
proof (induction rows arbitrary: st)
  case Nil
  show ?case by simp
next
  case (Cons row rows)
  have "fst ` set (fst (foldl (parseRow env now headers) (parseRow env now headers st row) rows))
          \<union> snd (foldl (parseRow env now headers) (parseRow env now headers st row) rows)
        \<subseteq> fst ` set (fst (parseRow env now headers st row))
          \<union> snd (parseRow env now headers st row)"
    by (rule Cons.IH)
  also have "\<dots> \<subseteq> fst ` set (fst st) \<union> snd st"
    by (rule parseRow_keys)
  finally show ?case by simp
qed

lemma parseResponse_keys: "fst ` set (parseResponse env now body zs) \<subseteq> set zs"
proof (cases body)
  case NotAnArray
  then show ?thesis by (simp add: parseResponse_def)
next
  case (Table rows)
  show ?thesis
  proof (cases rows)
    case Nil
    then show ?thesis using Table by (simp add: parseResponse_def)
  next
    case (Cons headers dataRows)
    show ?thesis
      using parseRows_keys [of env now headers "([], set zs)" dataRows] Table Cons
      by (auto simp: parseResponse_def)
  qed
qed

subsection \<open>fetchBatchFromAPI\<close>

lemma small_batches_fold:
  assumes "\<forall>b \<in> set bs. \<forall>s. \<exists>out. fetchBatchFromAPI env now b s = Some out \<and> batchOutcome env b s out"
  shows "\<exists>res' s'.
           foldl
             (\<lambda>acc smallBatch.
                case acc of
                  None \<Rightarrow> None
                | Some rs \<Rightarrow>
                    (case fetchBatchFromAPI env now smallBatch (snd rs) of
                       None \<Rightarrow> None
                     | Some (Inr smallResult, s) \<Rightarrow>
                         Some (objectAssign (fst rs) smallResult, s)
                     | Some (Inl smallError, s) \<Rightarrow> Some (fst rs, s)))
             (Some (res, s0)) bs = Some (res', s')
           \<and> sameCaches s0 s'
           \<and> fst ` set res' \<subseteq> fst ` set res \<union> \<Union> (set ` set bs)
           \<and> ((\<forall>b \<in> set bs. b \<noteq> [] \<and> length b \<le> 5) \<longrightarrow> batchLog s' = batchLog s0 @ map length bs)
           \<and> ((\<forall>n p b. fetchJson env n p b = None) \<longrightarrow> res' = res)"
  using assms
proof (induction bs arbitrary: res s0)
  case Nil
  show ?case by simp
next
  case (Cons b bs)
  obtain r s1 where b: "fetchBatchFromAPI env now b s0 = Some (r, s1)" "batchOutcome env b s0 (r, s1)"
    using Cons.prems by fastforce
  have rest: "\<forall>b \<in> set bs. \<forall>s. \<exists>out. fetchBatchFromAPI env now b s = Some out \<and> batchOutcome env b s out"
    using Cons.prems by simp
  define res1 where "res1 = (case r of Inl e \<Rightarrow> res | Inr obj \<Rightarrow> objectAssign res obj)"
  have step: "foldl
             (\<lambda>acc smallBatch.
                case acc of
                  None \<Rightarrow> None
                | Some rs \<Rightarrow>
                    (case fetchBatchFromAPI env now smallBatch (snd rs) of
                       None \<Rightarrow> None
                     | Some (Inr smallResult, s) \<Rightarrow>
                         Some (objectAssign (fst rs) smallResult, s)
                     | Some (Inl smallError, s) \<Rightarrow> Some (fst rs, s)))
             (Some (res, s0)) (b # bs) =
             foldl
             (\<lambda>acc smallBatch.
                case acc of
                  None \<Rightarrow> None
                | Some rs \<Rightarrow>
                    (case fetchBatchFromAPI env now smallBatch (snd rs) of
                       None \<Rightarrow> None
                     | Some (Inr smallResult, s) \<Rightarrow>
                         Some (objectAssign (fst rs) smallResult, s)
                     | Some (Inl smallError, s) \<Rightarrow> Some (fst rs, s)))
             (Some (res1, s1)) bs"
    using b(1) by (cases r) (simp_all add: res1_def)
  have keys1: "fst ` set res1 \<subseteq> fst ` set res \<union> set b"
    using b(2) by (cases r) (auto simp: res1_def batchOutcome_def objectAssign_keys)
  have caches1: "sameCaches s0 s1"
    using b(2) by (simp add: batchOutcome_def)
  have log1: "b \<noteq> [] \<and> length b \<le> 5 \<longrightarrow> batchLog s1 = batchLog s0 @ [length b]"
    using b(2) by (simp add: batchOutcome_def)
  have quiet1: "(\<forall>n p b. fetchJson env n p b = None) \<longrightarrow> res1 = res"
    using b(2) by (cases r) (auto simp: res1_def batchOutcome_def)
  obtain res' s' where fold:
      "foldl
             (\<lambda>acc smallBatch.
                case acc of
                  None \<Rightarrow> None
                | Some rs \<Rightarrow>
                    (case fetchBatchFromAPI env now smallBatch (snd rs) of
                       None \<Rightarrow> None
                     | Some (Inr smallResult, s) \<Rightarrow>
                         Some (objectAssign (fst rs) smallResult, s)
                     | Some (Inl smallError, s) \<Rightarrow> Some (fst rs, s)))
             (Some (res1, s1)) bs = Some (res', s')"
    and after: "sameCaches s1 s'" "fst ` set res' \<subseteq> fst ` set res1 \<union> \<Union> (set ` set bs)"
      "(\<forall>b \<in> set bs. b \<noteq> [] \<and> length b \<le> 5) \<longrightarrow> batchLog s' = batchLog s1 @ map length bs"
      "(\<forall>n p b. fetchJson env n p b = None) \<longrightarrow> res' = res1"
    using Cons.IH [OF rest, of res1 s1]
    by - (erule exE, erule exE, (erule conjE)+, rule that, assumption+)
  have "sameCaches s0 s'"
    using caches1 after(1) by (rule sameCaches_trans)
  moreover have "fst ` set res' \<subseteq> fst ` set res \<union> \<Union> (set ` set (b # bs))"
  proof
    fix k
    assume "k \<in> fst ` set res'"
    then have "k \<in> fst ` set res1 \<or> k \<in> \<Union> (set ` set bs)"
      using after(2) by blast
    then show "k \<in> fst ` set res \<union> \<Union> (set ` set (b # bs))"
      using keys1 by auto
  qed
  moreover have "(\<forall>c \<in> set (b # bs). c \<noteq> [] \<and> length c \<le> 5) \<longrightarrow>
                 batchLog s' = batchLog s0 @ map length (b # bs)"
    using log1 after(3) by simp
  moreover have "(\<forall>n p b. fetchJson env n p b = None) \<longrightarrow> res' = res"
    using quiet1 after(4) by simp
  ultimately show ?case
    unfolding step fold by simp
qed

lemma fetchBatch_outcome:
  "\<exists>out. fetchBatchFromAPI env now zs svc = Some out \<and> batchOutcome env zs svc out"
proof (induction env now zs svc rule: fetchBatchFromAPI.induct)
  case (1 env now zipCodes svc)
  show ?case
  proof (cases "length zipCodes = 0")
    case True
    then show ?thesis
      by (subst fetchBatchFromAPI.simps) (simp add: batchOutcome_def)
  next
    case False
    define svc0 where "svc0 = svc\<lparr>batchLog := batchLog svc @ [length zipCodes]\<rparr>"
    obtain r svc1 where f: "fetchWithCorsFallback env zipCodes 0 svc0 = (r, svc1)"
      by (cases "fetchWithCorsFallback env zipCodes 0 svc0")
    have caches: "sameCaches svc svc1"
      using fetchWithCorsFallback_keeps [of svc0 env zipCodes 0] f
      by (simp add: sameCaches_def svc0_def)
    have log: "batchLog svc1 = batchLog svc @ [length zipCodes]"
      using fetchWithCorsFallback_keeps [of svc0 env zipCodes 0] f by (simp add: svc0_def)
    have quiet: "(\<forall>n p b. fetchJson env n p b = None) \<longrightarrow> r = Inl FetchFailed"
      using fetchWithCorsFallback_unanswered [of env zipCodes 0 svc0] f by auto
    show ?thesis
    proof (cases r)
      case (Inr body)
      have "fetchBatchFromAPI env now zipCodes svc = Some (Inr (parseResponse env now body zipCodes), svc1)"
        using False f Inr by (subst fetchBatchFromAPI.simps) (simp add: svc0_def Let_def)
      then show ?thesis
        using caches log quiet Inr parseResponse_keys [of env now body zipCodes]
        by (auto simp: batchOutcome_def)
    next
      case (Inl err)
      have err: "err = FetchFailed"
        by (cases err) simp
      show ?thesis
      proof (cases "length zipCodes > 5")
        case False
        have "fetchBatchFromAPI env now zipCodes svc = Some (Inl err, svc1)"
          using \<open>length zipCodes \<noteq> 0\<close> f Inl False
          by (subst fetchBatchFromAPI.simps) (simp add: svc0_def Let_def)
        then show ?thesis
          using caches log False err by (simp add: batchOutcome_def)
      next
        case True
        obtain smaller where smaller: "chunkArray zipCodes 5 = Some smaller"
          using chunkArray_settles [of 5 zipCodes] by auto
        have ih: "\<forall>b \<in> set smaller. \<forall>s. \<exists>out.
                    fetchBatchFromAPI env now b s = Some out \<and> batchOutcome env b s out"
        proof (intro ballI allI)
          fix b s
          assume b: "b \<in> set smaller"
          have "\<exists>out. fetchBatchFromAPI env now b (snd ([] :: payload js_object, s)) = Some out
                  \<and> batchOutcome env b (snd ([] :: payload js_object, s)) out"
            by (rule "1.IH" [OF False svc0_def f [symmetric] Inl True smaller b refl])
          then show "\<exists>out. fetchBatchFromAPI env now b s = Some out \<and> batchOutcome env b s out"
            by simp
        qed
        obtain res' s' where fold:
          "foldl
             (\<lambda>acc smallBatch.
                case acc of
                  None \<Rightarrow> None
                | Some rs \<Rightarrow>
                    (case fetchBatchFromAPI env now smallBatch (snd rs) of
                       None \<Rightarrow> None
                     | Some (Inr smallResult, s) \<Rightarrow>
                         Some (objectAssign (fst rs) smallResult, s)
                     | Some (Inl smallError, s) \<Rightarrow> Some (fst rs, s)))
             (Some ([], svc1)) smaller = Some (res', s')"
          and after: "sameCaches svc1 s'"
            "fst ` set res' \<subseteq> fst ` set ([] :: payload js_object) \<union> \<Union> (set ` set smaller)"
            "(\<forall>b \<in> set smaller. b \<noteq> [] \<and> length b \<le> 5) \<longrightarrow>
               batchLog s' = batchLog svc1 @ map length smaller"
            "(\<forall>n p b. fetchJson env n p b = None) \<longrightarrow> res' = []"
          using small_batches_fold [OF ih, of "[]" svc1]
          by - (erule exE, erule exE, (erule conjE)+, rule that, assumption+)
        have "\<Union> (set ` set smaller) = set (concat smaller)"
          by simp
        then have "\<Union> (set ` set smaller) = set zipCodes"
          by (simp only: chunkArray_concat [OF smaller])
        then have keys: "fst ` set res' \<subseteq> set zipCodes"
          using after(2) by simp
        have "fetchBatchFromAPI env now zipCodes svc = Some (Inr res', s')"
          using \<open>length zipCodes \<noteq> 0\<close> f Inl True smaller fold
          by (subst fetchBatchFromAPI.simps) (simp add: svc0_def Let_def)
        then show ?thesis
          using keys sameCaches_trans [OF caches after(1)] True after(4)
          by (simp add: batchOutcome_def)
      qed
    qed
  qed
qed

text \<open>A failed batch of more than 5 ZIP codes is tried again in batches of at most 5.\<close>

lemma fetchBatch_retried:
  assumes "5 < length zs"
    and "fst (fetchWithCorsFallback env zs 0 (svc\<lparr>batchLog := batchLog svc @ [length zs]\<rparr>)) = Inl e"
  shows "\<exists>smaller res s.
           chunkArray zs 5 = Some smaller
           \<and> (\<forall>b \<in> set smaller. b \<noteq> [] \<and> length b \<le> 5)
           \<and> concat smaller = zs
           \<and> fetchBatchFromAPI env now zs svc = Some (Inr res, s)
           \<and> batchLog s = batchLog svc @ length zs # map length smaller"
proof -
  define svc0 where "svc0 = svc\<lparr>batchLog := batchLog svc @ [length zs]\<rparr>"
  obtain svc1 where f: "fetchWithCorsFallback env zs 0 svc0 = (Inl e, svc1)"
    using assms(2) by (cases "fetchWithCorsFallback env zs 0 svc0") (simp add: svc0_def)
  have log: "batchLog svc1 = batchLog svc @ [length zs]"
    using fetchWithCorsFallback_keeps [of svc0 env zs 0] f by (simp add: svc0_def)
  obtain smaller where smaller: "chunkArray zs 5 = Some smaller"
    using chunkArray_settles [of 5 zs] by auto
  have small: "\<forall>b \<in> set smaller. b \<noteq> [] \<and> length b \<le> 5"
    using chunkArray_nonempty [OF smaller] chunkArray_length_le [OF smaller] by blast
  have all: "\<forall>b \<in> set smaller. \<forall>s. \<exists>out.
               fetchBatchFromAPI env now b s = Some out \<and> batchOutcome env b s out"
    using fetchBatch_outcome by blast
  obtain res' s' where fold:
    "foldl
       (\<lambda>acc smallBatch.
          case acc of
            None \<Rightarrow> None
          | Some rs \<Rightarrow>
              (case fetchBatchFromAPI env now smallBatch (snd rs) of
                 None \<Rightarrow> None
               | Some (Inr smallResult, s) \<Rightarrow>
                   Some (objectAssign (fst rs) smallResult, s)
               | Some (Inl smallError, s) \<Rightarrow> Some (fst rs, s)))
       (Some ([], svc1)) smaller = Some (res', s')"
    and after: "sameCaches svc1 s'"
      "fst ` set res' \<subseteq> fst ` set ([] :: payload js_object) \<union> \<Union> (set ` set smaller)"
      "(\<forall>b \<in> set smaller. b \<noteq> [] \<and> length b \<le> 5) \<longrightarrow>
         batchLog s' = batchLog svc1 @ map length smaller"
      "(\<forall>n p b. fetchJson env n p b = None) \<longrightarrow> res' = []"
    using small_batches_fold [OF all, of "[]" svc1]
    by - (erule exE, erule exE, (erule conjE)+, rule that, assumption+)
  have "length zs \<noteq> 0"
    using assms(1) by (cases zs) simp_all
  then have "fetchBatchFromAPI env now zs svc = Some (Inr res', s')"
    using assms(1) f smaller fold
    by (subst fetchBatchFromAPI.simps) (simp add: svc0_def Let_def)
  moreover have "batchLog s' = batchLog svc @ length zs # map length smaller"
    using after(3) small log by simp
  ultimately show ?thesis
    using smaller small chunkArray_concat [OF smaller] by blast
qed

subsection \<open>fetchMissingData\<close>

lemma cache_all_fields:
  "memoryCache (foldl (\<lambda>s' kv. cacheData s' now (fst kv) (snd kv)) s kvs) = memoryCache s
   \<and> cacheHits (foldl (\<lambda>s' kv. cacheData s' now (fst kv) (snd kv)) s kvs) = cacheHits s
   \<and> cacheMisses (foldl (\<lambda>s' kv. cacheData s' now (fst kv) (snd kv)) s kvs) = cacheMisses s
   \<and> apiCalls (foldl (\<lambda>s' kv. cacheData s' now (fst kv) (snd kv)) s kvs) = apiCalls s
   \<and> batchLog (foldl (\<lambda>s' kv. cacheData s' now (fst kv) (snd kv)) s kvs) = batchLog s"
  by (induction kvs arbitrary: s) simp_all

lemma fetchMissingBatch_step:
  "\<exists>res' s'.
     fetchMissingBatch env now (Some (res, s0)) b = Some (res', s')
     \<and> fst ` set res \<subseteq> fst ` set res'
     \<and> fst ` set res' \<subseteq> fst ` set res \<union> set b
     \<and> cacheHits s' = cacheHits s0 \<and> cacheMisses s' = cacheMisses s0
     \<and> (\<forall>err s1. fetchBatchFromAPI env now b s0 = Some (Inl err, s1) \<longrightarrow> res' = res)
     \<and> (\<forall>d s1. fetchBatchFromAPI env now b s0 = Some (Inr d, s1) \<longrightarrow> res' = objectAssign res d)
     \<and> ((\<forall>n p b. fetchJson env n p b = None) \<longrightarrow> res' = res)"
proof -
  obtain r s1 where b: "fetchBatchFromAPI env now b s0 = Some (r, s1)" "batchOutcome env b s0 (r, s1)"
    using fetchBatch_outcome [of env now b s0] by fastforce
  show ?thesis
  proof (cases r)
    case (Inl err)
    then show ?thesis
      using b by (simp add: fetchMissingBatch_def batchOutcome_def sameCaches_def)
  next
    case (Inr d)
    then show ?thesis
      using b cache_all_fields [of now s1 d]
      by (auto simp: fetchMissingBatch_def batchOutcome_def sameCaches_def objectAssign_keys)
  qed
qed

lemma fetchMissing_fold:
  "\<exists>res' s'.
     foldl (fetchMissingBatch env now) (Some (res, s0)) bs = Some (res', s')
     \<and> fst ` set res' \<subseteq> fst ` set res \<union> \<Union> (set ` set bs)
     \<and> cacheHits s' = cacheHits s0 \<and> cacheMisses s' = cacheMisses s0
     \<and> ((\<forall>n p b. fetchJson env n p b = None) \<longrightarrow> res' = res)"
proof (induction bs arbitrary: res s0)
  case Nil
  show ?case by simp
next
  case (Cons b bs)
  obtain res1 s1 where step: "fetchMissingBatch env now (Some (res, s0)) b = Some (res1, s1)"
    and one: "fst ` set res1 \<subseteq> fst ` set res \<union> set b"
      "cacheHits s1 = cacheHits s0" "cacheMisses s1 = cacheMisses s0"
      "(\<forall>n p b. fetchJson env n p b = None) \<longrightarrow> res1 = res"
    using fetchMissingBatch_step [of env now res s0 b]
    by - (erule exE, erule exE, (erule conjE)+, rule that, assumption+)
  obtain res' s' where fold: "foldl (fetchMissingBatch env now) (Some (res1, s1)) bs = Some (res', s')"
    and rest: "fst ` set res' \<subseteq> fst ` set res1 \<union> \<Union> (set ` set bs)"
      "cacheHits s' = cacheHits s1" "cacheMisses s' = cacheMisses s1"
      "(\<forall>n p b. fetchJson env n p b = None) \<longrightarrow> res' = res1"
    using Cons.IH [of res1 s1]
    by - (erule exE, erule exE, (erule conjE)+, rule that, assumption+)
  have keys: "fst ` set res' \<subseteq> fst ` set res \<union> \<Union> (set ` set (b # bs))"
  proof
    fix k
    assume "k \<in> fst ` set res'"
    then have "k \<in> fst ` set res1 \<or> k \<in> \<Union> (set ` set bs)"
      using rest(1) by blast
    then show "k \<in> fst ` set res \<union> \<Union> (set ` set (b # bs))"
      using one(1) by auto
  qed
  have "foldl (fetchMissingBatch env now) (Some (res, s0)) (b # bs) = Some (res', s')"
    by (simp add: step fold)
  moreover have "cacheHits s' = cacheHits s0" "cacheMisses s' = cacheMisses s0"
    using one rest by simp_all
  moreover have "(\<forall>n p b. fetchJson env n p b = None) \<longrightarrow> res' = res"
    using one(4) rest(4) by simp
  ultimately show ?case
    using keys by blast
qed

lemma fetchMissingData_outcome:
  "\<exists>r s. fetchMissingData env now zs svc = Some (r, s)
     \<and> fst ` set r \<subseteq> set zs
     \<and> cacheHits s = cacheHits svc \<and> cacheMisses s = cacheMisses svc
     \<and> ((\<forall>n p b. fetchJson env n p b = None) \<longrightarrow> r = [])"
proof (cases "length zs = 0")
  case True
  then show ?thesis
    by (simp add: fetchMissingData_def)
next
  case False
  obtain batches where batches: "chunkArray zs batchSize = Some batches"
    using chunkArray_settles [of batchSize zs] by (auto simp: batchSize_def)
  have cover: "\<Union> (set ` set batches) = set zs"
    using chunkArray_concat [OF batches] by (metis set_concat)
  show ?thesis
    using fetchMissing_fold [of env now "[]" svc batches] False batches cover
    by (auto simp: fetchMissingData_def)
qed

subsection \<open>What the returned object holds\<close>

text \<open>
  Both loops over batches, the one of \<open>fetchMissingData\<close> and the one in the
  \<^verbatim>\<open>catch\<close> block of \<open>fetchBatchFromAPI\<close>, merge the outcome of each batch into the
  accumulated object. The lemmas on such a loop are stated once, for a loop body \<open>F\<close>
  that does so.
\<close>

lemma mergeBatch_keys:
  assumes "fetchBatchFromAPI env now b s = Some (out, s1)"
  shows "fst ` set (mergeBatch acc out) \<subseteq> fst ` set acc \<union> set b"
proof -
  have "batchOutcome env b s (out, s1)"
    using fetchBatch_outcome [of env now b s] assms by simp
  then show ?thesis
    by (cases out) (auto simp: mergeBatch_def batchOutcome_def objectAssign_keys)
qed

lemma mergeBatch_distinct:
  "distinct (map fst acc) \<Longrightarrow> distinct (map fst (mergeBatch acc out))"
  by (cases out) (simp_all add: mergeBatch_def objectAssign_distinct)

lemma mergeBatch_other:
  assumes "fetchBatchFromAPI env now b s = Some (out, s1)" "fst kv \<notin> set b"
  shows "kv \<in> set (mergeBatch acc out) \<longleftrightarrow> kv \<in> set acc"
proof (cases out)
  case (Inl err)
  then show ?thesis
    by (simp add: mergeBatch_def)
next
  case (Inr batchData)
  have "batchOutcome env b s (out, s1)"
    using fetchBatch_outcome [of env now b s] assms(1) by simp
  then have "fst kv \<notin> fst ` set batchData"
    using Inr assms(2) by (auto simp: batchOutcome_def)
  then show ?thesis
    using Inr by (simp add: mergeBatch_def objectAssign_other)
qed

lemma batch_fold:
  fixes F :: "(payload js_object \<times> service) option \<Rightarrow> string list
                \<Rightarrow> (payload js_object \<times> service) option"
  assumes F: "\<And>acc s b. \<exists>out s1 s'. fetchBatchFromAPI env now b s = Some (out, s1)
                 \<and> F (Some (acc, s)) b = Some (mergeBatch acc out, s')"
  shows "\<exists>r s'. foldl F (Some (acc, s)) bs = Some (r, s')
           \<and> (distinct (map fst acc) \<longrightarrow> distinct (map fst r))
           \<and> fst ` set r \<subseteq> fst ` set acc \<union> \<Union> (set ` set bs)
           \<and> (\<forall>kv. fst kv \<notin> \<Union> (set ` set bs) \<longrightarrow> (kv \<in> set r \<longleftrightarrow> kv \<in> set acc))"
proof (induction bs arbitrary: acc s)
  case Nil
  show ?case by simp
next
  case (Cons b bs)
  obtain out s1 s' where b: "fetchBatchFromAPI env now b s = Some (out, s1)"
    and step: "F (Some (acc, s)) b = Some (mergeBatch acc out, s')"
    using F [of b s acc] by - (erule exE, erule exE, erule exE, erule conjE, rule that, assumption+)
  obtain r s'' where fold: "foldl F (Some (mergeBatch acc out, s')) bs = Some (r, s'')"
    and d: "distinct (map fst (mergeBatch acc out)) \<longrightarrow> distinct (map fst r)"
    and keys: "fst ` set r \<subseteq> fst ` set (mergeBatch acc out) \<union> \<Union> (set ` set bs)"
    and other: "\<forall>kv. fst kv \<notin> \<Union> (set ` set bs) \<longrightarrow> (kv \<in> set r \<longleftrightarrow> kv \<in> set (mergeBatch acc out))"
    using Cons.IH [of "mergeBatch acc out" s']
    by - (erule exE, erule exE, (erule conjE)+, rule that, assumption+)
  have 1: "foldl F (Some (acc, s)) (b # bs) = Some (r, s'')"
    by (simp add: step fold)
  have 2: "distinct (map fst acc) \<longrightarrow> distinct (map fst r)"
    using d mergeBatch_distinct [of acc out] by simp
  have 3: "fst ` set r \<subseteq> fst ` set acc \<union> \<Union> (set ` set (b # bs))"
  proof
    fix k
    assume "k \<in> fst ` set r"
    then have "k \<in> fst ` set (mergeBatch acc out) \<or> k \<in> \<Union> (set ` set bs)"
      using keys by blast
    then show "k \<in> fst ` set acc \<union> \<Union> (set ` set (b # bs))"
      using mergeBatch_keys [OF b, of acc] by auto
  qed
  have 4: "\<forall>kv. fst kv \<notin> \<Union> (set ` set (b # bs)) \<longrightarrow> (kv \<in> set r \<longleftrightarrow> kv \<in> set acc)"
  proof (intro allI impI)
    fix kv :: "string \<times> payload"
    assume out: "fst kv \<notin> \<Union> (set ` set (b # bs))"
    then have "fst kv \<notin> \<Union> (set ` set bs)"
      by simp
    then have "kv \<in> set r \<longleftrightarrow> kv \<in> set (mergeBatch acc out)"
      using other by blast
    also have "\<dots> \<longleftrightarrow> kv \<in> set acc"
      using out by (intro mergeBatch_other [OF b]) simp
    finally show "kv \<in> set r \<longleftrightarrow> kv \<in> set acc" .
  qed
  show ?case
    using 1 2 3 4 by (intro exI conjI)
qed

lemma retrySmallBatch_step:
  "\<exists>out s1 s'. fetchBatchFromAPI env now b s = Some (out, s1)
     \<and> retrySmallBatch env now (Some (acc, s)) b = Some (mergeBatch acc out, s')"
proof -
  obtain out s1 where b: "fetchBatchFromAPI env now b s = Some (out, s1)"
    using fetchBatch_outcome [of env now b s] by fastforce
  have "retrySmallBatch env now (Some (acc, s)) b = Some (mergeBatch acc out, s1)"
    using b by (cases out) (simp_all add: retrySmallBatch_def mergeBatch_def)
  then show ?thesis
    using b by blast
qed

lemma fetchMissingBatch_merge:
  "\<exists>out s1 s'. fetchBatchFromAPI env now b s = Some (out, s1)
     \<and> fetchMissingBatch env now (Some (acc, s)) b = Some (mergeBatch acc out, s')"
proof -
  obtain out s1 where b: "fetchBatchFromAPI env now b s = Some (out, s1)"
    using fetchBatch_outcome [of env now b s] by fastforce
  have "\<exists>s'. fetchMissingBatch env now (Some (acc, s)) b = Some (mergeBatch acc out, s')"
    using b by (cases out) (simp_all add: fetchMissingBatch_def mergeBatch_def)
  then show ?thesis
    using b by blast
qed

lemma retry_loop:
  "(\<lambda>acc smallBatch.
      case acc of
        None \<Rightarrow> None
      | Some rs \<Rightarrow>
          (case fetchBatchFromAPI env now smallBatch (snd rs) of
             None \<Rightarrow> None
           | Some (Inr smallResult, s) \<Rightarrow> Some (objectAssign (fst rs) smallResult, s)
           | Some (Inl smallError, s) \<Rightarrow> Some (fst rs, s))) = retrySmallBatch env now"
  by (intro ext) (simp add: retrySmallBatch_def)

lemma fetchBatch_fallback:
  assumes "5 < length zs"
    and "fetchWithCorsFallback env zs 0 (svc\<lparr>batchLog := batchLog svc @ [length zs]\<rparr>) = (Inl e, svc1)"
    and "chunkArray zs 5 = Some smaller"
  shows "fetchBatchFromAPI env now zs svc =
           map_option (\<lambda>rs. (Inr (fst rs), snd rs))
             (foldl (retrySmallBatch env now) (Some ([], svc1)) smaller)"
proof -
  have "zs \<noteq> []"
    using assms(1) by (cases zs) simp_all
  then show ?thesis
    using assms by (subst fetchBatchFromAPI.simps) (simp add: Let_def retry_loop)
qed

lemma parseRow_distinct:
  "distinct (map fst (fst st)) \<Longrightarrow> distinct (map fst (fst (parseRow env now headers st row)))"
  by (cases st) (simp add: parseRow_def Let_def objSet_distinct split: option.splits)

lemma parseRows_distinct:
  "distinct (map fst (fst st)) \<Longrightarrow>
   distinct (map fst (fst (foldl (parseRow env now headers) st rows)))"
  by (induction rows arbitrary: st) (simp_all add: parseRow_distinct)

lemma parseResponse_distinct: "distinct (map fst (parseResponse env now body zs))"
  by (simp add: parseResponse_def parseRows_distinct split: response.splits list.splits)

lemma fetchBatch_distinct:
  assumes "fetchBatchFromAPI env now zs svc = Some (Inr batchData, s)"
  shows "distinct (map fst batchData)"
proof (cases "length zs = 0")
  case True
  then show ?thesis
    using assms by (subst (asm) fetchBatchFromAPI.simps) simp
next
  case False
  define svc0 where "svc0 = svc\<lparr>batchLog := batchLog svc @ [length zs]\<rparr>"
  obtain x svc1 where f: "fetchWithCorsFallback env zs 0 svc0 = (x, svc1)"
    by (cases "fetchWithCorsFallback env zs 0 svc0")
  show ?thesis
  proof (cases x)
    case (Inr body)
    then have "fetchBatchFromAPI env now zs svc = Some (Inr (parseResponse env now body zs), svc1)"
      using False f by (subst fetchBatchFromAPI.simps) (simp add: svc0_def Let_def)
    then show ?thesis
      using assms by (simp add: parseResponse_distinct)
  next
    case (Inl e)
    show ?thesis
    proof (cases "5 < length zs")
      case False
      then have "fetchBatchFromAPI env now zs svc = Some (Inl e, svc1)"
        using \<open>length zs \<noteq> 0\<close> f Inl by (subst fetchBatchFromAPI.simps) (simp add: svc0_def Let_def)
      then show ?thesis
        using assms by simp
    next
      case True
      obtain smaller where smaller: "chunkArray zs 5 = Some smaller"
        using chunkArray_settles [of 5 zs] by auto
      obtain r s' where fold: "foldl (retrySmallBatch env now) (Some ([], svc1)) smaller = Some (r, s')"
        and d: "distinct (map fst ([] :: payload js_object)) \<longrightarrow> distinct (map fst r)"
        using batch_fold [of env now "retrySmallBatch env now" "[]" svc1 smaller, OF retrySmallBatch_step]
        by - (erule exE, erule exE, (erule conjE)+, rule that, assumption+)
      have "fetchBatchFromAPI env now zs svc = Some (Inr r, s')"
        using fetchBatch_fallback [OF True _ smaller, of env svc e svc1 now] f Inl fold
        by (simp add: svc0_def)
      then show ?thesis
        using assms d by simp
    qed
  qed
qed

lemma mergeBatch_entries:
  assumes "fetchBatchFromAPI env now b s = Some (out, s1)"
    and "distinct (map fst acc)" "fst ` set acc \<inter> set b = {}"
  shows "entriesFor (mergeBatch acc out) b = batchEntries out"
proof (cases out)
  case (Inl err)
  then show ?thesis
    using assms(3) by (auto simp: entriesFor_def batchEntries_def mergeBatch_def)
next
  case (Inr batchData)
  have "batchOutcome env b s (out, s1)"
    using fetchBatch_outcome [of env now b s] assms(1) by simp
  then have keys: "fst ` set batchData \<subseteq> set b"
    using Inr by (simp add: batchOutcome_def)
  have d: "distinct (map fst batchData)"
    using assms(1) Inr by (intro fetchBatch_distinct [of env now b s batchData s1]) simp
  show ?thesis
    using Inr keys assms(3)
    by (auto simp: entriesFor_def batchEntries_def mergeBatch_def
          objectAssign_entries [OF assms(2) d])
qed

lemma batch_fold_entries:
  fixes F :: "(payload js_object \<times> service) option \<Rightarrow> string list
                \<Rightarrow> (payload js_object \<times> service) option"
  assumes F: "\<And>acc s b. \<exists>out s1 s'. fetchBatchFromAPI env now b s = Some (out, s1)
                 \<and> F (Some (acc, s)) b = Some (mergeBatch acc out, s')"
    and pre: "foldl F (Some ([], sv)) pre = Some (acc, s0)"
    and b: "fetchBatchFromAPI env now b s0 = Some (out, s1)"
    and dist: "distinct (concat (pre @ b # post))"
  shows "\<exists>r s. foldl F (Some ([], sv)) (pre @ b # post) = Some (r, s)
           \<and> entriesFor r b = batchEntries out"
proof -
  have apart: "\<Union> (set ` set pre) \<inter> set b = {}" "\<Union> (set ` set post) \<inter> set b = {}"
    using dist by auto
  obtain r0 s0' where "foldl F (Some ([], sv)) pre = Some (r0, s0')"
    and "distinct (map fst ([] :: payload js_object)) \<longrightarrow> distinct (map fst r0)"
    and "fst ` set r0 \<subseteq> fst ` set ([] :: payload js_object) \<union> \<Union> (set ` set pre)"
    using batch_fold [of env now F "[]" sv pre, OF F]
    by - (erule exE, erule exE, (erule conjE)+, rule that, assumption+)
  then have acc: "distinct (map fst acc)" "fst ` set acc \<subseteq> \<Union> (set ` set pre)"
    using pre by simp_all
  obtain out' s1' s' where "fetchBatchFromAPI env now b s0 = Some (out', s1')"
    and "F (Some (acc, s0)) b = Some (mergeBatch acc out', s')"
    using F [of b s0 acc] by - (erule exE, erule exE, erule exE, erule conjE, rule that, assumption+)
  then have step: "F (Some (acc, s0)) b = Some (mergeBatch acc out, s')"
    using b by simp
  obtain r s where fold: "foldl F (Some (mergeBatch acc out, s')) post = Some (r, s)"
    and other: "\<forall>kv. fst kv \<notin> \<Union> (set ` set post) \<longrightarrow> (kv \<in> set r \<longleftrightarrow> kv \<in> set (mergeBatch acc out))"
    using batch_fold [of env now F "mergeBatch acc out" s' post, OF F]
    by - (erule exE, erule exE, (erule conjE)+, rule that, assumption+)
  have whole: "foldl F (Some ([], sv)) (pre @ b # post) = Some (r, s)"
    by (simp add: pre step fold)
  have "kv \<in> set r \<longleftrightarrow> kv \<in> set (mergeBatch acc out)" if "fst kv \<in> set b" for kv
  proof -
    have "fst kv \<notin> \<Union> (set ` set post)"
      using that apart(2) by blast
    then show ?thesis
      using other by blast
  qed
  then have "entriesFor r b = entriesFor (mergeBatch acc out) b"
    unfolding entriesFor_def by blast
  also have "\<dots> = batchEntries out"
    using b acc(1)
  proof (rule mergeBatch_entries)
    show "fst ` set acc \<inter> set b = {}"
      using acc(2) apart(1) by blast
  qed
  finally show ?thesis
    using whole by blast
qed

lemma fetchMissingData_batch:
  assumes "chunkArray zs batchSize = Some (pre @ b # post)" "distinct zs"
  shows "\<exists>acc s0 out s1 r s.
           foldl (fetchMissingBatch env now) (Some ([], svc)) pre = Some (acc, s0)
           \<and> fetchBatchFromAPI env now b s0 = Some (out, s1)
           \<and> fetchMissingData env now zs svc = Some (r, s)
           \<and> entriesFor r b = batchEntries out"
proof -
  have whole: "concat (pre @ b # post) = zs"
    using assms(1) by (rule chunkArray_concat)
  have "b \<noteq> []"
    using chunkArray_nonempty [OF assms(1), of b] by simp
  then have some: "length zs \<noteq> 0"
    using whole by auto
  obtain acc s0 where pre: "foldl (fetchMissingBatch env now) (Some ([], svc)) pre = Some (acc, s0)"
    using batch_fold [of env now "fetchMissingBatch env now" "[]" svc pre, OF fetchMissingBatch_merge]
    by - (erule exE, erule exE, (erule conjE)+, rule that, assumption+)
  obtain out s1 where b: "fetchBatchFromAPI env now b s0 = Some (out, s1)"
    using fetchBatch_outcome [of env now b s0] by fastforce
  have dist: "distinct (concat (pre @ b # post))"
    using assms(2) whole by simp
  obtain r s where "foldl (fetchMissingBatch env now) (Some ([], svc)) (pre @ b # post) = Some (r, s)"
    and entries: "entriesFor r b = batchEntries out"
    using batch_fold_entries [of env now "fetchMissingBatch env now" svc pre acc s0 b out s1 post,
        OF fetchMissingBatch_merge pre b dist]
    by - (erule exE, erule exE, (erule conjE)+, rule that, assumption+)
  then have "fetchMissingData env now zs svc = Some (r, s)"
    using some assms(1) by (simp add: fetchMissingData_def)
  then show ?thesis
    using pre b entries by (intro exI conjI)
qed

lemma fetchBatch_retry_batch:
  assumes "5 < length zs"
    and "fetchWithCorsFallback env zs 0 (svc\<lparr>batchLog := batchLog svc @ [length zs]\<rparr>) = (Inl e, svc1)"
    and "chunkArray zs 5 = Some (pre @ b # post)" "distinct zs"
  shows "\<exists>acc s0 out s1 res s.
           foldl (retrySmallBatch env now) (Some ([], svc1)) pre = Some (acc, s0)
           \<and> fetchBatchFromAPI env now b s0 = Some (out, s1)
           \<and> fetchBatchFromAPI env now zs svc = Some (Inr res, s)
           \<and> entriesFor res b = batchEntries out"
proof -
  have whole: "concat (pre @ b # post) = zs"
    using assms(3) by (rule chunkArray_concat)
  obtain acc s0 where pre: "foldl (retrySmallBatch env now) (Some ([], svc1)) pre = Some (acc, s0)"
    using batch_fold [of env now "retrySmallBatch env now" "[]" svc1 pre, OF retrySmallBatch_step]
    by - (erule exE, erule exE, (erule conjE)+, rule that, assumption+)
  obtain out s1 where b: "fetchBatchFromAPI env now b s0 = Some (out, s1)"
    using fetchBatch_outcome [of env now b s0] by fastforce
  have dist: "distinct (concat (pre @ b # post))"
    using assms(4) whole by simp
  obtain res s where fold: "foldl (retrySmallBatch env now) (Some ([], svc1)) (pre @ b # post) = Some (res, s)"
    and entries: "entriesFor res b = batchEntries out"
    using batch_fold_entries [of env now "retrySmallBatch env now" svc1 pre acc s0 b out s1 post,
        OF retrySmallBatch_step pre b dist]
    by - (erule exE, erule exE, (erule conjE)+, rule that, assumption+)
  have "fetchBatchFromAPI env now zs svc = Some (Inr res, s)"
    using fetchBatch_fallback [OF assms(1,2,3), of now] fold by simp
  then show ?thesis
    using pre b entries by (intro exI conjI)
qed

lemma fetchBatch_answers:
  assumes "\<forall>n p. fetchJson env n p zs = Some body" "zs \<noteq> []"
  shows "\<exists>s. fetchBatchFromAPI env now zs svc = Some (Inr (parseResponse env now body zs), s)"
proof -
  define svc0 where "svc0 = svc\<lparr>batchLog := batchLog svc @ [length zs]\<rparr>"
  have "fetchJson env (apiCalls svc0) (currentProxyIndex svc0) zs = Some body"
    using assms(1) by simp
  then have "fetchWithCorsFallback env zs 0 svc0 = (Inr body, svc0\<lparr>apiCalls := apiCalls svc0 + 1\<rparr>)"
    by (rule fetchWithCorsFallback_answered)
  then show ?thesis
    using assms(2) by (subst fetchBatchFromAPI.simps) (simp add: svc0_def Let_def)
qed

lemma fetchBatch_throws:
  assumes "\<forall>n p. fetchJson env n p zs = None" "zs \<noteq> []" "length zs \<le> 5"
  shows "\<exists>s. fetchBatchFromAPI env now zs svc = Some (Inl FetchFailed, s)"
proof -
  define svc0 where "svc0 = svc\<lparr>batchLog := batchLog svc @ [length zs]\<rparr>"
  have "fst (fetchWithCorsFallback env zs 0 svc0) = Inl FetchFailed"
    using assms(1) by (rule fetchWithCorsFallback_unanswered)
  then obtain svc1 where "fetchWithCorsFallback env zs 0 svc0 = (Inl FetchFailed, svc1)"
    by (cases "fetchWithCorsFallback env zs 0 svc0") simp
  then show ?thesis
    using assms(2,3) by (subst fetchBatchFromAPI.simps) (simp add: svc0_def Let_def)
qed

subsection \<open>A network that fails the requests for one ZIP code\<close>

lemma parse_two:
  "fst ` set (parseResponse flakyNetwork now
     (Table (censusHeaders # map censusRow [''67606'', ''67607''])) [''67606'', ''67607''])
   = {''67606'', ''67607''}"
  by (simp add: parseResponse_def parseRow_def Let_def censusHeaders_def censusRow_def
        indexOf_def cellAt_def)

lemma zips65_distinct: "distinct zips65 \<and> length zips65 = 65"
  by (simp add: zips65_def)

lemma flaky_fails: "''67601'' \<in> set b \<Longrightarrow> \<forall>n p. fetchJson flakyNetwork n p b = None"
  by (simp add: flakyNetwork_def)

lemma flaky_answers:
  "''67601'' \<notin> set b \<Longrightarrow>
   \<forall>n p. fetchJson flakyNetwork n p b = Some (Table (censusHeaders # map censusRow b))"
  by (simp add: flakyNetwork_def)

lemma entriesFor_all: "fst ` set obj \<subseteq> set zs \<Longrightarrow> entriesFor obj zs = set obj"
  by (auto simp: entriesFor_def)

lemma entriesFor_append: "entriesFor obj (xs @ ys) = entriesFor obj xs \<union> entriesFor obj ys"
  by (auto simp: entriesFor_def)

lemma fetchBatch_keys:
  "fetchBatchFromAPI env now zs svc = Some (Inr obj, s) \<Longrightarrow> fst ` set obj \<subseteq> set zs"
  using fetchBatch_outcome [of env now zs svc] by (auto simp: batchOutcome_def)

lemma parse_five:
  "fst ` set (parseResponse flakyNetwork now
     (Table (censusHeaders # map censusRow [''67661'', ''67662'', ''67663'', ''67664'', ''67665'']))
     [''67661'', ''67662'', ''67663'', ''67664'', ''67665''])
   = {''67661'', ''67662'', ''67663'', ''67664'', ''67665''}"
  by (simp add: parseResponse_def parseRow_def Let_def censusHeaders_def censusRow_def
        indexOf_def cellAt_def)

subsection \<open>No failure of a batch reaches the caller\<close>

text \<open>
  C6. \<open>fetchMissingData\<close> always returns an object, holding requested ZIP codes only:
  no failure of a batch reaches its caller. \<open>fetchBatchFromAPI\<close> throws for batches of
  at most 5 only; a batch of more than 5 whose request fails is cut into batches of 1 to
  5 that are each requested once more (their sizes follow the size of the batch in the
  log), and the object it then returns holds, for each of these small batches, exactly
  the entries that the small batch returned and no ZIP code of a small batch that threw.
  In the loop of \<open>fetchMissingData\<close> a batch that throws adds nothing and keeps what the
  earlier batches returned, and a batch that returns is merged into the result. The
  object that \<open>fetchMissingData\<close> returns holds, for each of its batches, exactly the
  entries that the batch returned when it was fetched in the state the earlier batches
  left, and no ZIP code of a batch that threw. (Entries are compared for distinct ZIP
  codes: \<open>fetchCombinedData\<close> passes the misses of a list without duplicates.) When no
  request is answered at all, the result is the empty object.
\<close>

theorem C6_batch_failures_stay_inside:
  "(\<exists>r s. fetchMissingData env now zs svc = Some (r, s) \<and> fst ` set r \<subseteq> set zs)
   \<and> (5 < length zs \<longrightarrow> (\<exists>r s. fetchBatchFromAPI env now zs svc = Some (Inr r, s)))
   \<and> (5 < length zs
        \<and> fst (fetchWithCorsFallback env zs 0 (svc\<lparr>batchLog := batchLog svc @ [length zs]\<rparr>)) = Inl e
      \<longrightarrow> (\<exists>smaller res s.
             chunkArray zs 5 = Some smaller
             \<and> (\<forall>b \<in> set smaller. b \<noteq> [] \<and> length b \<le> 5)
             \<and> concat smaller = zs
             \<and> fetchBatchFromAPI env now zs svc = Some (Inr res, s)
             \<and> batchLog s = batchLog svc @ length zs # map length smaller))
   \<and> (5 < length zs
        \<and> fetchWithCorsFallback env zs 0 (svc\<lparr>batchLog := batchLog svc @ [length zs]\<rparr>) = (Inl e, svc1)
        \<and> chunkArray zs 5 = Some (before @ small # after) \<and> distinct zs
      \<longrightarrow> (\<exists>acc sv out sv' res s.
             foldl (retrySmallBatch env now) (Some ([], svc1)) before = Some (acc, sv)
             \<and> fetchBatchFromAPI env now small sv = Some (out, sv')
             \<and> fetchBatchFromAPI env now zs svc = Some (Inr res, s)
             \<and> entriesFor res small = batchEntries out))
   \<and> (\<exists>res' s'.
         fetchMissingBatch env now (Some (res, s0)) b = Some (res', s')
         \<and> fst ` set res \<subseteq> fst ` set res'
         \<and> (\<forall>err s1. fetchBatchFromAPI env now b s0 = Some (Inl err, s1) \<longrightarrow> res' = res)
         \<and> (\<forall>d s1. fetchBatchFromAPI env now b s0 = Some (Inr d, s1) \<longrightarrow> res' = objectAssign res d))
   \<and> (chunkArray zs batchSize = Some (pre @ batch # post) \<and> distinct zs
      \<longrightarrow> (\<exists>acc sv out sv' r s.
             foldl (fetchMissingBatch env now) (Some ([], svc)) pre = Some (acc, sv)
             \<and> fetchBatchFromAPI env now batch sv = Some (out, sv')
             \<and> fetchMissingData env now zs svc = Some (r, s)
             \<and> entriesFor r batch = batchEntries out))
   \<and> ((\<forall>n p b. fetchJson env n p b = None)
      \<longrightarrow> (\<exists>s. fetchMissingData env now zs svc = Some ([], s)))"
proof -
  obtain r s where out: "fetchMissingData env now zs svc = Some (r, s)" "fst ` set r \<subseteq> set zs"
    "(\<forall>n p b. fetchJson env n p b = None) \<longrightarrow> r = []"
    using fetchMissingData_outcome [of env now zs svc]
    by - (erule exE, erule exE, (erule conjE)+, rule that, assumption+)
  have a: "\<exists>r s. fetchMissingData env now zs svc = Some (r, s) \<and> fst ` set r \<subseteq> set zs"
    using out(1,2) by (intro exI conjI)
  have b: "5 < length zs \<longrightarrow> (\<exists>r s. fetchBatchFromAPI env now zs svc = Some (Inr r, s))"
  proof
    assume big: "5 < length zs"
    obtain r s where out: "fetchBatchFromAPI env now zs svc = Some (r, s)" "batchOutcome env zs svc (r, s)"
      using fetchBatch_outcome [of env now zs svc] by fastforce
    show "\<exists>r s. fetchBatchFromAPI env now zs svc = Some (Inr r, s)"
      using out big by (cases r) (simp_all add: batchOutcome_def)
  qed
  have c: "5 < length zs
        \<and> fst (fetchWithCorsFallback env zs 0 (svc\<lparr>batchLog := batchLog svc @ [length zs]\<rparr>)) = Inl e
      \<longrightarrow> (\<exists>smaller res s.
             chunkArray zs 5 = Some smaller
             \<and> (\<forall>b \<in> set smaller. b \<noteq> [] \<and> length b \<le> 5)
             \<and> concat smaller = zs
             \<and> fetchBatchFromAPI env now zs svc = Some (Inr res, s)
             \<and> batchLog s = batchLog svc @ length zs # map length smaller)"
    by (intro impI, elim conjE, rule fetchBatch_retried)
  have c': "5 < length zs
        \<and> fetchWithCorsFallback env zs 0 (svc\<lparr>batchLog := batchLog svc @ [length zs]\<rparr>) = (Inl e, svc1)
        \<and> chunkArray zs 5 = Some (before @ small # after) \<and> distinct zs
      \<longrightarrow> (\<exists>acc sv out sv' res s.
             foldl (retrySmallBatch env now) (Some ([], svc1)) before = Some (acc, sv)
             \<and> fetchBatchFromAPI env now small sv = Some (out, sv')
             \<and> fetchBatchFromAPI env now zs svc = Some (Inr res, s)
             \<and> entriesFor res small = batchEntries out)"
    by (intro impI, elim conjE, rule fetchBatch_retry_batch)
  obtain res' s' where step: "fetchMissingBatch env now (Some (res, s0)) b = Some (res', s')"
    "fst ` set res \<subseteq> fst ` set res'"
    "\<forall>err s1. fetchBatchFromAPI env now b s0 = Some (Inl err, s1) \<longrightarrow> res' = res"
    "\<forall>d s1. fetchBatchFromAPI env now b s0 = Some (Inr d, s1) \<longrightarrow> res' = objectAssign res d"
    using fetchMissingBatch_step [of env now res s0 b]
    by - (erule exE, erule exE, (erule conjE)+, rule that, assumption+)
  have d: "\<exists>res' s'.
         fetchMissingBatch env now (Some (res, s0)) b = Some (res', s')
         \<and> fst ` set res \<subseteq> fst ` set res'
         \<and> (\<forall>err s1. fetchBatchFromAPI env now b s0 = Some (Inl err, s1) \<longrightarrow> res' = res)
         \<and> (\<forall>d s1. fetchBatchFromAPI env now b s0 = Some (Inr d, s1) \<longrightarrow> res' = objectAssign res d)"
    using step by (intro exI conjI)
  have d': "chunkArray zs batchSize = Some (pre @ batch # post) \<and> distinct zs
      \<longrightarrow> (\<exists>acc sv out sv' r s.
             foldl (fetchMissingBatch env now) (Some ([], svc)) pre = Some (acc, sv)
             \<and> fetchBatchFromAPI env now batch sv = Some (out, sv')
             \<and> fetchMissingData env now zs svc = Some (r, s)
             \<and> entriesFor r batch = batchEntries out)"
    by (intro impI, elim conjE, rule fetchMissingData_batch)
  have e: "(\<forall>n p b. fetchJson env n p b = None)
      \<longrightarrow> (\<exists>s. fetchMissingData env now zs svc = Some ([], s))"
    using out(1,3) by auto
  show ?thesis
    using a b c c' d d' e by (intro conjI)
qed

theorem C6_batch_failures_stay_inside_witness:
  "(\<exists>s. fetchMissingData deadNetwork 1700000000000 sevenZips newService = Some ([], s))
   \<and> (\<exists>res s. fetchBatchFromAPI deadNetwork 1700000000000 sevenZips newService = Some (Inr res, s)
         \<and> batchLog s = [7, 5, 2])
   \<and> (\<exists>r s. fetchMissingData flakyNetwork 1700000000000 sevenZips newService = Some (r, s)
         \<and> set r = set (parseResponse flakyNetwork 1700000000000
                      (Table (censusHeaders # map censusRow [''67606'', ''67607'']))
                      [''67606'', ''67607''])
         \<and> fst ` set r = {''67606'', ''67607''})
   \<and> (\<exists>r s. fetchMissingData flakyNetwork 1700000000000 zips65 newService = Some (r, s)
         \<and> entriesFor r [''67661'', ''67662'', ''67663'', ''67664'', ''67665'']
             = set (parseResponse flakyNetwork 1700000000000
                      (Table (censusHeaders
                         # map censusRow [''67661'', ''67662'', ''67663'', ''67664'', ''67665'']))
                      [''67661'', ''67662'', ''67663'', ''67664'', ''67665''])
         \<and> fst ` entriesFor r [''67661'', ''67662'', ''67663'', ''67664'', ''67665'']
             = {''67661'', ''67662'', ''67663'', ''67664'', ''67665''})"
proof -
  have dead: "\<forall>n p b. fetchJson deadNetwork n p b = None"
    by (simp add: deadNetwork_def)
  have big: "5 < length sevenZips"
    by (simp add: sevenZips_def)
  have fail: "fst (fetchWithCorsFallback deadNetwork sevenZips 0
                (newService\<lparr>batchLog := batchLog newService @ [length sevenZips]\<rparr>)) = Inl FetchFailed"
    by (rule fetchWithCorsFallback_unanswered) (simp add: deadNetwork_def)
  have "chunkFrom 10 sevenZips 5 = Some []"
    by (intro chunkFrom_end) (simp add: sevenZips_def)
  then have "chunkFrom 5 sevenZips 5 = Some [take 5 (drop 5 sevenZips)]"
    using chunkFrom_step [of 5 sevenZips 5] by (simp add: sevenZips_def)
  then have "chunkFrom 0 sevenZips 5 = Some [take 5 (drop 0 sevenZips), take 5 (drop 5 sevenZips)]"
    using chunkFrom_step [of 0 sevenZips 5] by (simp add: sevenZips_def)
  then have chunks: "chunkArray sevenZips 5 = Some [take 5 sevenZips, take 5 (drop 5 sevenZips)]"
    by (simp add: chunkArray_def)
  note facts = C6_batch_failures_stay_inside [of deadNetwork 1700000000000 sevenZips newService
      FetchFailed]
  note third = facts [THEN conjunct2, THEN conjunct2, THEN conjunct1]
  note last = facts [THEN conjunct2, THEN conjunct2, THEN conjunct2, THEN conjunct2,
      THEN conjunct2, THEN conjunct2]
  have quiet: "\<exists>s. fetchMissingData deadNetwork 1700000000000 sevenZips newService = Some ([], s)"
    using last dead by (rule mp)
  have "\<exists>smaller res s.
          chunkArray sevenZips 5 = Some smaller
          \<and> (\<forall>b \<in> set smaller. b \<noteq> [] \<and> length b \<le> 5)
          \<and> concat smaller = sevenZips
          \<and> fetchBatchFromAPI deadNetwork 1700000000000 sevenZips newService = Some (Inr res, s)
          \<and> batchLog s = batchLog newService @ length sevenZips # map length smaller"
    using third conjI [OF big fail] by (rule mp)
  then obtain smaller res s where retried: "chunkArray sevenZips 5 = Some smaller"
    "fetchBatchFromAPI deadNetwork 1700000000000 sevenZips newService = Some (Inr res, s)"
    "batchLog s = batchLog newService @ length sevenZips # map length smaller"
    by - (erule exE, erule exE, erule exE, (erule conjE)+, rule that, assumption+)
  have "smaller = [take 5 sevenZips, take 5 (drop 5 sevenZips)]"
    using retried(1) chunks by simp
  then have "batchLog s = [7, 5, 2]"
    using retried(3) by (simp add: newService_def sevenZips_def)
  then have logged: "\<exists>res s. fetchBatchFromAPI deadNetwork 1700000000000 sevenZips newService
      = Some (Inr res, s) \<and> batchLog s = [7, 5, 2]"
    using retried(2) by blast

  define first5 where "first5 = [''67601'', ''67602'', ''67603'', ''67604'', ''67605'']"
  define last2 where "last2 = [''67606'', ''67607'']"
  define body2 where "body2 = Table (censusHeaders # map censusRow last2)"
  have seven: "sevenZips = first5 @ last2"
    by (simp add: sevenZips_def first5_def last2_def)
  have chunks5: "chunkArray sevenZips 5 = Some [first5, last2]"
    using chunks by (simp add: sevenZips_def first5_def last2_def)
  have chunks30: "chunkArray sevenZips batchSize = Some [sevenZips]"
    by (rule chunkArray_single) (simp_all add: sevenZips_def batchSize_def)
  have dist: "distinct sevenZips"
    by (simp add: sevenZips_def)
  have "fst (fetchWithCorsFallback flakyNetwork sevenZips 0
          (newService\<lparr>batchLog := batchLog newService @ [length sevenZips]\<rparr>)) = Inl FetchFailed"
    by (rule fetchWithCorsFallback_unanswered, rule flaky_fails) (simp add: sevenZips_def)
  then obtain svc1 where first: "fetchWithCorsFallback flakyNetwork sevenZips 0
          (newService\<lparr>batchLog := batchLog newService @ [length sevenZips]\<rparr>) = (Inl FetchFailed, svc1)"
    by (cases "fetchWithCorsFallback flakyNetwork sevenZips 0
          (newService\<lparr>batchLog := batchLog newService @ [length sevenZips]\<rparr>)") simp

  note exhausted = C6_batch_failures_stay_inside [where env = flakyNetwork and now = 1700000000000 and zs = sevenZips
      and svc = newService and e = FetchFailed and ?svc1.0 = svc1 and before = "[]"
      and small = first5 and after = "[last2]",
      THEN conjunct2, THEN conjunct2, THEN conjunct2, THEN conjunct1]
  have "\<exists>acc sv out sv' res s.
          foldl (retrySmallBatch flakyNetwork 1700000000000) (Some ([], svc1)) [] = Some (acc, sv)
          \<and> fetchBatchFromAPI flakyNetwork 1700000000000 first5 sv = Some (out, sv')
          \<and> fetchBatchFromAPI flakyNetwork 1700000000000 sevenZips newService = Some (Inr res, s)
          \<and> entriesFor res first5 = batchEntries out"
    using exhausted big first chunks5 dist by simp
  then obtain sv1 out1 sv1' res7 s7 where
    one: "fetchBatchFromAPI flakyNetwork 1700000000000 first5 sv1 = Some (out1, sv1')"
      "fetchBatchFromAPI flakyNetwork 1700000000000 sevenZips newService = Some (Inr res7, s7)"
      "entriesFor res7 first5 = batchEntries out1"
    by - (erule exE, erule exE, erule exE, erule exE, erule exE, erule exE, (erule conjE)+,
        rule that, assumption+)
  have "\<exists>s. fetchBatchFromAPI flakyNetwork 1700000000000 first5 sv1 = Some (Inl FetchFailed, s)"
    by (rule fetchBatch_throws, rule flaky_fails) (simp_all add: first5_def)
  then have "out1 = Inl FetchFailed"
    using one(1) by auto
  then have none: "entriesFor res7 first5 = {}"
    using one(3) by (simp add: batchEntries_def)

  note returned = C6_batch_failures_stay_inside [where env = flakyNetwork and now = 1700000000000 and zs = sevenZips
      and svc = newService and e = FetchFailed and ?svc1.0 = svc1 and before = "[first5]"
      and small = last2 and after = "[]",
      THEN conjunct2, THEN conjunct2, THEN conjunct2, THEN conjunct1]
  have "\<exists>acc sv out sv' res s.
          foldl (retrySmallBatch flakyNetwork 1700000000000) (Some ([], svc1)) [first5] = Some (acc, sv)
          \<and> fetchBatchFromAPI flakyNetwork 1700000000000 last2 sv = Some (out, sv')
          \<and> fetchBatchFromAPI flakyNetwork 1700000000000 sevenZips newService = Some (Inr res, s)
          \<and> entriesFor res last2 = batchEntries out"
    using returned big first chunks5 dist by simp
  then obtain sv2 out2 sv2' res7' s7' where
    two: "fetchBatchFromAPI flakyNetwork 1700000000000 last2 sv2 = Some (out2, sv2')"
      "fetchBatchFromAPI flakyNetwork 1700000000000 sevenZips newService = Some (Inr res7', s7')"
      "entriesFor res7' last2 = batchEntries out2"
    by - (erule exE, erule exE, erule exE, erule exE, erule exE, erule exE, (erule conjE)+,
        rule that, assumption+)
  have "\<exists>s. fetchBatchFromAPI flakyNetwork 1700000000000 last2 sv2
          = Some (Inr (parseResponse flakyNetwork 1700000000000 body2 last2), s)"
    unfolding body2_def
    by (rule fetchBatch_answers, rule flaky_answers) (simp_all add: last2_def)
  then have "out2 = Inr (parseResponse flakyNetwork 1700000000000 body2 last2)"
    using two(1) by auto
  moreover have "res7' = res7"
    using one(2) two(2) by simp
  ultimately have some: "entriesFor res7 last2 = set (parseResponse flakyNetwork 1700000000000 body2 last2)"
    using two(3) by (simp add: batchEntries_def)
  have "fst ` set res7 \<subseteq> set sevenZips"
    using one(2) by (rule fetchBatch_keys)
  then have "set res7 = entriesFor res7 sevenZips"
    by (simp add: entriesFor_all)
  then have res7: "set res7 = set (parseResponse flakyNetwork 1700000000000 body2 last2)"
    using none some by (simp add: seven entriesFor_append)

  note top = C6_batch_failures_stay_inside [where env = flakyNetwork and now = 1700000000000 and zs = sevenZips
      and svc = newService and pre = "[]" and batch = sevenZips and post = "[]"]
  note whole = top [THEN conjunct2, THEN conjunct2, THEN conjunct2, THEN conjunct2,
      THEN conjunct2, THEN conjunct1]
  have "\<exists>acc sv out sv' r s.
          foldl (fetchMissingBatch flakyNetwork 1700000000000) (Some ([], newService)) [] = Some (acc, sv)
          \<and> fetchBatchFromAPI flakyNetwork 1700000000000 sevenZips sv = Some (out, sv')
          \<and> fetchMissingData flakyNetwork 1700000000000 sevenZips newService = Some (r, s)
          \<and> entriesFor r sevenZips = batchEntries out"
    using whole chunks30 dist by simp
  then obtain acc sv out sv' r s where
    all: "foldl (fetchMissingBatch flakyNetwork 1700000000000) (Some ([], newService)) [] = Some (acc, sv)"
      "fetchBatchFromAPI flakyNetwork 1700000000000 sevenZips sv = Some (out, sv')"
      "fetchMissingData flakyNetwork 1700000000000 sevenZips newService = Some (r, s)"
      "entriesFor r sevenZips = batchEntries out"
    by - (erule exE, erule exE, erule exE, erule exE, erule exE, erule exE, (erule conjE)+,
        rule that, assumption+)
  have "sv = newService"
    using all(1) by simp
  then have "out = Inr res7"
    using all(2) one(2) by simp
  then have "entriesFor r sevenZips = set res7"
    using all(4) by (simp add: batchEntries_def)
  moreover have "fst ` set r \<subseteq> set sevenZips"
    using top [THEN conjunct1] all(3) by auto
  ultimately have "set r = set (parseResponse flakyNetwork 1700000000000 body2 last2)"
    using res7 by (simp add: entriesFor_all)
  then have r: "set r = set (parseResponse flakyNetwork 1700000000000
                      (Table (censusHeaders # map censusRow [''67606'', ''67607'']))
                      [''67606'', ''67607''])"
    by (simp add: body2_def last2_def)
  then have "fst ` set r = {''67606'', ''67607''}"
    using parse_two [of 1700000000000] by simp
  then have flaky: "\<exists>r s. fetchMissingData flakyNetwork 1700000000000 sevenZips newService = Some (r, s)
         \<and> set r = set (parseResponse flakyNetwork 1700000000000
                      (Table (censusHeaders # map censusRow [''67606'', ''67607'']))
                      [''67606'', ''67607''])
         \<and> fst ` set r = {''67606'', ''67607''}"
    using all(3) r by blast

  define last5 where "last5 = [''67661'', ''67662'', ''67663'', ''67664'', ''67665'']"
  define body5 where "body5 = Table (censusHeaders # map censusRow last5)"
  have chunks65: "chunkArray zips65 batchSize
      = Some ([take 30 zips65, take 30 (drop 30 zips65)] @ last5 # [])"
    using chunkArray_65 [of zips65] zips65_distinct
    by (simp add: batchSize_def) (simp add: zips65_def last5_def)
  note later = C6_batch_failures_stay_inside [where env = flakyNetwork and now = 1700000000000 and zs = zips65
      and svc = newService and pre = "[take 30 zips65, take 30 (drop 30 zips65)]"
      and batch = last5 and post = "[]",
      THEN conjunct2, THEN conjunct2, THEN conjunct2, THEN conjunct2, THEN conjunct2,
      THEN conjunct1]
  have "\<exists>acc sv out sv' r s.
          foldl (fetchMissingBatch flakyNetwork 1700000000000) (Some ([], newService))
            [take 30 zips65, take 30 (drop 30 zips65)] = Some (acc, sv)
          \<and> fetchBatchFromAPI flakyNetwork 1700000000000 last5 sv = Some (out, sv')
          \<and> fetchMissingData flakyNetwork 1700000000000 zips65 newService = Some (r, s)
          \<and> entriesFor r last5 = batchEntries out"
    using later conjI [OF chunks65 zips65_distinct [THEN conjunct1]] by (rule mp)
  then obtain sv5 out5 sv5' r65 s65 where
    five: "fetchBatchFromAPI flakyNetwork 1700000000000 last5 sv5 = Some (out5, sv5')"
      "fetchMissingData flakyNetwork 1700000000000 zips65 newService = Some (r65, s65)"
      "entriesFor r65 last5 = batchEntries out5"
    by - (erule exE, erule exE, erule exE, erule exE, erule exE, erule exE, (erule conjE)+,
        rule that, assumption+)
  have "\<exists>s. fetchBatchFromAPI flakyNetwork 1700000000000 last5 sv5
          = Some (Inr (parseResponse flakyNetwork 1700000000000 body5 last5), s)"
    unfolding body5_def
    by (rule fetchBatch_answers, rule flaky_answers) (simp_all add: last5_def)
  then have "out5 = Inr (parseResponse flakyNetwork 1700000000000 body5 last5)"
    using five(1) by auto
  then have "entriesFor r65 last5 = set (parseResponse flakyNetwork 1700000000000 body5 last5)"
    using five(3) by (simp add: batchEntries_def)
  then have r65: "entriesFor r65 [''67661'', ''67662'', ''67663'', ''67664'', ''67665'']
             = set (parseResponse flakyNetwork 1700000000000
                      (Table (censusHeaders
                         # map censusRow [''67661'', ''67662'', ''67663'', ''67664'', ''67665'']))
                      [''67661'', ''67662'', ''67663'', ''67664'', ''67665''])"
    by (simp add: body5_def last5_def)
  then have "fst ` entriesFor r65 [''67661'', ''67662'', ''67663'', ''67664'', ''67665'']
             = {''67661'', ''67662'', ''67663'', ''67664'', ''67665''}"
    using parse_five [of 1700000000000] by simp
  then have later_batch: "\<exists>r s. fetchMissingData flakyNetwork 1700000000000 zips65 newService = Some (r, s)
         \<and> entriesFor r [''67661'', ''67662'', ''67663'', ''67664'', ''67665'']
             = set (parseResponse flakyNetwork 1700000000000
                      (Table (censusHeaders
                         # map censusRow [''67661'', ''67662'', ''67663'', ''67664'', ''67665'']))
                      [''67661'', ''67662'', ''67663'', ''67664'', ''67665''])
         \<and> fst ` entriesFor r [''67661'', ''67662'', ''67663'', ''67664'', ''67665'']
             = {''67661'', ''67662'', ''67663'', ''67664'', ''67665''}"
    using five(2) r65 by blast
  show ?thesis
    using quiet logged flaky later_batch by (intro conjI)
qed

subsection \<open>processChunk\<close>












subsection \<open>fetchCombinedData\<close>












end
